(* ===== verification/Prelude.thy ===== *)
theory Prelude
  imports Main "HOL-Library.Word" "HOL-Library.Monad_Syntax"
begin

text \<open>
  What every component of the development shares: the machine integer types of the C++
  sources, the result type of code that can throw, the generic run of a step function over a
  list of operations with the locales that lift one-step facts to runs, and lemmas on lists
  and options that the components use.

  A C++ exception or a failed contract is a value of \<open>exn\<close> (theory \<open>Errors\<close>); a function
  that may throw returns \<open>'e + 'a\<close>, with \<open>Inl\<close> for the exception. Undefined behaviour and a
  failed \<open>assert\<close> are \<open>None\<close> of an option, so that a theorem that an operation returns
  \<open>Some\<close> says that neither happens.
\<close>

unbundle bit_operations_syntax

section \<open>Machine integers\<close>

type_synonym u8 = "8 word"
type_synonym u32 = "32 word"
type_synonym u64 = "64 word"
type_synonym size_t = "64 word"

named_theorems heap_simps \<open>loads, stores and updates of the pointer heap\<close>
named_theorems op_defs \<open>definitions of the operations of a component\<close>
named_theorems frame_simps \<open>what an operation leaves unchanged\<close>

section \<open>Sequencing of code that can throw\<close>

definition bind_res :: "'e + 'a \<Rightarrow> ('a \<Rightarrow> 'e + 'b) \<Rightarrow> 'e + 'b" where
  "bind_res r f = (case r of Inl e \<Rightarrow> Inl e | Inr x \<Rightarrow> f x)"

lemma bind_res_simps [simp]:
  "bind_res (Inl e) f = Inl e"
  "bind_res (Inr x) f = f x"
  by (simp_all add: bind_res_def)

lemma bind_res_Inr_iff:
  "bind_res r f = Inr y \<longleftrightarrow> (\<exists>x. r = Inr x \<and> f x = Inr y)"
  by (cases r) auto

lemma bind_res_Inl_iff:
  "bind_res r f = Inl e \<longleftrightarrow> r = Inl e \<or> (\<exists>x. r = Inr x \<and> f x = Inl e)"
  by (cases r) auto

section \<open>Runs of a step function\<close>

text \<open>
  A component is driven by a sequence of operations. \<open>run_steps\<close> stops with \<open>None\<close> at the
  first operation that fails.
\<close>

fun run_steps :: "('op \<Rightarrow> 's \<Rightarrow> 's option) \<Rightarrow> 'op list \<Rightarrow> 's \<Rightarrow> 's option" where
  "run_steps step [] s = Some s"
| "run_steps step (x # xs) s = Option.bind (step x s) (run_steps step xs)"

lemma run_steps_append:
  "run_steps step (xs @ ys) s = Option.bind (run_steps step xs s) (run_steps step ys)"
  by (induction xs arbitrary: s) (auto simp: bind_eq_Some_conv split: Option.bind_splits)

text \<open>The contract several operations of a component share: each keeps the invariant.\<close>

locale invariant_machine =
  fixes step :: "'op \<Rightarrow> 's \<Rightarrow> 's option"
    and inv :: "'s \<Rightarrow> bool"
  assumes step_inv: "inv s \<Longrightarrow> step x s = Some s' \<Longrightarrow> inv s'"
begin

lemma run_inv: "inv s \<Longrightarrow> run_steps step xs s = Some s' \<Longrightarrow> inv s'"
proof (induction xs arbitrary: s)
  case Nil
  then show ?case by simp
next
  case (Cons x xs)
  from Cons.prems(2) obtain t where t: "step x s = Some t" "run_steps step xs t = Some s'"
    by (auto simp: bind_eq_Some_conv)
  from Cons.prems(1) t(1) have "inv t" by (rule step_inv)
  then show ?case using t(2) by (rule Cons.IH)
qed

end

text \<open>A component none of whose operations can fail from a state of the invariant.\<close>

locale total_machine = invariant_machine +
  assumes step_total: "inv s \<Longrightarrow> \<exists>s'. step x s = Some s'"
begin

lemma run_total: "inv s \<Longrightarrow> \<exists>s'. run_steps step xs s = Some s' \<and> inv s'"
proof (induction xs arbitrary: s)
  case Nil
  then show ?case by simp
next
  case (Cons x xs)
  from step_total [OF Cons.prems, of x] obtain t where t: "step x s = Some t" by blast
  with Cons.prems have "inv t" by (rule step_inv)
  from Cons.IH [OF this] t show ?case by simp
qed

end

text \<open>
  Forward simulation: whatever the specification allows, the implementation does too, and the
  two stay related.
\<close>

locale forward_simulation =
  fixes cstep :: "'op \<Rightarrow> 'c \<Rightarrow> 'c option"
    and astep :: "'op \<Rightarrow> 'a \<Rightarrow> 'a option"
    and rel :: "'c \<Rightarrow> 'a \<Rightarrow> bool"
  assumes sim_step: "rel c a \<Longrightarrow> astep x a = Some a' \<Longrightarrow> \<exists>c'. cstep x c = Some c' \<and> rel c' a'"
begin

lemma sim_run:
  "rel c a \<Longrightarrow> run_steps astep xs a = Some a' \<Longrightarrow> \<exists>c'. run_steps cstep xs c = Some c' \<and> rel c' a'"
proof (induction xs arbitrary: c a)
  case Nil
  then show ?case by simp
next
  case (Cons x xs)
  from Cons.prems(2) obtain b where b: "astep x a = Some b" "run_steps astep xs b = Some a'"
    by (auto simp: bind_eq_Some_conv)
  from sim_step [OF Cons.prems(1) b(1)] obtain d where "cstep x c = Some d" "rel d b"
    by blast
  with Cons.IH [OF _ b(2)] show ?case by auto
qed

end

section \<open>Lists\<close>

lemma distinct_last_notin_butlast: "distinct xs \<Longrightarrow> xs \<noteq> [] \<Longrightarrow> last xs \<notin> set (butlast xs)"
  by (cases xs rule: rev_cases) auto

lemma in_set_tlD: "x \<in> set (tl xs) \<Longrightarrow> x \<in> set xs"
  by (cases xs) auto

lemma hd_append_singleton: "hd (xs @ [a]) \<in> insert a (set xs)"
  by (cases xs) auto

lemma take_append_drop_nth:
  "i < length xs \<Longrightarrow> take i xs @ xs ! i # drop (Suc i) xs = xs"
  by (simp add: id_take_nth_drop [symmetric])

lemma find_Some_first:
  "find P xs = Some x \<Longrightarrow> P x \<and> x \<in> set xs"
  by (induction xs) (auto split: if_splits)


section \<open>Bytes, bit by bit\<close>

lemma u8_bit_high [simp]: "8 \<le> n \<Longrightarrow> \<not> bit (w :: u8) n"
  using bit_imp_le_length [of w n] by auto

lemma u8_eqI:
  fixes a b :: u8
  assumes "bit a 0 = bit b 0" "bit a 1 = bit b 1" "bit a 2 = bit b 2" "bit a 3 = bit b 3"
    "bit a 4 = bit b 4" "bit a 5 = bit b 5" "bit a 6 = bit b 6" "bit a 7 = bit b 7"
  shows "a = b"
proof (rule bit_word_eqI)
  fix n
  assume "n < LENGTH(8)"
  then have "n = 0 \<or> n = 1 \<or> n = 2 \<or> n = 3 \<or> n = 4 \<or> n = 5 \<or> n = 6 \<or> n = 7" by auto
  then show "bit a n = bit b n" using assms by auto
qed

end
