(* ===== verification/Intrusive_List.thy ===== *)
theory Intrusive_List
  imports Prelude
begin

text \<open>
  The intrusive doubly linked list (\<open>src/utils/intrusive_list.hpp\<close>). Every item embeds a
  \<open>ListItemBase\<close> with two raw pointers, and a list is a ring through a sentinel that the
  list object owns. The heap is the two pointer fields of every \<open>ListItemBase\<close>; an address is
  a natural number, 0 is \<open>nullptr\<close>, and a list object is known by the address of its sentinel.
  Loads and stores through \<open>nullptr\<close> and failed \<open>assert\<close>s are \<open>None\<close>. The operations are the
  source's sequences of loads and stores; \<open>ring\<close> relates a heap and a sentinel to the list of
  item addresses, and the lemmas show that each operation does to that list what it should.
\<close>

section \<open>The heap\<close>

type_synonym addr = nat

abbreviation nullptr :: addr where
  "nullptr \<equiv> 0"

record list_heap =
  nx :: "addr \<Rightarrow> addr"
  pv :: "addr \<Rightarrow> addr"

definition fresh_heap :: list_heap where
  "fresh_heap = \<lparr>nx = (\<lambda>_. nullptr), pv = (\<lambda>_. nullptr)\<rparr>"

definition get_next :: "addr \<Rightarrow> list_heap \<Rightarrow> addr option" where
  "get_next p h = (if p = nullptr then None else Some (nx h p))"

definition get_prev :: "addr \<Rightarrow> list_heap \<Rightarrow> addr option" where
  "get_prev p h = (if p = nullptr then None else Some (pv h p))"

definition set_next :: "addr \<Rightarrow> addr \<Rightarrow> list_heap \<Rightarrow> list_heap option" where
  "set_next p q h = (if p = nullptr then None else Some (h\<lparr>nx := (nx h)(p := q)\<rparr>))"

definition set_prev :: "addr \<Rightarrow> addr \<Rightarrow> list_heap \<Rightarrow> list_heap option" where
  "set_prev p q h = (if p = nullptr then None else Some (h\<lparr>pv := (pv h)(p := q)\<rparr>))"

section \<open>The operations\<close>

text \<open>\<open>IntrusiveList()\<close>: the sentinel points to itself.\<close>

definition list_init :: "addr \<Rightarrow> list_heap \<Rightarrow> list_heap option" where
  "list_init s h = do {
     h \<leftarrow> set_prev s s h;
     set_next s s h }"

definition list_empty :: "addr \<Rightarrow> list_heap \<Rightarrow> bool option" where
  "list_empty s h = do { n \<leftarrow> get_next s h; Some (n = s) }"

definition list_begin :: "addr \<Rightarrow> list_heap \<Rightarrow> addr option" where
  "list_begin s h = get_next s h"

definition list_end :: "addr \<Rightarrow> addr" where
  "list_end s = s"

text \<open>
  An \<open>Iterator\<close> holds only \<open>current\<close>, the address of an item: copying and conversion copy the
  address, dereferencing gives the item at it, \<open>operator==\<close> compares addresses, and
  \<open>operator++\<close> and \<open>operator--\<close> follow one pointer.
\<close>

type_synonym iterator = addr

definition iter_incr :: "iterator \<Rightarrow> list_heap \<Rightarrow> iterator option" where
  "iter_incr it h = get_next it h"

definition iter_decr :: "iterator \<Rightarrow> list_heap \<Rightarrow> iterator option" where
  "iter_decr it h = get_prev it h"

definition list_erase :: "addr \<Rightarrow> addr \<Rightarrow> list_heap \<Rightarrow> (addr \<times> list_heap) option" where
  "list_erase s pos h = (if pos = list_end s then None else do {
     next_item \<leftarrow> iter_incr pos h;
     n \<leftarrow> get_next pos h;
     p \<leftarrow> get_prev pos h;
     h \<leftarrow> set_prev n p h;
     p \<leftarrow> get_prev pos h;
     n \<leftarrow> get_next pos h;
     h \<leftarrow> set_next p n h;
     Some (next_item, h) })"

definition list_front :: "addr \<Rightarrow> list_heap \<Rightarrow> addr option" where
  "list_front s h = do {
     e \<leftarrow> list_empty s h;
     if e then None else list_begin s h }"

definition list_back :: "addr \<Rightarrow> list_heap \<Rightarrow> addr option" where
  "list_back s h = do {
     e \<leftarrow> list_empty s h;
     if e then None else iter_decr (list_end s) h }"

definition push_front :: "addr \<Rightarrow> addr \<Rightarrow> list_heap \<Rightarrow> list_heap option" where
  "push_front s item h = (if item = nullptr then None else do {
     n \<leftarrow> get_next s h;
     h \<leftarrow> set_prev n item h;
     h \<leftarrow> set_prev item s h;
     n \<leftarrow> get_next s h;
     h \<leftarrow> set_next item n h;
     set_next s item h })"

definition push_back :: "addr \<Rightarrow> addr \<Rightarrow> list_heap \<Rightarrow> list_heap option" where
  "push_back s item h = (if item = nullptr then None else do {
     p \<leftarrow> get_prev s h;
     h \<leftarrow> set_next p item h;
     h \<leftarrow> set_next item s h;
     p \<leftarrow> get_prev s h;
     h \<leftarrow> set_prev item p h;
     set_prev s item h })"

definition pop_back :: "addr \<Rightarrow> list_heap \<Rightarrow> list_heap option" where
  "pop_back s h = do {
     e \<leftarrow> list_empty s h;
     if e then None else do {
       item_to_remove \<leftarrow> get_prev s h;
       p \<leftarrow> get_prev item_to_remove h;
       h \<leftarrow> set_prev s p h;
       p \<leftarrow> get_prev s h;
       set_next p s h } }"

definition pop_front :: "addr \<Rightarrow> list_heap \<Rightarrow> list_heap option" where
  "pop_front s h = do {
     e \<leftarrow> list_empty s h;
     if e then None else do {
       item_to_remove \<leftarrow> get_next s h;
       n \<leftarrow> get_next item_to_remove h;
       h \<leftarrow> set_next s n h;
       n \<leftarrow> get_next s h;
       set_prev n s h } }"

text \<open>\<open>insert\<close> returns the iterator it was given, not one to the new item.\<close>

definition list_insert :: "addr \<Rightarrow> addr \<Rightarrow> list_heap \<Rightarrow> (addr \<times> list_heap) option" where
  "list_insert item before h = do {
     p \<leftarrow> get_prev before h;
     h \<leftarrow> set_next p item h;
     p \<leftarrow> get_prev before h;
     h \<leftarrow> set_prev item p h;
     h \<leftarrow> set_next item before h;
     h \<leftarrow> set_prev before item h;
     Some (before, h) }"

text \<open>
  \<open>splice\<close> of a range: the loop moves one item per turn until \<open>it\<close> meets \<open>lst\<close>. A loop that
  never meets it is \<open>None\<close>.
\<close>

partial_function (option) splice_range ::
  "addr \<Rightarrow> addr \<Rightarrow> addr \<Rightarrow> addr \<Rightarrow> list_heap \<Rightarrow> list_heap option" where
  "splice_range before other it lst h =
     (if it = lst then Some h
      else Option.bind (list_erase other it h) (\<lambda>(it', h1).
        Option.bind (list_insert it before h1) (\<lambda>(before', h2).
          splice_range before' other it' lst h2)))"

definition splice_all :: "addr \<Rightarrow> addr \<Rightarrow> list_heap \<Rightarrow> list_heap option" where
  "splice_all before other h = do {
     first \<leftarrow> list_begin other h;
     splice_range before other first (list_end other) h }"

text \<open>
  The move constructor. The new sentinel's own two pointers keep their default member
  initialisers (\<open>nullptr\<close>) in the branch for a non-empty \<open>other\<close>.
\<close>

definition list_move :: "addr \<Rightarrow> addr \<Rightarrow> list_heap \<Rightarrow> list_heap option" where
  "list_move s other h = do {
     h \<leftarrow> set_prev s nullptr h;
     h \<leftarrow> set_next s nullptr h;
     e \<leftarrow> list_empty other h;
     if e then do {
       h \<leftarrow> set_prev s s h;
       set_next s s h }
     else do {
       n \<leftarrow> get_next other h;
       h \<leftarrow> set_prev n s h;
       p \<leftarrow> get_prev other h;
       h \<leftarrow> set_next p s h;
       h \<leftarrow> set_prev other other h;
       set_next other other h } }"

text \<open>
  The move assignment. There is no \<open>swap\<close> for lists, so \<open>swap(*this, tmp)\<close> is \<open>std::swap\<close>: it moves
  \<open>*this\<close> into an object of its own, assigns \<open>tmp\<close> to \<open>*this\<close> and that object to \<open>tmp\<close>, and both
  assignments are this operator again. \<open>frame\<close> is the first free address of the stack; \<open>tmp\<close> is there
  and the object of \<open>std::swap\<close> next to it. A call that does not return is \<open>None\<close>.
\<close>

partial_function (option) list_assign :: "addr \<Rightarrow> addr \<Rightarrow> addr \<Rightarrow> list_heap \<Rightarrow> list_heap option" where
  "list_assign frame this other h =
     (if this = other then Some h
      else Option.bind (list_move frame other h) (\<lambda>h1.
        Option.bind (list_move (frame + 1) this h1) (\<lambda>h2.
          Option.bind (list_assign (frame + 2) this frame h2) (\<lambda>h3.
            list_assign (frame + 2) frame (frame + 1) h3))))"

text \<open>Walking a list with its iterators, \<open>for (it = begin(); it != end(); ++it)\<close>.\<close>

partial_function (option) list_walk ::
  "addr \<Rightarrow> addr \<Rightarrow> list_heap \<Rightarrow> addr list option" where
  "list_walk s it h =
     (if it = s then Some []
      else Option.bind (iter_incr it h) (\<lambda>n.
        Option.bind (list_walk s n h) (\<lambda>xs. Some (it # xs))))"


section \<open>Rings\<close>

fun linked :: "list_heap \<Rightarrow> addr list \<Rightarrow> bool" where
  "linked h (a # b # xs) = (nx h a = b \<and> pv h b = a \<and> linked h (b # xs))"
| "linked h _ = True"

definition ring :: "list_heap \<Rightarrow> addr \<Rightarrow> addr list \<Rightarrow> bool" where
  "ring h s xs \<longleftrightarrow> nullptr \<notin> set (s # xs) \<and> distinct (s # xs) \<and> linked h (s # xs @ [s])"

lemmas heap_defs [heap_simps] = get_next_def get_prev_def set_next_def set_prev_def

lemmas list_op_defs [op_defs] =
  list_init_def list_empty_def list_begin_def list_end_def iter_incr_def iter_decr_def
  list_erase_def list_front_def list_back_def push_front_def push_back_def pop_back_def
  pop_front_def list_insert_def list_move_def

lemma linked_split: "linked h (xs @ a # ys) \<longleftrightarrow> linked h (xs @ [a]) \<and> linked h (a # ys)"
proof (induction xs)
  case Nil
  show ?case by simp
next
  case (Cons x xs)
  then show ?case by (cases xs) auto
qed

lemma linked_upd_nx [simp]:
  "a \<notin> set (butlast xs) \<Longrightarrow> linked (h\<lparr>nx := (nx h)(a := b)\<rparr>) xs = linked h xs"
  by (induction h xs rule: linked.induct) auto

lemma linked_upd_pv [simp]:
  "a \<notin> set (tl xs) \<Longrightarrow> linked (h\<lparr>pv := (pv h)(a := b)\<rparr>) xs = linked h xs"
  by (induction h xs rule: linked.induct) auto

lemma linked_cong:
  assumes "\<And>a. a \<in> set (butlast xs) \<Longrightarrow> nx h' a = nx h a"
    and "\<And>a. a \<in> set (tl xs) \<Longrightarrow> pv h' a = pv h a"
  shows "linked h' xs = linked h xs"
  using assms by (induction h xs rule: linked.induct) auto

text \<open>An operation that writes only the nodes of \<open>ns\<close> keeps every ring outside them.\<close>

lemma ring_cong:
  assumes "\<And>a. a \<notin> ns \<Longrightarrow> nx h' a = nx h a" "\<And>a. a \<notin> ns \<Longrightarrow> pv h' a = pv h a"
    and "set (t # ys) \<inter> ns = {}"
  shows "ring h' t ys = ring h t ys"
proof -
  have "linked h' (t # ys @ [t]) = linked h (t # ys @ [t])"
    using assms by (intro linked_cong) (auto simp: butlast_append)
  then show ?thesis by (simp add: ring_def)
qed

text \<open>The heap after an item is put between two neighbours, and after one is taken out.\<close>

definition link_between :: "addr \<Rightarrow> addr \<Rightarrow> addr \<Rightarrow> list_heap \<Rightarrow> list_heap" where
  "link_between a i b h =
     h\<lparr>nx := (nx h)(a := i, i := b), pv := (pv h)(i := a, b := i)\<rparr>"

definition unlink_between :: "addr \<Rightarrow> addr \<Rightarrow> list_heap \<Rightarrow> list_heap" where
  "unlink_between a b h = h\<lparr>nx := (nx h)(a := b), pv := (pv h)(b := a)\<rparr>"

lemma linked_link:
  assumes "linked h (us @ [a])" "linked h (b # vs)"
    and "a \<notin> set us" "a \<notin> set (butlast (b # vs))" "b \<notin> set vs" "b \<notin> set (tl (us @ [a]))"
    and "i \<notin> set (us @ [a])" "i \<notin> set (b # vs)"
  shows "linked (link_between a i b h) (us @ a # i # b # vs)"
proof -
  let ?h = "link_between a i b h"
  have "linked ?h (us @ [a]) = linked h (us @ [a])"
  proof (rule linked_cong)
    fix c
    show "nx ?h c = nx h c" if "c \<in> set (butlast (us @ [a]))"
      using that assms by (auto simp: link_between_def)
    show "pv ?h c = pv h c" if "c \<in> set (tl (us @ [a]))"
      using that assms in_set_tlD [OF that] by (auto simp: link_between_def)
  qed
  moreover have "linked ?h (b # vs) = linked h (b # vs)"
  proof (rule linked_cong)
    fix c
    show "nx ?h c = nx h c" if "c \<in> set (butlast (b # vs))"
      using that assms in_set_butlastD [OF that] by (auto simp: link_between_def)
    show "pv ?h c = pv h c" if "c \<in> set (tl (b # vs))"
      using that assms by (auto simp: link_between_def)
  qed
  moreover have "nx ?h a = i" "pv ?h i = a" "nx ?h i = b" "pv ?h b = i"
    using assms by (auto simp: link_between_def)
  ultimately show ?thesis
    using assms(1,2) by (simp add: linked_split [of _ us a "i # b # vs"])
qed

lemma linked_unlink:
  assumes "linked h (us @ [a])" "linked h (b # vs)"
    and "a \<notin> set us" "a \<notin> set (butlast (b # vs))" "b \<notin> set vs" "b \<notin> set (tl (us @ [a]))"
  shows "linked (unlink_between a b h) (us @ a # b # vs)"
proof -
  let ?h = "unlink_between a b h"
  have "linked ?h (us @ [a]) = linked h (us @ [a])"
    using assms(3,6) by (intro linked_cong) (auto simp: unlink_between_def simp del: tl_append2)
  moreover have "linked ?h (b # vs) = linked h (b # vs)"
    using assms(4,5) by (intro linked_cong) (auto simp: unlink_between_def)
  moreover have "nx ?h a = b" "pv ?h b = a"
    by (auto simp: unlink_between_def)
  ultimately show ?thesis
    using assms(1,2) by (simp add: linked_split [of _ us a "b # vs"])
qed

text \<open>
  The two facts about rings that all operations rest on. \<open>last (s # xs)\<close> and
  \<open>hd (ys @ [s])\<close> are the neighbours of the place between \<open>xs\<close> and \<open>ys\<close>.
\<close>

lemma ring_neighbours:
  assumes "ring h s (xs @ ys)"
  shows "nx h (last (s # xs)) = hd (ys @ [s])" "pv h (hd (ys @ [s])) = last (s # xs)"
proof -
  obtain us where us: "s # xs = us @ [last (s # xs)]"
    by (metis append_butlast_last_id list.distinct(1))
  obtain vs where vs: "ys @ [s] = hd (ys @ [s]) # vs"
    by (cases ys) auto
  have "(s # xs) @ (ys @ [s]) = us @ last (s # xs) # hd (ys @ [s]) # vs"
    using us vs by (metis append.assoc append_Cons append_Nil)
  then have "linked h (us @ last (s # xs) # hd (ys @ [s]) # vs)"
    using assms by (simp add: ring_def)
  then show "nx h (last (s # xs)) = hd (ys @ [s])" "pv h (hd (ys @ [s])) = last (s # xs)"
    by (simp_all add: linked_split [of _ us _ "hd (ys @ [s]) # vs"])
qed

lemma ring_parts:
  assumes "ring h s (xs @ ms @ ys)"
  obtains us a b vs where "s # xs = us @ [a]" "ys @ [s] = b # vs"
    "a = last (s # xs)" "b = hd (ys @ [s])"
    "linked h (us @ [a])" "linked h (b # vs)"
    "a \<notin> set us" "a \<notin> set (butlast (b # vs))" "b \<notin> set vs" "b \<notin> set (tl (us @ [a]))"
proof -
  obtain us where us: "s # xs = us @ [last (s # xs)]"
    by (metis append_butlast_last_id list.distinct(1))
  obtain vs where vs: "ys @ [s] = hd (ys @ [s]) # vs"
    by (cases ys) auto
  have l: "linked h ((s # xs) @ ms @ (ys @ [s]))" and d: "distinct (s # xs @ ms @ ys)"
    using assms by (simp_all add: ring_def)
  have "linked h (us @ last (s # xs) # ms @ ys @ [s])"
    using l us by (metis append.assoc append_Cons append_Nil)
  then have 1: "linked h (us @ [last (s # xs)])" using linked_split by blast
  have "linked h (((s # xs) @ ms) @ hd (ys @ [s]) # vs)"
    using l vs by (metis append.assoc)
  then have 2: "linked h (hd (ys @ [s]) # vs)" using linked_split by blast
  have "distinct (us @ [last (s # xs)])" using d us by (metis append_Cons distinct_append)
  then have 3: "last (s # xs) \<notin> set us" by simp
  have "butlast (hd (ys @ [s]) # vs) = ys" using vs by (metis butlast_snoc)
  moreover have "last (s # xs) \<in> set (s # xs)" by (rule last_in_set) simp
  ultimately have 4: "last (s # xs) \<notin> set (butlast (hd (ys @ [s]) # vs))" using d by auto
  have "distinct (ys @ [s])" using d by auto
  then have "distinct (hd (ys @ [s]) # vs)" using vs by metis
  then have 5: "hd (ys @ [s]) \<notin> set vs" by simp
  have "tl (us @ [last (s # xs)]) = xs" using us by (metis list.sel(3))
  then have 6: "hd (ys @ [s]) \<notin> set (tl (us @ [last (s # xs)]))"
    using d hd_append_singleton [of ys s] by auto
  show thesis by (rule that [OF us vs refl refl 1 2 3 4 5 6])
qed

lemma ring_link:
  assumes r: "ring h s (xs @ ys)" and i: "i \<notin> set (s # xs @ ys)" "i \<noteq> nullptr"
  shows "ring (link_between (last (s # xs)) i (hd (ys @ [s])) h) s (xs @ i # ys)"
proof -
  from r have "ring h s (xs @ [] @ ys)" by simp
  then obtain us a b vs where p: "s # xs = us @ [a]" "ys @ [s] = b # vs"
    "a = last (s # xs)" "b = hd (ys @ [s])"
    "linked h (us @ [a])" "linked h (b # vs)"
    "a \<notin> set us" "a \<notin> set (butlast (b # vs))" "b \<notin> set vs" "b \<notin> set (tl (us @ [a]))"
    by (rule ring_parts)
  have "set (us @ [a]) = set (s # xs)" "set (b # vs) = set (ys @ [s])"
    using p(1,2) by simp_all
  then have "i \<notin> set (us @ [a])" "i \<notin> set (b # vs)"
    using i(1) by auto
  with p(5-) have "linked (link_between a i b h) (us @ a # i # b # vs)"
    by (rule linked_link)
  moreover have "us @ a # i # b # vs = s # (xs @ i # ys) @ [s]"
    using p(1,2) by (metis append.assoc append_Cons append_Nil)
  ultimately show ?thesis
    using r i p(3,4) by (auto simp: ring_def)
qed

lemma ring_unlink:
  assumes r: "ring h s (xs @ i # ys)"
  shows "ring (unlink_between (last (s # xs)) (hd (ys @ [s])) h) s (xs @ ys)"
proof -
  from r have "ring h s (xs @ [i] @ ys)" by simp
  then obtain us a b vs where p: "s # xs = us @ [a]" "ys @ [s] = b # vs"
    "a = last (s # xs)" "b = hd (ys @ [s])"
    "linked h (us @ [a])" "linked h (b # vs)"
    "a \<notin> set us" "a \<notin> set (butlast (b # vs))" "b \<notin> set vs" "b \<notin> set (tl (us @ [a]))"
    by (rule ring_parts)
  from p(5-) have "linked (unlink_between a b h) (us @ a # b # vs)"
    by (rule linked_unlink)
  moreover have "us @ a # b # vs = s # (xs @ ys) @ [s]"
    using p(1,2) by (metis append.assoc append_Cons append_Nil)
  ultimately show ?thesis
    using r p(3,4) by (auto simp: ring_def)
qed

section \<open>What each operation does to the heap\<close>

lemma ring_nonnull: "ring h s xs \<Longrightarrow> a \<in> set (s # xs) \<Longrightarrow> a \<noteq> nullptr"
  by (metis ring_def)

lemma ring_ends:
  assumes "ring h s xs"
  shows "pv h s = last (s # xs)" "nx h s = hd (xs @ [s])"
  using ring_neighbours [of h s xs "[]"] ring_neighbours [of h s "[]" xs] assms by simp_all

lemma ends_mem: "last (s # xs) \<in> set (s # xs)" "hd (xs @ [s]) \<in> set (s # xs)"
  using last_in_set [of "s # xs"] hd_append_singleton [of xs s] by auto

lemma ends_nonnull:
  assumes "ring h s (xs @ ys)"
  shows "last (s # xs) \<noteq> nullptr" "hd (ys @ [s]) \<noteq> nullptr"
  using ring_nonnull [OF assms] ends_mem(1) [of s xs] ends_mem(2) [of ys s] by auto

lemma list_empty_ring: "ring h s xs \<Longrightarrow> list_empty s h = Some (xs = [])"
  using ring_ends(2) [of h s xs]
  by (cases xs) (auto simp: op_defs heap_simps ring_def)

lemma list_begin_ring: "ring h s xs \<Longrightarrow> list_begin s h = Some (hd (xs @ [s]))"
  by (auto simp: op_defs heap_simps ring_def ring_ends(2) [unfolded ring_def])

lemma list_init_ring: "s \<noteq> nullptr \<Longrightarrow> \<exists>h'. list_init s h = Some h' \<and> ring h' s []"
  by (simp add: op_defs heap_simps ring_def)

lemma list_erase_ring:
  assumes "ring h s (xs @ i # ys)"
  shows "list_erase s i h =
    Some (hd (ys @ [s]), unlink_between (last (s # xs)) (hd (ys @ [s])) h)"
proof -
  have n: "nx h i = hd (ys @ [s])"
    using ring_neighbours(1) [of h s "xs @ [i]" ys] assms by simp
  have p: "pv h i = last (s # xs)"
    using ring_neighbours(2) [of h s xs "i # ys"] assms by simp
  have "last (s # xs) \<noteq> nullptr" "hd (ys @ [s]) \<noteq> nullptr"
    using ends_nonnull(1) [OF assms] ends_nonnull(2) [of h s "xs @ [i]" ys] assms by simp_all
  moreover have "i \<noteq> nullptr" "i \<noteq> s"
    using assms by (auto simp: ring_def)
  moreover have "hd (ys @ [s]) \<noteq> i"
    using assms by (cases ys) (auto simp: ring_def)
  ultimately show ?thesis
    using n p by (simp add: op_defs heap_simps unlink_between_def)
qed

lemma list_insert_ring:
  assumes "ring h s (xs @ ys)" "i \<notin> set (s # xs @ ys)" "i \<noteq> nullptr"
  shows "list_insert i (hd (ys @ [s])) h =
    Some (hd (ys @ [s]), link_between (last (s # xs)) i (hd (ys @ [s])) h)"
proof -
  have "last (s # xs) \<noteq> i" "hd (ys @ [s]) \<noteq> i"
    using assms(2) ends_mem(1) [of s xs] ends_mem(2) [of ys s] by auto
  then show ?thesis
    using ends_nonnull [OF assms(1)] ring_neighbours [OF assms(1)] assms(3)
    by (simp add: op_defs heap_simps link_between_def fun_upd_twist)
qed

lemma push_front_ring:
  assumes "ring h s xs" "i \<notin> set (s # xs)" "i \<noteq> nullptr"
  shows "push_front s i h = Some (link_between s i (hd (xs @ [s])) h)"
proof -
  have "hd (xs @ [s]) \<noteq> i" "hd (xs @ [s]) \<noteq> nullptr"
    using assms(2) ends_mem(2) [of xs s] ends_nonnull(2) [of h s "[]" xs] assms(1) by auto
  then show ?thesis
    using ring_ends [OF assms(1)] ring_nonnull [OF assms(1), of s] assms(2,3)
    by (simp add: op_defs heap_simps link_between_def fun_upd_twist)
qed

lemma push_back_ring:
  assumes "ring h s xs" "i \<notin> set (s # xs)" "i \<noteq> nullptr"
  shows "push_back s i h = Some (link_between (last (s # xs)) i s h)"
proof -
  have "last (s # xs) \<noteq> i" "last (s # xs) \<noteq> nullptr"
    using assms(2) ends_mem(1) [of s xs] ends_nonnull(1) [of h s xs "[]"] assms(1) by auto
  then show ?thesis
    using ring_ends [OF assms(1)] ring_nonnull [OF assms(1), of s] assms(2,3)
    by (simp add: op_defs heap_simps link_between_def fun_upd_twist)
qed

lemma pop_front_ring:
  assumes "ring h s (i # ys)"
  shows "pop_front s h = Some (unlink_between s (hd (ys @ [s])) h)"
proof -
  have "nx h s = i" using ring_ends(2) [OF assms] by simp
  moreover have "nx h i = hd (ys @ [s])"
    using ring_neighbours(1) [of h s "[i]" ys] assms by simp
  moreover have "hd (ys @ [s]) \<noteq> nullptr"
    using ends_nonnull(2) [of h s "[i]" ys] assms by simp
  moreover have "i \<noteq> nullptr" "i \<noteq> s" "s \<noteq> nullptr" using assms by (auto simp: ring_def)
  ultimately show ?thesis
    by (simp add: op_defs heap_simps unlink_between_def)
qed

lemma pop_back_ring:
  assumes "ring h s (xs @ [i])"
  shows "pop_back s h = Some (unlink_between (last (s # xs)) s h)"
proof -
  have "pv h s = i" using ring_ends(1) [OF assms] by simp
  moreover have "pv h i = last (s # xs)"
    using ring_neighbours(2) [of h s xs "[i]"] assms by simp
  moreover have "last (s # xs) \<noteq> nullptr"
    using ends_nonnull(1) [of h s xs "[i]"] assms by simp
  moreover have "i \<noteq> nullptr" "i \<noteq> s" "s \<noteq> nullptr" using assms by (auto simp: ring_def)
  moreover have "nx h s \<noteq> s"
    using list_empty_ring [OF assms] calculation by (auto simp: op_defs heap_simps)
  ultimately show ?thesis
    by (simp add: op_defs heap_simps unlink_between_def)
qed

section \<open>The list as a specification\<close>

text \<open>
  What a client may do to one list, as an operation on the list of item addresses; \<open>None\<close>
  where the interface forbids the call (an item already in the list, popping an empty one).
\<close>

datatype list_op =
    PushFront addr
  | PushBack addr
  | PopFront
  | PopBack
  | Erase addr
  | InsertBefore addr addr

definition item_ok :: "addr \<Rightarrow> addr list \<Rightarrow> addr \<Rightarrow> bool" where
  "item_ok s xs i \<longleftrightarrow> i \<noteq> nullptr \<and> i \<noteq> s \<and> i \<notin> set xs"

fun spec_step :: "addr \<Rightarrow> list_op \<Rightarrow> addr list \<Rightarrow> addr list option" where
  "spec_step s (PushFront i) xs = (if item_ok s xs i then Some (i # xs) else None)"
| "spec_step s (PushBack i) xs = (if item_ok s xs i then Some (xs @ [i]) else None)"
| "spec_step s PopFront xs = (if xs = [] then None else Some (tl xs))"
| "spec_step s PopBack xs = (if xs = [] then None else Some (butlast xs))"
| "spec_step s (Erase i) xs = (if i \<in> set xs then Some (remove1 i xs) else None)"
| "spec_step s (InsertBefore i b) xs =
     (if item_ok s xs i \<and> b \<in> set (s # xs)
      then Some (takeWhile (\<lambda>c. c \<noteq> b) xs @ i # dropWhile (\<lambda>c. c \<noteq> b) xs) else None)"

fun list_step :: "addr \<Rightarrow> list_op \<Rightarrow> list_heap \<Rightarrow> list_heap option" where
  "list_step s (PushFront i) h = push_front s i h"
| "list_step s (PushBack i) h = push_back s i h"
| "list_step s PopFront h = pop_front s h"
| "list_step s PopBack h = pop_back s h"
| "list_step s (Erase i) h = map_option snd (list_erase s i h)"
| "list_step s (InsertBefore i b) h = map_option snd (list_insert i b h)"

lemma ring_push_front:
  "ring h s xs \<Longrightarrow> item_ok s xs i \<Longrightarrow> \<exists>h'. push_front s i h = Some h' \<and> ring h' s (i # xs)"
  using push_front_ring [of h s xs i] ring_link [of h s "[]" xs i] by (auto simp: item_ok_def)

lemma ring_push_back:
  "ring h s xs \<Longrightarrow> item_ok s xs i \<Longrightarrow> \<exists>h'. push_back s i h = Some h' \<and> ring h' s (xs @ [i])"
  using push_back_ring [of h s xs i] ring_link [of h s xs "[]" i] by (auto simp: item_ok_def)

lemma ring_pop_front:
  "ring h s (i # xs) \<Longrightarrow> \<exists>h'. pop_front s h = Some h' \<and> ring h' s xs"
  using pop_front_ring [of h s i xs] ring_unlink [of h s "[]" i xs] by auto

lemma ring_pop_back:
  "ring h s (xs @ [i]) \<Longrightarrow> \<exists>h'. pop_back s h = Some h' \<and> ring h' s xs"
  using pop_back_ring [of h s xs i] ring_unlink [of h s xs i "[]"] by auto

lemma ring_erase:
  "ring h s (xs @ i # ys) \<Longrightarrow> \<exists>h'. list_erase s i h = Some (hd (ys @ [s]), h') \<and> ring h' s (xs @ ys)"
  using list_erase_ring [of h s xs i ys] ring_unlink [of h s xs i ys] by auto

lemma ring_insert:
  "ring h s (xs @ ys) \<Longrightarrow> item_ok s (xs @ ys) i \<Longrightarrow>
   \<exists>h'. list_insert i (hd (ys @ [s])) h = Some (hd (ys @ [s]), h') \<and> ring h' s (xs @ i # ys)"
  using list_insert_ring [of h s xs ys i] ring_link [of h s xs ys i] by (auto simp: item_ok_def)

lemma split_at_member:
  "b \<in> set (s # xs) \<Longrightarrow> s \<notin> set xs \<Longrightarrow> hd (dropWhile (\<lambda>c. c \<noteq> b) xs @ [s]) = b"
  by (induction xs) auto

lemma remove1_split: "i \<in> set xs \<Longrightarrow> distinct xs \<Longrightarrow>
  \<exists>as bs. xs = as @ i # bs \<and> remove1 i xs = as @ bs"
  by (metis remove1_append remove1_split split_list_first distinct_remove1 remove1.simps(2))

lemma list_step_simulates:
  assumes r: "ring h s xs" and a: "spec_step s x xs = Some xs'"
  shows "\<exists>h'. list_step s x h = Some h' \<and> ring h' s xs'"
proof (cases x)
  case (PushFront i)
  with assms ring_push_front [OF r, of i] show ?thesis by (auto split: if_splits)
next
  case (PushBack i)
  with assms ring_push_back [OF r, of i] show ?thesis by (auto split: if_splits)
next
  case PopFront
  with assms obtain i ys where "xs = i # ys" by (cases xs) auto
  with PopFront r a ring_pop_front [of h s i ys] show ?thesis by auto
next
  case PopBack
  with assms obtain ys i where "xs = ys @ [i]" by (cases xs rule: rev_cases) auto
  with PopBack r a ring_pop_back [of h s ys i] show ?thesis by auto
next
  case (Erase i)
  with a have i: "i \<in> set xs" and xs': "xs' = remove1 i xs" by (auto split: if_splits)
  have "distinct xs" using r by (simp add: ring_def)
  with i obtain as bs where "xs = as @ i # bs" "remove1 i xs = as @ bs"
    using remove1_split by metis
  with Erase r xs' ring_erase [of h s as i bs] show ?thesis by auto
next
  case (InsertBefore i b)
  let ?as = "takeWhile (\<lambda>c. c \<noteq> b) xs" and ?bs = "dropWhile (\<lambda>c. c \<noteq> b) xs"
  from InsertBefore a have c: "item_ok s (?as @ ?bs) i" "b \<in> set (s # xs)" "xs' = ?as @ i # ?bs"
    by (auto split: if_splits)
  have "s \<notin> set xs" using r by (simp add: ring_def)
  with c(2) have "hd (?bs @ [s]) = b" by (rule split_at_member)
  moreover have "ring h s (?as @ ?bs)" using r by simp
  ultimately show ?thesis
    using InsertBefore c ring_insert [of h s ?as ?bs i] by auto
qed

interpretation one_list: forward_simulation "list_step s" "spec_step s" "\<lambda>h xs. ring h s xs"
  by unfold_locales (rule list_step_simulates)

section \<open>Several lists in one heap\<close>

definition heap_agree :: "addr set \<Rightarrow> list_heap \<Rightarrow> list_heap \<Rightarrow> bool" where
  "heap_agree ns h h' \<longleftrightarrow> (\<forall>a. a \<notin> ns \<longrightarrow> nx h' a = nx h a \<and> pv h' a = pv h a)"

lemma heap_agree_refl [simp]: "heap_agree ns h h"
  by (simp add: heap_agree_def)

lemma heap_agree_trans:
  "heap_agree ns h h1 \<Longrightarrow> heap_agree ms h1 h2 \<Longrightarrow> ns \<union> ms \<subseteq> ks \<Longrightarrow> heap_agree ks h h2"
  unfolding heap_agree_def by (metis Un_subset_iff subsetD)

lemma heap_agree_mono: "heap_agree ns h h' \<Longrightarrow> ns \<subseteq> ms \<Longrightarrow> heap_agree ms h h'"
  by (auto simp: heap_agree_def)

lemma heap_agree_link: "heap_agree {a, i, b} h (link_between a i b h)"
  by (simp add: heap_agree_def link_between_def)

lemma heap_agree_unlink: "heap_agree {a, b} h (unlink_between a b h)"
  by (simp add: heap_agree_def unlink_between_def)

lemma ring_agree:
  "heap_agree ns h h' \<Longrightarrow> set (t # ys) \<inter> ns = {} \<Longrightarrow> ring h t ys \<Longrightarrow> ring h' t ys"
  using ring_cong [of ns h' h t ys] by (auto simp: heap_agree_def)

lemma push_back_frame:
  assumes "ring h s xs" "item_ok s xs i" "push_back s i h = Some h'"
  shows "heap_agree (insert i (set (s # xs))) h h'"
  using push_back_ring [of h s xs i] assms ends_mem(1) [of s xs]
    heap_agree_mono [OF heap_agree_link [of "last (s # xs)" i s h], of "insert i (set (s # xs))"]
  by (auto simp: item_ok_def)

lemma list_erase_frame:
  assumes "ring h s (xs @ i # ys)" "list_erase s i h = Some (n, h')"
  shows "heap_agree (set (s # xs @ ys)) h h'"
proof -
  have "{last (s # xs), hd (ys @ [s])} \<subseteq> set (s # xs @ ys)"
    using ends_mem(1) [of s xs] ends_mem(2) [of ys s] by auto
  with heap_agree_unlink have "heap_agree (set (s # xs @ ys)) h
      (unlink_between (last (s # xs)) (hd (ys @ [s])) h)"
    by (rule heap_agree_mono)
  then show ?thesis using list_erase_ring [OF assms(1)] assms(2) by simp
qed

lemma list_insert_frame:
  assumes "ring h s (xs @ ys)" "item_ok s (xs @ ys) i"
    and "list_insert i (hd (ys @ [s])) h = Some (n, h')"
  shows "heap_agree (insert i (set (s # xs @ ys))) h h'"
proof -
  have "{last (s # xs), i, hd (ys @ [s])} \<subseteq> insert i (set (s # xs @ ys))"
    using ends_mem(1) [of s xs] ends_mem(2) [of ys s] by auto
  with heap_agree_link have "heap_agree (insert i (set (s # xs @ ys))) h
      (link_between (last (s # xs)) i (hd (ys @ [s])) h)"
    by (rule heap_agree_mono)
  then show ?thesis
    using list_insert_ring [of h s xs ys i] assms by (auto simp: item_ok_def)
qed

text \<open>
  One turn of the splice loop: the item at the front of the range leaves \<open>other\<close> and joins the
  target in front of \<open>before\<close>; the two lists stay rings and share no node.
\<close>

lemma splice_turn:
  assumes s: "ring h s (xs @ ys)" and t: "ring h t (as @ m # bs)"
    and d: "set (s # xs @ ys) \<inter> set (t # as @ m # bs) = {}"
  shows "\<exists>h1 h2. list_erase t m h = Some (hd (bs @ [t]), h1) \<and>
    list_insert m (hd (ys @ [s])) h1 = Some (hd (ys @ [s]), h2) \<and>
    ring h2 s (xs @ m # ys) \<and> ring h2 t (as @ bs) \<and>
    heap_agree (set (s # xs @ ys) \<union> set (t # as @ m # bs)) h h2"
proof -
  from ring_erase [OF t] obtain h1 where
    e: "list_erase t m h = Some (hd (bs @ [t]), h1)" and t1: "ring h1 t (as @ bs)"
    by blast
  have f1: "heap_agree (set (t # as @ bs)) h h1"
    by (rule list_erase_frame [OF t e])
  have s1: "ring h1 s (xs @ ys)"
    using d by (intro ring_agree [OF f1 _ s]) auto
  have m: "item_ok s (xs @ ys) m"
    using d ring_nonnull [OF t, of m] by (auto simp: item_ok_def)
  from ring_insert [OF s1 m] obtain h2 where
    i: "list_insert m (hd (ys @ [s])) h1 = Some (hd (ys @ [s]), h2)"
    and s2: "ring h2 s (xs @ m # ys)"
    by blast
  have f2: "heap_agree (insert m (set (s # xs @ ys))) h1 h2"
    by (rule list_insert_frame [OF s1 m i])
  have "m \<notin> set (t # as @ bs)" using t by (auto simp: ring_def)
  then have t2: "ring h2 t (as @ bs)"
    using d by (intro ring_agree [OF f2 _ t1]) auto
  have "heap_agree (set (s # xs @ ys) \<union> set (t # as @ m # bs)) h h2"
    using f1 f2 by (rule heap_agree_trans) auto
  with e i s2 t2 show ?thesis by blast
qed

lemma splice_range_rings:
  assumes "ring h s (xs @ ys)" "ring h t (as @ ms @ bs)"
    and "set (s # xs @ ys) \<inter> set (t # as @ ms @ bs) = {}"
  shows "\<exists>h'. splice_range (hd (ys @ [s])) t (hd (ms @ bs @ [t])) (hd (bs @ [t])) h = Some h' \<and>
    ring h' s (xs @ ms @ ys) \<and> ring h' t (as @ bs) \<and>
    heap_agree (set (s # xs @ ys) \<union> set (t # as @ ms @ bs)) h h'"
  using assms
proof (induction ms arbitrary: xs h)
  case Nil
  then show ?case by (auto simp: splice_range.simps)
next
  case (Cons m ms)
  have "m \<noteq> hd (bs @ [t])"
    using Cons.prems(2) hd_append_singleton [of bs t] by (auto simp: ring_def)
  moreover obtain h1 h2 where turn: "list_erase t m h = Some (hd ((ms @ bs) @ [t]), h1)"
    "list_insert m (hd (ys @ [s])) h1 = Some (hd (ys @ [s]), h2)"
    and r: "ring h2 s ((xs @ [m]) @ ys)" "ring h2 t (as @ ms @ bs)"
    and f: "heap_agree (set (s # xs @ ys) \<union> set (t # as @ (m # ms) @ bs)) h h2"
    using splice_turn [of h s xs ys t as m "ms @ bs"] Cons.prems by auto
  moreover have "set (s # (xs @ [m]) @ ys) \<inter> set (t # as @ ms @ bs) = {}"
    using Cons.prems by (auto simp: ring_def)
  then obtain h' where "splice_range (hd (ys @ [s])) t (hd (ms @ bs @ [t])) (hd (bs @ [t])) h2 = Some h'"
    "ring h' s ((xs @ [m]) @ ms @ ys)" "ring h' t (as @ bs)"
    and f': "heap_agree (set (s # (xs @ [m]) @ ys) \<union> set (t # as @ ms @ bs)) h2 h'"
    using Cons.IH [OF r] by blast
  moreover have "heap_agree (set (s # xs @ ys) \<union> set (t # as @ (m # ms) @ bs)) h h'"
    using f f' by (rule heap_agree_trans) auto
  ultimately show ?case by (auto simp: splice_range.simps [of _ t m])
qed

lemma list_walk_ring:
  assumes "ring h s (xs @ ys)"
  shows "list_walk s (hd (ys @ [s])) h = Some ys"
  using assms
proof (induction ys arbitrary: xs)
  case Nil
  then show ?case by (simp add: list_walk.simps)
next
  case (Cons y ys)
  have "y \<noteq> s" "y \<noteq> nullptr" using Cons.prems by (auto simp: ring_def)
  moreover have "nx h y = hd (ys @ [s])"
    using ring_neighbours(1) [of h s "xs @ [y]" ys] Cons.prems by simp
  moreover have "list_walk s (hd (ys @ [s])) h = Some ys"
    using Cons.IH [of "xs @ [y]"] Cons.prems by simp
  ultimately show ?case
    by (simp add: list_walk.simps [of s y] iter_incr_def heap_simps)
qed

section \<open>The interface of a queue of items\<close>

text \<open>
  What the pool and the encoder service rely on: a queue in which items leave in the order
  they came. \<open>ok\<close> says which items may be added to a queue that holds \<open>xs\<close>.
\<close>

locale item_queue =
  fixes rep :: "'h \<Rightarrow> 'q \<Rightarrow> 'i list \<Rightarrow> bool"
    and ok :: "'q \<Rightarrow> 'i list \<Rightarrow> 'i \<Rightarrow> bool"
    and enq :: "'q \<Rightarrow> 'i \<Rightarrow> 'h \<Rightarrow> 'h option"
    and first :: "'q \<Rightarrow> 'h \<Rightarrow> 'i option"
    and deq :: "'q \<Rightarrow> 'h \<Rightarrow> 'h option"
  assumes enq: "rep h q xs \<Longrightarrow> ok q xs i \<Longrightarrow> \<exists>h'. enq q i h = Some h' \<and> rep h' q (xs @ [i])"
    and first: "rep h q (i # xs) \<Longrightarrow> first q h = Some i"
    and deq: "rep h q (i # xs) \<Longrightarrow> \<exists>h'. deq q h = Some h' \<and> rep h' q xs"
    and ok_snoc: "ok q xs i \<Longrightarrow> i \<noteq> j \<Longrightarrow> ok q (xs @ [j]) i"
begin

lemma enq_all:
  "rep h q xs \<Longrightarrow> distinct is \<Longrightarrow> (\<And>i. i \<in> set is \<Longrightarrow> ok q xs i) \<Longrightarrow>
   \<exists>h'. run_steps (enq q) is h = Some h' \<and> rep h' q (xs @ is)"
proof (induction "is" arbitrary: h xs)
  case Nil
  then show ?case by simp
next
  case (Cons i "is")
  from enq [OF Cons.prems(1), of i] Cons.prems(3) obtain h1 where
    h1: "enq q i h = Some h1" "rep h1 q (xs @ [i])" by auto
  have "ok q (xs @ [i]) j" if "j \<in> set is" for j
    using that Cons.prems(2,3) by (intro ok_snoc) auto
  from Cons.IH [OF h1(2) _ this] Cons.prems(2) h1 show ?case by auto
qed

text \<open>After any sequence of additions, the items come out first in, first out.\<close>

lemma deq_some:
  "rep h q (is @ xs) \<Longrightarrow> \<exists>h'. run_steps (\<lambda>_. deq q) is h = Some h' \<and> rep h' q xs"
proof (induction "is" arbitrary: h)
  case Nil
  then show ?case by simp
next
  case (Cons i "is")
  from Cons.prems have "rep h q (i # (is @ xs))" by simp
  from deq [OF this] obtain h1 where "deq q h = Some h1" "rep h1 q (is @ xs)" by blast
  with Cons.IH show ?case by auto
qed

lemma fifo:
  assumes "rep h q xs" "distinct (i # is)" "\<And>j. j \<in> set (i # is) \<Longrightarrow> ok q xs j"
  shows "\<exists>h1 h2. run_steps (enq q) (i # is) h = Some h1 \<and>
    run_steps (\<lambda>_. deq q) xs h1 = Some h2 \<and> first q h2 = Some i \<and> rep h2 q (i # is)"
proof -
  from enq_all [OF assms] obtain h1 where
    "run_steps (enq q) (i # is) h = Some h1" "rep h1 q (xs @ i # is)" by blast
  moreover from deq_some [OF this(2)] obtain h2 where
    "run_steps (\<lambda>_. deq q) xs h1 = Some h2" "rep h2 q (i # is)" by blast
  ultimately show ?thesis using first by blast
qed

end

lemma list_front_ring: "ring h s (i # xs) \<Longrightarrow> list_front s h = Some i"
  using list_empty_ring [of h s "i # xs"] list_begin_ring [of h s "i # xs"]
  by (simp add: list_front_def)

lemma list_back_ring: "ring h s (xs @ [i]) \<Longrightarrow> list_back s h = Some i"
  using list_empty_ring [of h s "xs @ [i]"] ring_ends(1) [of h s "xs @ [i]"]
    ring_nonnull [of h s "xs @ [i]" s]
  by (simp add: list_back_def iter_decr_def list_end_def heap_simps)

interpretation iq: item_queue ring item_ok push_back list_front pop_front
proof unfold_locales
  fix h s xs i
  show "ring h s xs \<Longrightarrow> item_ok s xs i \<Longrightarrow> \<exists>h'. push_back s i h = Some h' \<and> ring h' s (xs @ [i])"
    by (rule ring_push_back)
  show "ring h s (i # xs) \<Longrightarrow> list_front s h = Some i" by (rule list_front_ring)
  show "ring h s (i # xs) \<Longrightarrow> \<exists>h'. pop_front s h = Some h' \<and> ring h' s xs" by (rule ring_pop_front)
  show "item_ok s xs i \<Longrightarrow> i \<noteq> j \<Longrightarrow> item_ok s (xs @ [j]) i" for j by (auto simp: item_ok_def)
qed

text \<open>A heap with two lists, the one of sentinel 1 with two items and the one of 9 empty.\<close>

definition demo_heap :: list_heap where
  "demo_heap = \<lparr>nx = (\<lambda>_. nullptr)(1 := 2, 2 := 3, 3 := 1, 9 := 9),
                pv = (\<lambda>_. nullptr)(1 := 3, 2 := 1, 3 := 2, 9 := 9)\<rparr>"

lemma demo_rings: "ring demo_heap 1 [2, 3]" "ring demo_heap 9 []"
  by (simp_all add: ring_def demo_heap_def)

section \<open>The move assignment\<close>

text \<open>The first assignment that \<open>std::swap\<close> makes is again one between two different lists.\<close>

lemma list_assign_returns:
  assumes "list_assign frame this other h = Some h'"
  shows "this < frame \<longrightarrow> this = other \<and> h' = h"
proof (rule list_assign.raw_induct [OF _ assms])
  fix la :: "addr \<Rightarrow> addr \<Rightarrow> addr \<Rightarrow> list_heap \<Rightarrow> list_heap option" and frame this other h h'
  assume IH: "\<And>frame this other h h'. la frame this other h = Some h' \<Longrightarrow> this < frame \<longrightarrow> this = other \<and> h' = h"
    and run: "(if this = other then Some h
      else Option.bind (list_move frame other h) (\<lambda>h1.
        Option.bind (list_move (frame + 1) this h1) (\<lambda>h2.
          Option.bind (la (frame + 2) this frame h2) (\<lambda>h3. la (frame + 2) frame (frame + 1) h3)))) = Some h'"
  show "this < frame \<longrightarrow> this = other \<and> h' = h"
  proof (cases "this = other")
    case False
    with run obtain h2 h3 where "la (frame + 2) this frame h2 = Some h3"
      by (auto simp: bind_eq_Some_conv)
    from IH [OF this] show ?thesis by auto
  qed (use run in simp)
qed

section \<open>Properties\<close>

text \<open>
  (C10) Refinement. Any sequence of insertions, removals and pushes that the interface allows on
  a list of items runs on the pointer heap without touching a null pointer or failing an
  assertion, and walking the resulting ring with its iterators gives exactly the list that the
  specification computes.
\<close>

theorem list_ops_refine_list_spec:
  assumes "ring h s xs" "run_steps (spec_step s) ops xs = Some xs'"
  shows "\<exists>h' b. run_steps (list_step s) ops h = Some h' \<and> ring h' s xs' \<and>
    list_begin s h' = Some b \<and> list_walk s b h' = Some xs'"
proof -
  from one_list.sim_run [OF assms] obtain h' where
    h': "run_steps (list_step s) ops h = Some h'" "ring h' s xs'" by blast
  then show ?thesis
    using list_begin_ring [OF h'(2)] list_walk_ring [of h' s "[]" xs'] by auto
qed

theorem list_ops_refine_list_spec_witness:
  "\<exists>h' b. run_steps (list_step 1) [PushFront 5, InsertBefore 7 3, Erase 2, PopBack] demo_heap = Some h' \<and>
    ring h' 1 [5, 7] \<and> list_begin 1 h' = Some b \<and> list_walk 1 b h' = Some [5, 7]"
proof -
  have "run_steps (spec_step 1) [PushFront 5, InsertBefore 7 3, Erase 2, PopBack] [2, 3] = Some [5, 7]"
    by (simp add: item_ok_def)
  from list_ops_refine_list_spec [OF demo_rings(1) this] show ?thesis .
qed

text \<open>
  \<open>splice\<close> of a range moves exactly the items of the range, in order, from the other list
  to the place before the given iterator, always terminates, and writes no node outside the two
  lists.
\<close>

lemma splice_moves_range:
  assumes "ring h s (xs @ ys)" "ring h t (as @ ms @ bs)"
    and "set (s # xs @ ys) \<inter> set (t # as @ ms @ bs) = {}"
  shows "\<exists>h'. splice_range (hd (ys @ [s])) t (hd (ms @ bs @ [t])) (hd (bs @ [t])) h = Some h' \<and>
    ring h' s (xs @ ms @ ys) \<and> ring h' t (as @ bs) \<and>
    (\<forall>u us. ring h u us \<and> set (u # us) \<inter> (set (s # xs @ ys) \<union> set (t # as @ ms @ bs)) = {}
       \<longrightarrow> ring h' u us)"
  using splice_range_rings [OF assms] ring_agree by blast

lemma splice_moves_range_example:
  "\<exists>h'. splice_range 9 1 2 1 demo_heap = Some h' \<and> ring h' 9 [2, 3] \<and> ring h' 1 []"
  using splice_moves_range [of demo_heap 9 "[]" "[]" 1 "[]" "[2, 3]" "[]"] demo_rings by auto

text \<open>
  (C37) The move constructor leaves a list that was not empty unusable: the new list's own
  sentinel keeps its null pointers, so the new list reports that it is not empty, its first
  iterator is null, it is no ring over any items, and the next \<open>push_back\<close> dereferences null.
\<close>

theorem move_of_nonempty_list_is_broken:
  assumes r: "ring h t (i # ys)" and s: "s \<notin> set (t # i # ys)" "s \<noteq> nullptr"
  shows "\<exists>h'. list_move s t h = Some h' \<and> ring h' t [] \<and>
    list_empty s h' = Some False \<and> list_begin s h' = Some nullptr \<and>
    push_back s j h' = None \<and> (\<forall>zs. \<not> ring h' s zs)"
proof -
  let ?l = "last (t # i # ys)"
  have n: "nx h t = i" "pv h t = ?l" using ring_ends [OF r] by simp_all
  have mem: "?l \<in> set (i # ys)" by simp
  have nz: "t \<noteq> nullptr" "i \<noteq> nullptr" "?l \<noteq> nullptr"
    using ring_nonnull [OF r, of t] ring_nonnull [OF r, of i] ring_nonnull [OF r, of ?l] mem
    by (simp_all del: last.simps)
  have ne: "i \<noteq> t" "?l \<noteq> t" "?l \<noteq> s"
    using r s mem by (auto simp: ring_def simp del: last.simps)
  define h' where "h' = h\<lparr>nx := (nx h)(s := nullptr, ?l := s, t := t),
                          pv := (pv h)(s := nullptr, i := s, t := t)\<rparr>"
  have m: "list_move s t h = Some h'"
    using n nz ne s by (simp add: op_defs heap_simps h'_def del: last.simps)
  have z: "nx h' s = nullptr" "pv h' s = nullptr"
    using nz ne s by (auto simp: h'_def)
  have "\<not> ring h' s zs" for zs
    using ring_ends(2) [of h' s zs] ends_nonnull(2) [of h' s "[]" zs] z by auto
  moreover have "ring h' t []"
    using nz ne s by (simp add: ring_def h'_def)
  ultimately show ?thesis
    using m z s by (simp add: op_defs heap_simps)
qed

theorem move_of_nonempty_list_is_broken_witness:
  "\<exists>h'. list_move 4 1 demo_heap = Some h' \<and> ring h' 1 [] \<and> list_begin 4 h' = Some nullptr \<and>
    push_back 4 8 h' = None"
  using move_of_nonempty_list_is_broken [OF demo_rings(1), of 4 8] by auto

text \<open>
  (C36) The move assignment between two lists never returns: it swaps by \<open>std::swap\<close>, which assigns by
  the operator that called it, until the stack is used up or a broken list is read. Only the
  assignment of a list to itself returns, and it does nothing.
\<close>

theorem list_assignment_returns_only_to_itself:
  assumes "this < frame"
  shows "list_assign frame this other h = (if this = other then Some h else None)"
proof (cases "list_assign frame this other h")
  case None
  then have "this \<noteq> other" by (auto simp: list_assign.simps)
  with None show ?thesis by simp
next
  case (Some h')
  with list_assign_returns [OF Some] assms show ?thesis by simp
qed

theorem list_assignment_returns_only_to_itself_witness:
  "list_assign 20 1 9 demo_heap = None \<and> list_assign 20 1 1 demo_heap = Some demo_heap"
  using list_assignment_returns_only_to_itself [of 1 20] by simp

text \<open>
  Items pushed to the back of a list leave at the front in the order they were pushed,
  behind the items that were there before.
\<close>

lemma list_is_fifo:
  assumes "ring h s xs" "distinct (i # is)" "\<And>j. j \<in> set (i # is) \<Longrightarrow> item_ok s xs j"
  shows "\<exists>h1 h2. run_steps (push_back s) (i # is) h = Some h1 \<and>
    run_steps (\<lambda>_. pop_front s) xs h1 = Some h2 \<and> list_front s h2 = Some i \<and> ring h2 s (i # is)"
  using assms by (rule iq.fifo)

lemma list_is_fifo_example:
  "\<exists>h1 h2. run_steps (push_back 1) [5, 6] demo_heap = Some h1 \<and>
    run_steps (\<lambda>_. pop_front 1) [2, 3 :: nat] h1 = Some h2 \<and> list_front 1 h2 = Some 5 \<and> ring h2 1 [5, 6]"
proof -
  have "item_ok 1 [2, 3] j" if "j \<in> set [5, 6]" for j
    using that by (auto simp: item_ok_def)
  moreover have "distinct [5, 6 :: nat]" by simp
  ultimately show ?thesis using list_is_fifo [OF demo_rings(1), of 5 "[6]"] by blast
qed
end
