(* ===== verification/Errors.thy ===== *)
theory Errors
  imports Prelude
begin

text \<open>
  The exceptions of the program (\<open>src/error.hpp\<close>, \<open>src/error.cpp\<close>) and the library
  exceptions its code raises. \<open>RuntimeErrorPtr\<close> is an exception object thrown by pointer
  (\<open>throw new std::runtime_error\<close>), which a handler for \<open>std::exception const&\<close> does not
  catch. \<open>av_error_to_string\<close> depends on libav's table of messages, which is a parameter.
\<close>

datatype cmd_line_error_type = show_help | show_version | error_type

datatype exn =
    ModuleError string
  | CodecError string
  | FormatError string
  | IOError string
  | CmdLineError cmd_line_error_type string
  | RuntimeError string
  | LogicError string
  | SystemError int
  | BadAlloc
  | NvFBCError string
  | NvCudaError string
  | RuntimeErrorPtr string

text \<open>Values of \<open>errno\<close>.\<close>

definition EINTR :: int where "EINTR = 4"
definition EAGAIN :: int where "EAGAIN = 11"

text \<open>The types that derive from \<open>std::exception\<close>: all but the pointer.\<close>

fun is_std_exception :: "exn \<Rightarrow> bool" where
  "is_std_exception (RuntimeErrorPtr _) = False"
| "is_std_exception _ = True"

text \<open>\<open>e.what()\<close>: the message the exception was built with.\<close>

fun what :: "(int \<Rightarrow> string) \<Rightarrow> exn \<Rightarrow> string" where
  "what strerror (ModuleError m) = m"
| "what strerror (CodecError m) = m"
| "what strerror (FormatError m) = m"
| "what strerror (IOError m) = m"
| "what strerror (CmdLineError t m) = m"
| "what strerror (RuntimeError m) = m"
| "what strerror (LogicError m) = m"
| "what strerror (SystemError e) = strerror e"
| "what strerror BadAlloc = ''std::bad_alloc''"
| "what strerror (NvFBCError m) = m"
| "what strerror (NvCudaError m) = m"
| "what strerror (RuntimeErrorPtr m) = m"

text \<open>
  \<open>av_error_to_string\<close>: the buffer of \<open>AV_ERROR_MAX_STRING_SIZE\<close> (64) bytes is filled by
  \<open>av_strerror\<close> (a parameter: the message, or \<open>None\<close> for a negative return), terminated and
  padded with zero bytes, and the whole buffer is the string.
\<close>

definition av_error_max_string_size :: nat where
  "av_error_max_string_size = 64"

definition av_error_to_string :: "(int \<Rightarrow> string option) \<Rightarrow> int \<Rightarrow> string" where
  "av_error_to_string av_strerror err =
     (case av_strerror err of
        None \<Rightarrow> ''Uknown error''
      | Some m \<Rightarrow>
          (let c = take (av_error_max_string_size - 1) m
           in c @ replicate (av_error_max_string_size - length c) (CHR 0x00)))"

lemma av_error_to_string_length:
  "av_strerror err = Some m \<Longrightarrow> length (av_error_to_string av_strerror err) = av_error_max_string_size"
  by (simp add: av_error_to_string_def Let_def av_error_max_string_size_def)

end
