(* ===== verification/Pool.thy ===== *)
theory Pool
  imports Intrusive_List Errors
begin

text \<open>
  The object pool (\<open>src/utils/pool.hpp\<close>): a free list of constructed items on the intrusive
  list, guarded by a mutex. The store is the pointer heap, the constructed objects by address,
  the allocated addresses and whether the pool's mutex is held. The allocator, the constructor
  and the item's \<open>reset\<close> are template parameters of the source and arguments here: \<open>alloc\<close>
  gives an address or throws \<open>std::bad_alloc\<close>, \<open>ctor\<close> gives the object or throws. A pool is
  known by the address \<open>s\<close> of its list's sentinel. \<open>None\<close> is undefined behaviour or a mutex
  that is locked twice.
\<close>

record 'a store =
  sheap :: list_heap
  objs :: "addr \<Rightarrow> 'a option"
  mem :: "addr set"
  mtx :: bool

section \<open>Synchronisation guards\<close>

definition sync_enter :: "'a store \<Rightarrow> 'a store option" where
  "sync_enter st = (if mtx st then None else Some (st\<lparr>mtx := True\<rparr>))"

definition sync_leave :: "'a store \<Rightarrow> 'a store option" where
  "sync_leave st = (if mtx st then Some (st\<lparr>mtx := False\<rparr>) else None)"

section \<open>Allocation and lifetime of one item\<close>

definition allocate_item :: "('a store \<Rightarrow> addr option) \<Rightarrow> 'a store \<Rightarrow> (exn + addr) \<times> 'a store" where
  "allocate_item alloc st = (case alloc st of
     None \<Rightarrow> (Inl BadAlloc, st)
   | Some p \<Rightarrow> (Inr p, st\<lparr>mem := insert p (mem st)\<rparr>))"

definition deallocate_item :: "addr \<Rightarrow> 'a store \<Rightarrow> 'a store" where
  "deallocate_item p st = st\<lparr>mem := mem st - {p}\<rparr>"

text \<open>Placement new: the base's two pointers are null and the object exists.\<close>

definition construct_item :: "(addr \<Rightarrow> exn + 'a) \<Rightarrow> addr \<Rightarrow> 'a store \<Rightarrow> (exn + unit) \<times> 'a store" where
  "construct_item ctor p st = (case ctor p of
     Inl e \<Rightarrow> (Inl e, st)
   | Inr x \<Rightarrow> (Inr (), st\<lparr>sheap := (sheap st)\<lparr>nx := (nx (sheap st))(p := nullptr),
                                          pv := (pv (sheap st))(p := nullptr)\<rparr>,
                     objs := (objs st)(p \<mapsto> x)\<rparr>))"

definition destruct_item :: "addr \<Rightarrow> 'a store \<Rightarrow> 'a store option" where
  "destruct_item p st = (case objs st p of None \<Rightarrow> None | Some _ \<Rightarrow> Some (st\<lparr>objs := (objs st)(p := None)\<rparr>))"

text \<open>Allocate and construct, giving the memory back when the constructor throws.\<close>

definition new_item ::
  "('a store \<Rightarrow> addr option) \<Rightarrow> (addr \<Rightarrow> exn + 'a) \<Rightarrow> 'a store \<Rightarrow> (exn + addr) \<times> 'a store" where
  "new_item alloc ctor st = (case allocate_item alloc st of
     (Inl e, st1) \<Rightarrow> (Inl e, st1)
   | (Inr p, st1) \<Rightarrow> (case construct_item ctor p st1 of
        (Inl e, st2) \<Rightarrow> (Inl e, deallocate_item p st2)
      | (Inr _, st2) \<Rightarrow> (Inr p, st2)))"

section \<open>The pool's operations\<close>

definition pool_put :: "addr \<Rightarrow> addr \<Rightarrow> 'a store \<Rightarrow> 'a store option" where
  "pool_put s item st = do {
     st \<leftarrow> sync_enter st;
     h \<leftarrow> push_back s item (sheap st);
     sync_leave (st\<lparr>sheap := h\<rparr>) }"

definition pool_get ::
  "addr \<Rightarrow> ('a store \<Rightarrow> addr option) \<Rightarrow> (addr \<Rightarrow> exn + 'a) \<Rightarrow> ('a \<Rightarrow> 'a) \<Rightarrow> 'a store
    \<Rightarrow> ((exn + addr) \<times> 'a store) option" where
  "pool_get s alloc ctor reset st = do {
     st \<leftarrow> sync_enter st;
     e \<leftarrow> list_empty s (sheap st);
     if \<not> e then do {
       it \<leftarrow> list_begin s (sheap st);
       (_, h) \<leftarrow> list_erase s it (sheap st);
       x \<leftarrow> objs st it;
       st \<leftarrow> sync_leave (st\<lparr>sheap := h, objs := (objs st)(it \<mapsto> reset x)\<rparr>);
       Some (Inr it, st) }
     else do {
       st \<leftarrow> sync_leave st;
       Some (new_item alloc ctor st) } }"

fun pool_fill ::
  "addr \<Rightarrow> ('a store \<Rightarrow> addr option) \<Rightarrow> (addr \<Rightarrow> exn + 'a) \<Rightarrow> nat \<Rightarrow> 'a store
    \<Rightarrow> ((exn + unit) \<times> 'a store) option" where
  "pool_fill s alloc ctor 0 st = Some (Inr (), st)"
| "pool_fill s alloc ctor (Suc n) st = (case new_item alloc ctor st of
     (Inl e, st1) \<Rightarrow> Some (Inl e, st1)
   | (Inr p, st1) \<Rightarrow> Option.bind (pool_put s p st1) (pool_fill s alloc ctor n))"

partial_function (option) clear_loop :: "addr \<Rightarrow> addr \<Rightarrow> 'a store \<Rightarrow> 'a store option" where
  "clear_loop s it st =
     (if it = list_end s then Some st
      else Option.bind (list_erase s it (sheap st)) (\<lambda>(it', h).
        Option.bind (destruct_item it (st\<lparr>sheap := h\<rparr>)) (\<lambda>st1.
          clear_loop s it' (deallocate_item it st1))))"

definition pool_clear :: "addr \<Rightarrow> 'a store \<Rightarrow> 'a store option" where
  "pool_clear s st = do {
     st \<leftarrow> sync_enter st;
     it \<leftarrow> list_begin s (sheap st);
     st \<leftarrow> clear_loop s it st;
     sync_leave st }"

text \<open>
  The destructor of \<open>ReturnToPoolGuard\<close>: each turn makes an \<open>ItemPtr\<close> of the current item,
  erases the item from the list, and the \<open>ItemPtr\<close>'s deleter puts it into the pool when the
  turn ends.
\<close>

partial_function (option) return_loop :: "addr \<Rightarrow> addr \<Rightarrow> addr \<Rightarrow> 'a store \<Rightarrow> 'a store option" where
  "return_loop l s it st =
     (if it = list_end l then Some st
      else Option.bind (list_erase l it (sheap st)) (\<lambda>(it', h).
        Option.bind (pool_put s it (st\<lparr>sheap := h\<rparr>)) (\<lambda>st1.
          return_loop l s it' st1)))"

definition return_to_pool :: "addr \<Rightarrow> addr \<Rightarrow> 'a store \<Rightarrow> 'a store option" where
  "return_to_pool l s st = do {
     it \<leftarrow> list_begin l (sheap st);
     return_loop l s it st }"


text \<open>
  A client of the pool: the state is the store and the items the client holds. \<open>Put\<close> of an
  item the client does not hold breaks the pool's contract (\<open>None\<close>).
\<close>

datatype pool_op = Get | Put addr | Fill nat | Clear

fun pool_step ::
  "addr \<Rightarrow> ('a store \<Rightarrow> addr option) \<Rightarrow> (addr \<Rightarrow> exn + 'a) \<Rightarrow> ('a \<Rightarrow> 'a) \<Rightarrow> pool_op
    \<Rightarrow> 'a store \<times> addr list \<Rightarrow> ('a store \<times> addr list) option" where
  "pool_step s alloc ctor reset Get (st, hs) =
     map_option (\<lambda>(r, st'). (st', case r of Inl _ \<Rightarrow> hs | Inr p \<Rightarrow> p # hs))
       (pool_get s alloc ctor reset st)"
| "pool_step s alloc ctor reset (Put i) (st, hs) =
     (if i \<in> set hs then map_option (\<lambda>st'. (st', remove1 i hs)) (pool_put s i st) else None)"
| "pool_step s alloc ctor reset (Fill n) (st, hs) =
     map_option (\<lambda>(_, st'). (st', hs)) (pool_fill s alloc ctor n st)"
| "pool_step s alloc ctor reset Clear (st, hs) = map_option (\<lambda>st'. (st', hs)) (pool_clear s st)"

section \<open>The invariant\<close>

text \<open>
  \<open>pool_rep s xs st\<close>: the free list of the pool \<open>s\<close> is \<open>xs\<close>, every free item is a
  constructed object, the objects are exactly the allocated memory, and the mutex is free. The
  objects outside \<open>xs\<close> are the ones clients hold.
\<close>

definition pool_rep :: "addr \<Rightarrow> addr list \<Rightarrow> 'a store \<Rightarrow> bool" where
  "pool_rep s xs st \<longleftrightarrow> ring (sheap st) s xs \<and> set xs \<subseteq> dom (objs st) \<and>
     s \<notin> dom (objs st) \<and> nullptr \<notin> dom (objs st) \<and> mem st = dom (objs st) \<and> \<not> mtx st"

definition held :: "addr list \<Rightarrow> 'a store \<Rightarrow> addr set" where
  "held xs st = dom (objs st) - set xs"

text \<open>What \<open>std::allocator\<close> promises: a non-null address that no live object has.\<close>

definition alloc_ok :: "addr set \<Rightarrow> ('a store \<Rightarrow> addr option) \<Rightarrow> bool" where
  "alloc_ok ss alloc \<longleftrightarrow>
     (\<forall>st p. alloc st = Some p \<longrightarrow> p \<noteq> nullptr \<and> p \<notin> ss \<and> p \<notin> mem st)"

lemma new_item_cases:
  assumes "alloc_ok ss alloc"
  obtains (throws) e where "new_item alloc ctor st = (Inl e, st)"
  | (made) p st' x where "new_item alloc ctor st = (Inr p, st')" "ctor p = Inr x"
    "p \<noteq> nullptr" "p \<notin> ss" "p \<notin> mem st" "objs st' = (objs st)(p \<mapsto> x)"
    "mem st' = insert p (mem st)" "mtx st' = mtx st" "heap_agree {p} (sheap st) (sheap st')"
proof (cases "alloc st")
  case None
  then show thesis by (intro throws [of BadAlloc]) (simp add: new_item_def allocate_item_def)
next
  case (Some p)
  with assms have p: "p \<noteq> nullptr" "p \<notin> ss" "p \<notin> mem st" by (auto simp: alloc_ok_def)
  show thesis
  proof (cases "ctor p")
    case (Inl e)
    with Some p(3) show thesis
      by (intro throws [of e]) (simp add: new_item_def allocate_item_def construct_item_def
          deallocate_item_def)
  next
    case (Inr x)
    with Some p show thesis
      by (intro made [of p "snd (new_item alloc ctor st)" x]) (auto simp: new_item_def allocate_item_def construct_item_def
          heap_agree_def)
  qed
qed

lemma pool_rep_new:
  assumes "pool_rep s xs st" "p \<notin> mem st" "p \<noteq> s" "p \<noteq> nullptr"
    and "objs st' = (objs st)(p \<mapsto> x)" "mem st' = insert p (mem st)" "mtx st' = mtx st"
    and "heap_agree {p} (sheap st) (sheap st')"
  shows "pool_rep s xs st' \<and> p \<in> held xs st' \<and> held xs st' = insert p (held xs st)"
proof -
  have "p \<notin> set xs" using assms(1,2) by (auto simp: pool_rep_def)
  then have "ring (sheap st') s xs"
    using assms(1,3) by (intro ring_agree [OF assms(8)]) (auto simp: pool_rep_def)
  then show ?thesis
    using assms \<open>p \<notin> set xs\<close> by (auto simp: pool_rep_def held_def)
qed

lemma pool_put_rep:
  assumes "pool_rep s xs st" "i \<in> held xs st"
  shows "\<exists>st'. pool_put s i st = Some st' \<and> pool_rep s (xs @ [i]) st' \<and> objs st' = objs st \<and>
    mem st' = mem st \<and> heap_agree (insert i (set (s # xs))) (sheap st) (sheap st')"
proof -
  have ok: "item_ok s xs i"
    using assms by (auto simp: item_ok_def pool_rep_def held_def)
  have r: "ring (sheap st) s xs" using assms(1) by (simp add: pool_rep_def)
  from ring_push_back [OF r ok] obtain h' where
    h': "push_back s i (sheap st) = Some h'" "ring h' s (xs @ [i])" by blast
  moreover have "heap_agree (insert i (set (s # xs))) (sheap st) h'"
    using r ok h'(1) by (rule push_back_frame)
  ultimately show ?thesis
    using assms by (auto simp: pool_put_def sync_enter_def sync_leave_def pool_rep_def held_def)
qed

lemma pool_get_reuses:
  assumes "pool_rep s (i # xs) st"
  shows "\<exists>st' x. pool_get s alloc ctor reset st = Some (Inr i, st') \<and> pool_rep s xs st' \<and>
    objs st i = Some x \<and> objs st' = (objs st)(i \<mapsto> reset x) \<and> mem st' = mem st \<and>
    heap_agree (set (s # xs)) (sheap st) (sheap st')"
proof -
  have r: "ring (sheap st) s ([] @ i # xs)" using assms by (simp add: pool_rep_def)
  from ring_erase [OF r] obtain h' where
    e: "list_erase s i (sheap st) = Some (hd (xs @ [s]), h')" "ring h' s xs" by auto
  have f: "heap_agree (set (s # xs)) (sheap st) h'"
    using list_erase_frame [OF r e(1)] by simp
  obtain x where x: "objs st i = Some x" using assms by (auto simp: pool_rep_def)
  have "i \<notin> set xs" using r by (simp add: ring_def)
  then show ?thesis
    using assms e f x list_empty_ring [OF r] list_begin_ring [OF r]
    by (auto simp: pool_get_def sync_enter_def sync_leave_def pool_rep_def)
qed

lemma store_unlocked: "\<not> mtx st \<Longrightarrow> st\<lparr>mtx := False\<rparr> = st"
  by (cases st) simp

lemma pool_get_empty:
  assumes "pool_rep s [] st"
  shows "pool_get s alloc ctor reset st = Some (new_item alloc ctor st)"
proof -
  have "list_empty s (sheap st) = Some True"
    using assms list_empty_ring [of "sheap st" s "[]"] by (simp add: pool_rep_def)
  then show ?thesis
    using assms
    by (simp add: pool_get_def sync_enter_def sync_leave_def pool_rep_def store_unlocked)
qed

lemma clear_loop_rep:
  assumes "ring (sheap st) s xs" "set xs \<subseteq> dom (objs st)"
  shows "\<exists>st'. clear_loop s (hd (xs @ [s])) st = Some st' \<and> ring (sheap st') s [] \<and>
    objs st' = objs st |` (- set xs) \<and> mem st' = mem st - set xs \<and> mtx st' = mtx st"
  using assms
proof (induction xs arbitrary: st)
  case Nil
  then show ?case by (auto simp: clear_loop.simps list_end_def)
next
  case (Cons i xs)
  have r: "ring (sheap st) s ([] @ i # xs)" using Cons.prems(1) by simp
  from ring_erase [OF r] obtain h' where
    e: "list_erase s i (sheap st) = Some (hd (xs @ [s]), h')" "ring h' s xs" by auto
  obtain x where x: "objs st i = Some x" using Cons.prems(2) by auto
  have d: "i \<noteq> s" "i \<notin> set xs" using r by (auto simp: ring_def)
  define st1 where "st1 = st\<lparr>sheap := h', objs := (objs st)(i := None), mem := mem st - {i}\<rparr>"
  have "ring (sheap st1) s xs" "set xs \<subseteq> dom (objs st1)"
    using e(2) Cons.prems(2) d by (auto simp: st1_def)
  from Cons.IH [OF this] obtain st' where st': "clear_loop s (hd (xs @ [s])) st1 = Some st'"
    "ring (sheap st') s []" "objs st' = objs st1 |` (- set xs)" "mem st' = mem st1 - set xs"
    "mtx st' = mtx st1" by blast
  have "clear_loop s i st = clear_loop s (hd (xs @ [s])) st1"
    using e x d by (simp add: clear_loop.simps [of s i] list_end_def destruct_item_def
        deallocate_item_def st1_def)
  moreover have "objs st1 |` (- set xs) = objs st |` (- set (i # xs))"
    by (auto simp: st1_def restrict_map_def fun_eq_iff)
  ultimately show ?case
    using st' by (auto simp: st1_def)
qed

lemma pool_clear_rep:
  assumes "pool_rep s xs st"
  shows "\<exists>st'. pool_clear s st = Some st' \<and> pool_rep s [] st' \<and>
    objs st' = objs st |` (- set xs) \<and> mem st' = held xs st"
proof -
  let ?st = "st\<lparr>mtx := True\<rparr>"
  have r: "ring (sheap ?st) s xs" "set xs \<subseteq> dom (objs ?st)" using assms by (auto simp: pool_rep_def)
  from clear_loop_rep [OF this] obtain st' where
    "clear_loop s (hd (xs @ [s])) ?st = Some st'" "ring (sheap st') s []"
    "objs st' = objs st |` (- set xs)" "mem st' = mem st - set xs" "mtx st'" by auto
  then show ?thesis
    using assms list_begin_ring [OF r(1)]
    by (auto simp: pool_clear_def sync_enter_def sync_leave_def pool_rep_def held_def
        restrict_map_def split: if_splits)
qed

lemma pool_fill_rep:
  assumes a: "alloc_ok {s} alloc"
  shows "pool_rep s xs st \<Longrightarrow> \<exists>r st' ps. pool_fill s alloc ctor n st = Some (r, st') \<and>
    pool_rep s (xs @ ps) st' \<and> held (xs @ ps) st' = held xs st \<and>
    length ps \<le> n \<and> (r = Inr () \<longrightarrow> length ps = n)"
proof (induction n arbitrary: xs st)
  case 0
  then show ?case by (auto intro!: exI [of _ "[]"])
next
  case (Suc n)
  show ?case
  using a proof (cases rule: new_item_cases [where ctor = ctor and st = st])
    case (throws e)
    with Suc.prems show ?thesis by (auto intro!: exI [of _ "[]"])
  next
    case (made p st1 x)
    have h: "pool_rep s xs st1" "p \<in> held xs st1" "held xs st1 = insert p (held xs st)"
      using pool_rep_new [OF Suc.prems made(5) _ made(3,6,7,8,9)] made(4) by auto
    from pool_put_rep [OF h(1,2)] obtain st2 where
      st2: "pool_put s p st1 = Some st2" "pool_rep s (xs @ [p]) st2" "objs st2 = objs st1" by blast
    from Suc.IH [OF st2(2)] obtain r st' ps where
      f: "pool_fill s alloc ctor n st2 = Some (r, st')" "pool_rep s ((xs @ [p]) @ ps) st'"
      "held ((xs @ [p]) @ ps) st' = held (xs @ [p]) st2" "length ps \<le> n"
      "r = Inr () \<longrightarrow> length ps = n" by blast
    have "p \<notin> dom (objs st)" using Suc.prems made(5) by (simp add: pool_rep_def)
    then have "held (xs @ [p]) st2 = held xs st"
      using st2(3) made(6) by (auto simp: held_def)
    then show ?thesis
      using made(1) st2(1) f by (intro exI [of _ r] exI [of _ st'] exI [of _ "p # ps"]) auto
  qed
qed

lemma return_loop_rep:
  assumes "pool_rep s xs st" "ring (sheap st) l ys" "set ys \<subseteq> held xs st" "l \<notin> dom (objs st)" "l \<noteq> s"
  shows "\<exists>st'. return_loop l s (hd (ys @ [l])) st = Some st' \<and> pool_rep s (xs @ ys) st' \<and>
    ring (sheap st') l [] \<and> objs st' = objs st \<and> mem st' = mem st \<and>
    heap_agree (set (l # ys) \<union> set (s # xs)) (sheap st) (sheap st')"
  using assms
proof (induction ys arbitrary: xs st)
  case Nil
  then show ?case by (auto simp: return_loop.simps list_end_def)
next
  case (Cons i ys)
  have r: "ring (sheap st) l ([] @ i # ys)" using Cons.prems(2) by simp
  from ring_erase [OF r] obtain h' where
    e: "list_erase l i (sheap st) = Some (hd (ys @ [l]), h')" "ring h' l ys" by auto
  have f: "heap_agree (set (l # ys)) (sheap st) h'" using list_erase_frame [OF r e(1)] by simp
  let ?st = "st\<lparr>sheap := h'\<rparr>"
  have s: "s \<notin> set ys" "s \<noteq> i" "set xs \<inter> set (i # ys) = {}" "l \<notin> set xs" "i \<notin> set ys" "i \<noteq> l"
    using Cons.prems r by (auto simp: pool_rep_def held_def ring_def)
  have "ring h' s xs"
    using Cons.prems(1,5) s by (intro ring_agree [OF f]) (auto simp: pool_rep_def)
  then have p: "pool_rep s xs ?st" "i \<in> held xs ?st"
    using Cons.prems(1,3) by (auto simp: pool_rep_def held_def)
  from pool_put_rep [OF p] obtain st1 where
    st1: "pool_put s i ?st = Some st1" "pool_rep s (xs @ [i]) st1" "objs st1 = objs st"
    "mem st1 = mem st" "heap_agree (insert i (set (s # xs))) h' (sheap st1)" by auto
  have "ring (sheap st1) l ys"
    using e(2) s Cons.prems(5) by (intro ring_agree [OF st1(5)]) auto
  moreover have "set ys \<subseteq> held (xs @ [i]) st1"
    using Cons.prems(3) s st1(3) by (auto simp: held_def)
  ultimately obtain st' where st': "return_loop l s (hd (ys @ [l])) st1 = Some st'"
    "pool_rep s ((xs @ [i]) @ ys) st'" "ring (sheap st') l []" "objs st' = objs st1"
    "mem st' = mem st1" "heap_agree (set (l # ys) \<union> set (s # xs @ [i])) (sheap st1) (sheap st')"
    using Cons.IH [OF st1(2)] Cons.prems(4,5) st1(3) by auto
  have "heap_agree (set (l # i # ys) \<union> set (s # xs)) (sheap st) (sheap st1)"
    using f st1(5) by (rule heap_agree_trans) auto
  then have "heap_agree (set (l # i # ys) \<union> set (s # xs)) (sheap st) (sheap st')"
    using st'(6) by (rule heap_agree_trans) auto
  then show ?case
    using st' st1 e s(6) by (auto simp: return_loop.simps [of l s i] list_end_def)
qed

lemma return_to_pool_rep:
  assumes "pool_rep s xs st" "ring (sheap st) l ys" "set ys \<subseteq> held xs st" "l \<notin> dom (objs st)" "l \<noteq> s"
  shows "\<exists>st'. return_to_pool l s st = Some st' \<and> pool_rep s (xs @ ys) st' \<and>
    ring (sheap st') l [] \<and> objs st' = objs st \<and> mem st' = mem st \<and>
    heap_agree (set (l # ys) \<union> set (s # xs)) (sheap st) (sheap st')"
  using return_loop_rep [OF assms] list_begin_ring [OF assms(2)] by (simp add: return_to_pool_def)

section \<open>A client's view\<close>

definition pool_inv :: "addr \<Rightarrow> 'a store \<times> addr list \<Rightarrow> bool" where
  "pool_inv s = (\<lambda>(st, hs). \<exists>xs. pool_rep s xs st \<and> held xs st = set hs \<and> distinct hs)"

definition allowed :: "pool_op \<Rightarrow> 'a store \<times> addr list \<Rightarrow> bool" where
  "allowed x = (\<lambda>(st, hs). case x of Put i \<Rightarrow> i \<in> set hs | _ \<Rightarrow> True)"

lemma pool_get_step:
  assumes a: "alloc_ok {s} alloc" and r: "pool_rep s xs st" "held xs st = set hs" "distinct hs"
  shows "\<exists>c'. pool_step s alloc ctor reset Get (st, hs) = Some c' \<and> pool_inv s c'"
proof (cases xs)
  case (Cons i ys)
  from pool_get_reuses [OF r(1) [unfolded Cons]] obtain st' x where
    g: "pool_get s alloc ctor reset st = Some (Inr i, st')" "pool_rep s ys st'"
    "objs st i = Some x" "objs st' = (objs st)(i \<mapsto> reset x)" by blast
  have "i \<notin> set ys" using r(1) by (simp add: Cons pool_rep_def ring_def)
  then have "held ys st' = set (i # hs)" "i \<notin> set hs"
    using g(3,4) r(2) [symmetric] by (auto simp: held_def Cons)
  with g(1,2) r(3) show ?thesis by (auto simp: pool_inv_def)
next
  case Nil
  note g = pool_get_empty [OF r(1) [unfolded Nil], of alloc ctor reset]
  show ?thesis
  using a proof (cases rule: new_item_cases [where ctor = ctor and st = st])
    case (throws e)
    with g r show ?thesis by (auto simp: pool_inv_def)
  next
    case (made p st' x)
    have "pool_rep s [] st'" "held [] st' = insert p (set hs)"
      using pool_rep_new [OF r(1) [unfolded Nil] made(5) _ made(3,6-)] made(4) r(2) Nil by auto
    moreover have "p \<notin> set hs"
      using made(5) r(1,2) by (auto simp: pool_rep_def held_def Nil)
    ultimately show ?thesis using g made(1) r(3) by (auto simp: pool_inv_def)
  qed
qed

lemma pool_step_inv:
  assumes a: "alloc_ok {s} alloc" and i: "pool_inv s c" and ok: "allowed x c"
  shows "\<exists>c'. pool_step s alloc ctor reset x c = Some c' \<and> pool_inv s c'"
proof -
  obtain st hs xs where c: "c = (st, hs)" and r: "pool_rep s xs st" "held xs st = set hs" "distinct hs"
    using i by (auto simp: pool_inv_def)
  show ?thesis
  proof (cases x)
    case Get
    with pool_get_step [OF a r] c show ?thesis by simp
  next
    case (Put j)
    with ok c have j: "j \<in> set hs" by (simp add: allowed_def)
    with pool_put_rep [OF r(1), of j] r(2) obtain st' where
      p: "pool_put s j st = Some st'" "pool_rep s (xs @ [j]) st'" "objs st' = objs st" by blast
    have "held (xs @ [j]) st' = set (remove1 j hs)"
      using p(3) r(2,3) by (auto simp: held_def)
    then show ?thesis using Put c j p r(3) by (auto simp: pool_inv_def)
  next
    case (Fill n)
    with pool_fill_rep [OF a r(1), of ctor n] c r show ?thesis by (fastforce simp: pool_inv_def)
  next
    case Clear
    from pool_clear_rep [OF r(1)] obtain st' where
      p: "pool_clear s st = Some st'" "pool_rep s [] st'" "objs st' = objs st |` (- set xs)" by blast
    have "held [] st' = held xs st" by (auto simp: held_def p(3))
    then show ?thesis using Clear c p r by (auto simp: pool_inv_def)
  qed
qed

lemma pool_step_allowed: "pool_step s alloc ctor reset x c = Some c' \<Longrightarrow> allowed x c"
  by (cases c; cases x) (auto simp: allowed_def split: if_splits)

interpretation pool_client: invariant_machine "pool_step s alloc ctor reset"
  "\<lambda>c. alloc_ok {s} alloc \<and> pool_inv s c"
proof unfold_locales
  fix c x c'
  assume "alloc_ok {s} alloc \<and> pool_inv s c" "pool_step s alloc ctor reset x c = Some c'"
  with pool_step_inv [of s alloc c x ctor reset] pool_step_allowed [of s alloc ctor reset x c c']
  show "alloc_ok {s} alloc \<and> pool_inv s c'" by auto
qed

lemma pool_run_inv:
  assumes "alloc_ok {s} alloc" "pool_inv s c" "run_steps (pool_step s alloc ctor reset) xs c = Some c'"
  shows "pool_inv s c'"
  using pool_client.run_inv [of s alloc c ctor reset xs c'] assms by blast

text \<open>A store with an empty pool at sentinel 9, and an allocator that knows two addresses.\<close>

definition demo_store :: "nat store" where
  "demo_store = \<lparr>sheap = demo_heap, objs = (\<lambda>_. None), mem = {}, mtx = False\<rparr>"

definition demo_alloc :: "nat store \<Rightarrow> addr option" where
  "demo_alloc st = (if 5 \<notin> mem st then Some 5 else if 6 \<notin> mem st then Some 6 else None)"

lemma demo_alloc_ok: "alloc_ok {9} demo_alloc"
  by (auto simp: alloc_ok_def demo_alloc_def)

lemma demo_pool_rep: "pool_rep 9 [] demo_store"
  using demo_rings(2) by (simp add: pool_rep_def demo_store_def)

lemma demo_pool_inv: "pool_inv 9 (demo_store, [])"
  using demo_pool_rep by (force simp: pool_inv_def held_def demo_store_def)

section \<open>Properties\<close>

text \<open>
  (C15) Ownership. Whatever sequence of \<open>get\<close>, \<open>put\<close>, \<open>fill\<close> and \<open>clear\<close> a client makes, an
  item is never handed out twice: the items the client holds are distinct and none of them is
  on the free list, and the free list and the held items together are exactly the allocated
  and constructed objects. The mutex is free between calls.
\<close>

theorem pool_run_keeps_ownership:
  assumes "alloc_ok {s} alloc" "pool_inv s c"
    and "run_steps (pool_step s alloc ctor reset) xs c = Some (st, hs)"
  shows "\<exists>fs. ring (sheap st) s fs \<and> distinct (fs @ hs) \<and> mem st = set fs \<union> set hs \<and>
    dom (objs st) = mem st \<and> \<not> mtx st"
proof -
  from pool_run_inv [OF assms] obtain fs where
    "pool_rep s fs st" "held fs st = set hs" "distinct hs" by (auto simp: pool_inv_def)
  then show ?thesis
    by (intro exI [of _ fs]) (auto simp: pool_rep_def ring_def held_def)
qed

theorem pool_run_keeps_ownership_witness:
  "\<exists>c. run_steps (pool_step 9 demo_alloc (\<lambda>p. Inr p) (\<lambda>_. 0)) [Get, Get, Put 5] (demo_store, []) = Some c \<and>
    mem (fst c) = {5, 6} \<and>
    (\<exists>fs. ring (sheap (fst c)) 9 fs \<and> distinct (fs @ snd c) \<and> mem (fst c) = set fs \<union> set (snd c))"
proof -
  obtain c where c: "run_steps (pool_step 9 demo_alloc (\<lambda>p. Inr p) (\<lambda>_. 0)) [Get, Get, Put 5]
      (demo_store, []) = Some c" "mem (fst c) = {5, 6}"
    by (simp add: pool_get_def pool_put_def sync_enter_def sync_leave_def new_item_def
        allocate_item_def construct_item_def demo_alloc_def demo_store_def demo_heap_def
        op_defs heap_simps insert_commute)
  obtain st hs where "c = (st, hs)" by (cases c)
  then show ?thesis
    using c pool_run_keeps_ownership [OF demo_alloc_ok demo_pool_inv, of _ _ _ st hs] by fastforce
qed

text \<open>
  No leak. When a client has put back everything it got, \<open>clear\<close> (and so the pool's
  destructor) destroys every object and gives back all memory.
\<close>

lemma pool_clear_frees_everything:
  assumes "alloc_ok {s} alloc" "pool_inv s c"
    and "run_steps (pool_step s alloc ctor reset) xs c = Some (st, [])"
  shows "\<exists>st'. pool_clear s st = Some st' \<and> mem st' = {} \<and> (\<forall>p. objs st' p = None)"
proof -
  from pool_run_inv [OF assms] obtain fs where
    fs: "pool_rep s fs st" "held fs st = {}" by (auto simp: pool_inv_def)
  from pool_clear_rep [OF fs(1)] obtain st' where
    "pool_clear s st = Some st'" "pool_rep s [] st'" "mem st' = {}" using fs(2) by auto
  then show ?thesis by (auto simp: pool_rep_def dom_def)
qed

lemma pool_clear_frees_everything_example:
  "\<exists>st st'. run_steps (pool_step 9 demo_alloc (\<lambda>p. Inr p) (\<lambda>_. 0)) [Get, Put 5, Fill 1]
      (demo_store, []) = Some (st, []) \<and> mem st = {5, 6} \<and>
    pool_clear 9 st = Some st' \<and> mem st' = {}"
proof -
  obtain st where st: "run_steps (pool_step 9 demo_alloc (\<lambda>p. Inr p) (\<lambda>_. 0)) [Get, Put 5, Fill 1]
      (demo_store, []) = Some (st, [])" "mem st = {5, 6}"
    by (simp add: pool_get_def pool_put_def sync_enter_def sync_leave_def new_item_def
        allocate_item_def construct_item_def demo_alloc_def demo_store_def demo_heap_def
        op_defs heap_simps insert_commute)
  then show ?thesis
    using pool_clear_frees_everything [OF demo_alloc_ok demo_pool_inv, of _ _ _ st] by blast
qed

text \<open>
  \<open>get\<close> hands out the item that has been free the longest, reset, and shortens the free
  list by it; on an empty pool it makes a new object at a fresh address, or throws and leaves
  the store as it was, with no memory allocated.
\<close>

lemma pool_get_functional:
  assumes "pool_rep s xs st" "alloc_ok {s} alloc"
  shows "case xs of
      i # ys \<Rightarrow> (\<exists>st' x. pool_get s alloc ctor reset st = Some (Inr i, st') \<and> pool_rep s ys st' \<and>
                  objs st i = Some x \<and> objs st' = (objs st)(i \<mapsto> reset x))
    | [] \<Rightarrow> (\<exists>e. pool_get s alloc ctor reset st = Some (Inl e, st)) \<or>
            (\<exists>p x st'. pool_get s alloc ctor reset st = Some (Inr p, st') \<and> p \<notin> mem st \<and>
               ctor p = Inr x \<and> pool_rep s [] st' \<and> objs st' = (objs st)(p \<mapsto> x))"
proof (cases xs)
  case (Cons i ys)
  with pool_get_reuses [of s i ys st alloc ctor reset] assms(1) show ?thesis by auto
next
  case Nil
  note g = pool_get_empty [OF assms(1) [unfolded Nil], of alloc ctor reset]
  show ?thesis
  using assms(2) proof (cases rule: new_item_cases [where ctor = ctor and st = st])
    case (throws e)
    with g Nil show ?thesis by simp
  next
    case (made p st' x)
    then show ?thesis
      using g Nil pool_rep_new [OF assms(1) [unfolded Nil] made(5) _ made(3,6-)] by auto
  qed
qed

lemma pool_get_functional_example:
  "(\<exists>e. pool_get 9 demo_alloc (\<lambda>p. Inr p) (\<lambda>_. 0) demo_store = Some (Inl e, demo_store)) \<or>
   (\<exists>p x st'. pool_get 9 demo_alloc (\<lambda>p. Inr p) (\<lambda>_. 0) demo_store = Some (Inr p, st') \<and>
      p \<notin> mem demo_store \<and> (Inr p :: exn + nat) = Inr x \<and> pool_rep 9 [] st' \<and>
      objs st' = (objs demo_store)(p \<mapsto> x))"
  using pool_get_functional [OF demo_pool_rep demo_alloc_ok, of "\<lambda>p. Inr p" "\<lambda>_. 0"]
  by (simp only: list.case)
end
