(* ===== verification/Base64.thy ===== *)
theory Base64
  imports Errors
begin

text \<open>
  The Base64 decoder (\<open>src/utils/base64.cpp\<close>, \<open>src/utils/base64.hpp\<close>), which the program
  uses on the NvFBC key from the environment. The four-character chunk, its packing into a
  32-bit word with the byte count in the two low bits, the byte order of the machine and the
  loop over the input are the source's. A reference encoder (RFC 4648) states what decoding
  must invert.
\<close>

section \<open>The decoder\<close>

datatype base64_error = invalid_token | not_enough_tokens

datatype byte_order = little_endian | big_endian

definition base64_alphabet :: string where
  "base64_alphabet =
     map char_of [65..<91::nat] @ map char_of [97..<123::nat] @ map char_of [48..<58::nat] @
     [CHR ''+'', CHR ''/'']"

text \<open>\<open>std::find\<close> followed by \<open>std::distance\<close>; \<open>None\<close> is the end iterator.\<close>

fun find_index :: "'a list \<Rightarrow> 'a \<Rightarrow> nat option" where
  "find_index [] c = None"
| "find_index (x # xs) c = (if x = c then Some 0 else map_option Suc (find_index xs c))"

text \<open>
  The loop of \<open>base64_decode_chunk\<close>. The shift starts at 3 and the chunk has four characters,
  so the shift amount \<open>6 * shift + 2\<close> is never negative when it is used.
\<close>

fun decode_chunk_loop :: "string \<Rightarrow> int \<Rightarrow> nat \<Rightarrow> u32 \<Rightarrow> base64_error + (u32 \<times> nat)" where
  "decode_chunk_loop [] shift n val = Inr (val, n)"
| "decode_chunk_loop (c # cs) shift n val =
     (if c = CHR ''='' then Inr (val, n)
      else case find_index base64_alphabet c of
        None \<Rightarrow> Inl invalid_token
      | Some i \<Rightarrow> decode_chunk_loop cs (shift - 1) (n + 1)
          (val OR push_bit (nat (6 * shift + 2)) (of_nat i AND 0x3f)))"

definition base64_decode_chunk :: "string \<Rightarrow> base64_error + u32" where
  "base64_decode_chunk input = bind_res (decode_chunk_loop input 3 0 0) (\<lambda>(val, n).
     if n = 1 then Inl not_enough_tokens
     else if n = 2 then Inr (push_bit 6 val OR (1 AND 0x03))
     else if n = 3 then Inr (push_bit 6 val OR (2 AND 0x03))
     else Inr (push_bit 6 val OR (3 AND 0x03)))"

text \<open>The bytes of a word as they lie in memory, and the iterator over them.\<close>

definition bytes_in_memory :: "byte_order \<Rightarrow> u32 \<Rightarrow> u8 list" where
  "bytes_in_memory bo v =
     (let lsb_first = [ucast v, ucast (drop_bit 8 v), ucast (drop_bit 16 v), ucast (drop_bit 24 v)]
      in case bo of little_endian \<Rightarrow> lsb_first | big_endian \<Rightarrow> rev lsb_first)"

definition begin_by_byte_order :: "byte_order \<Rightarrow> u8 list \<Rightarrow> u8 list" where
  "begin_by_byte_order bo bs = (case bo of little_endian \<Rightarrow> rev bs | big_endian \<Rightarrow> bs)"

definition decoded_bytes :: "byte_order \<Rightarrow> u32 \<Rightarrow> u8 list" where
  "decoded_bytes bo val =
     (let num_bytes = unat (val AND 0x03); val = val AND NOT 0x03
      in take num_bytes (begin_by_byte_order bo (bytes_in_memory bo val)))"

definition pad_chunk :: "string \<Rightarrow> string" where
  "pad_chunk cs = cs @ replicate (4 - length cs) (CHR ''='')"

function base64_decode :: "byte_order \<Rightarrow> string \<Rightarrow> base64_error + u8 list" where
  "base64_decode bo encoded =
     (if encoded = [] then Inr []
      else bind_res (base64_decode_chunk (pad_chunk (take 4 encoded))) (\<lambda>val.
        bind_res (base64_decode bo (drop 4 encoded)) (\<lambda>rest.
          Inr (decoded_bytes bo val @ rest))))"
  by pat_completeness auto
termination
  by (relation "measure (\<lambda>(bo, s). length s)") auto

declare base64_decode.simps [simp del]

section \<open>The reference encoder\<close>

definition sym :: "u8 \<Rightarrow> char" where
  "sym w = base64_alphabet ! unat w"

text \<open>The four six-bit groups of three bytes.\<close>

definition group1 :: "u8 \<Rightarrow> u8" where
  "group1 a = drop_bit 2 a"

definition group2 :: "u8 \<Rightarrow> u8 \<Rightarrow> u8" where
  "group2 a b = push_bit 4 (a AND 3) OR drop_bit 4 b"

definition group3 :: "u8 \<Rightarrow> u8 \<Rightarrow> u8" where
  "group3 b c = push_bit 2 (b AND 15) OR drop_bit 6 c"

definition group4 :: "u8 \<Rightarrow> u8" where
  "group4 c = c AND 63"

fun base64_encode :: "u8 list \<Rightarrow> string" where
  "base64_encode [] = []"
| "base64_encode [a] = [sym (group1 a), sym (group2 a 0), CHR ''='', CHR ''='']"
| "base64_encode [a, b] = [sym (group1 a), sym (group2 a b), sym (group3 b 0), CHR ''='']"
| "base64_encode (a # b # c # rest) =
     [sym (group1 a), sym (group2 a b), sym (group3 b c), sym (group4 c)] @ base64_encode rest"

section \<open>Lemmas\<close>

lemma find_index_nth: "distinct xs \<Longrightarrow> k < length xs \<Longrightarrow> find_index xs (xs ! k) = Some k"
proof (induction xs arbitrary: k)
  case (Cons x xs)
  then show ?case by (cases k) auto
qed simp

lemma find_index_None_iff: "find_index xs c = None \<longleftrightarrow> c \<notin> set xs"
  by (induction xs) auto

lemma alphabet_distinct: "distinct base64_alphabet"
  by code_simp

lemma alphabet_length: "length base64_alphabet = 64"
  by (simp add: base64_alphabet_def)

lemma alphabet_no_pad: "CHR ''='' \<notin> set base64_alphabet"
  by code_simp

lemma sym_index: "unat w < 64 \<Longrightarrow> find_index base64_alphabet (sym w) = Some (unat w)"
  by (simp add: sym_def find_index_nth alphabet_distinct alphabet_length)

lemma sym_not_pad: "unat w < 64 \<Longrightarrow> sym w \<noteq> CHR ''=''"
  using alphabet_no_pad by (metis alphabet_length nth_mem sym_def)

lemma begin_bytes:
  "begin_by_byte_order bo (bytes_in_memory bo v) =
     [ucast (drop_bit 24 v), ucast (drop_bit 16 v), ucast (drop_bit 8 v), ucast v]"
  by (cases bo) (simp_all add: begin_by_byte_order_def bytes_in_memory_def)


lemmas group_defs = group1_def group2_def group3_def group4_def

lemma six_bits: "w = w AND 63 \<Longrightarrow> unat (w :: u8) < 64"
proof -
  assume a: "w = w AND 63"
  have "unat (w AND 63) \<le> unat (63 :: u8)"
    by (rule word_and_le1 [THEN word_le_nat_alt [THEN iffD1]])
  with a show ?thesis by simp
qed

lemma groups_six_bits [simp]:
  "unat (group1 a) < 64" "unat (group2 a b) < 64" "unat (group3 b c) < 64" "unat (group4 c) < 64"
  unfolding group_defs by (rule six_bits, rule u8_eqI; simp add: bit_simps)+

text \<open>The word that the chunk loop builds, before it is shifted over the byte count.\<close>

definition pack :: "u8 \<Rightarrow> u8 \<Rightarrow> u8 \<Rightarrow> u8 \<Rightarrow> u32" where
  "pack w0 w1 w2 w3 = push_bit 20 (ucast w0 AND 63) OR push_bit 14 (ucast w1 AND 63) OR
     push_bit 8 (ucast w2 AND 63) OR push_bit 2 (ucast w3 AND 63)"

lemma decode_four_symbols:
  "unat w0 < 64 \<Longrightarrow> unat w1 < 64 \<Longrightarrow> unat w2 < 64 \<Longrightarrow> unat w3 < 64 \<Longrightarrow>
   base64_decode_chunk [sym w0, sym w1, sym w2, sym w3] =
     Inr (push_bit 6 (pack w0 w1 w2 w3) OR 3)"
  by (simp add: base64_decode_chunk_def sym_index sym_not_pad pack_def or.assoc)

lemma decode_three_symbols:
  "unat w0 < 64 \<Longrightarrow> unat w1 < 64 \<Longrightarrow> unat w2 < 64 \<Longrightarrow>
   base64_decode_chunk [sym w0, sym w1, sym w2, CHR ''=''] =
     Inr (push_bit 6 (pack w0 w1 w2 0) OR 2)"
  by (simp add: base64_decode_chunk_def sym_index sym_not_pad pack_def or.assoc)

lemma decode_two_symbols:
  "unat w0 < 64 \<Longrightarrow> unat w1 < 64 \<Longrightarrow>
   base64_decode_chunk [sym w0, sym w1, CHR ''='', CHR ''=''] =
     Inr (push_bit 6 (pack w0 w1 0 0) OR 1)"
  by (simp add: base64_decode_chunk_def sym_index sym_not_pad pack_def or.assoc)

lemmas decode_chunk_symbols = decode_four_symbols decode_three_symbols decode_two_symbols

lemma push_bit_low: "push_bit 6 v AND (3 :: u32) = 0"
proof -
  have "(3 :: u32) = mask 2" by (simp add: mask_eq_exp_minus_1)
  then have "push_bit 6 v AND 3 = take_bit 2 (push_bit 6 v)" by (simp add: take_bit_eq_mask)
  then show ?thesis by (simp add: take_bit_push_bit)
qed

lemma count_bits: "(push_bit 6 v OR k) AND (3 :: u32) = k AND 3"
  by (simp add: bit.conj_disj_distrib2 push_bit_low)

definition byte_at :: "nat \<Rightarrow> u32 \<Rightarrow> u32 \<Rightarrow> u8" where
  "byte_at k v n = ucast (drop_bit k ((push_bit 6 v OR n) AND NOT 3))"

lemma decoded_bytes_byte_at:
  "decoded_bytes bo (push_bit 6 v OR n) =
     take (unat (n AND 3)) [byte_at 24 v n, byte_at 16 v n, byte_at 8 v n, byte_at 0 v n]"
  by (simp add: decoded_bytes_def begin_bytes count_bits byte_at_def Let_def)

lemma first_byte: "n \<in> {1, 2, 3} \<Longrightarrow> byte_at 24 (pack (group1 a) (group2 a b) w2 w3) n = a"
  unfolding byte_at_def pack_def group_defs by (rule u8_eqI; auto simp: bit_simps)

lemma second_byte: "n \<in> {1, 2, 3} \<Longrightarrow> byte_at 16 (pack w0 (group2 a b) (group3 b c) w3) n = b"
  unfolding byte_at_def pack_def group_defs by (rule u8_eqI; auto simp: bit_simps)

lemma third_byte: "byte_at 8 (pack w0 w1 (group3 b c) (group4 c)) 3 = c"
  unfolding byte_at_def pack_def group_defs by (rule u8_eqI; auto simp: bit_simps)

lemmas decoded_groups = decoded_bytes_byte_at first_byte second_byte third_byte

lemma base64_decode_Nil [simp]: "base64_decode bo [] = Inr []"
  by (simp add: base64_decode.simps)

lemma base64_decode_Cons:
  "base64_decode bo (c # cs) =
     bind_res (base64_decode_chunk (pad_chunk (take 4 (c # cs)))) (\<lambda>val.
       bind_res (base64_decode bo (drop 4 (c # cs))) (\<lambda>rest. Inr (decoded_bytes bo val @ rest)))"
  by (simp add: base64_decode.simps)

text \<open>When a chunk without padding characters decodes.\<close>

lemma decode_chunk_loop_ok:
  "CHR ''='' \<notin> set cs \<Longrightarrow>
   (\<exists>v. decode_chunk_loop (cs @ replicate k (CHR ''='')) shift n val = Inr (v, n + length cs))
     \<longleftrightarrow> set cs \<subseteq> set base64_alphabet"
proof (induction cs arbitrary: shift n val)
  case Nil
  then show ?case by (cases k) auto
next
  case (Cons c cs)
  show ?case
  proof (cases "find_index base64_alphabet c")
    case None
    then have "c \<notin> set base64_alphabet" by (simp add: find_index_None_iff)
    with None Cons.prems show ?thesis by simp
  next
    case (Some i)
    then have "c \<in> set base64_alphabet" by (metis find_index_None_iff option.distinct(1))
    moreover have "(\<exists>v. decode_chunk_loop (cs @ replicate k (CHR ''='')) (shift - 1) (Suc n)
        (val OR push_bit (nat (6 * shift + 2)) (of_nat i AND 0x3f)) = Inr (v, Suc n + length cs))
        \<longleftrightarrow> set cs \<subseteq> set base64_alphabet"
      using Cons.prems by (intro Cons.IH) simp
    ultimately show ?thesis using Some Cons.prems by (auto simp del: push_bit_and)
  qed
qed

lemma decode_chunk_loop_count:
  "decode_chunk_loop (cs @ replicate k (CHR ''='')) shift n val = Inr (v, m) \<Longrightarrow>
   CHR ''='' \<notin> set cs \<Longrightarrow> m = n + length cs"
proof (induction cs arbitrary: shift n val)
  case Nil
  then show ?case by (cases k) auto
next
  case (Cons c cs)
  then obtain val' where
    "decode_chunk_loop (cs @ replicate k (CHR ''='')) (shift - 1) (n + 1) val' = Inr (v, m)"
    by (auto split: option.splits)
  from Cons.IH [OF this] Cons.prems show ?case by simp
qed

lemma decode_chunk_ok:
  assumes "CHR ''='' \<notin> set cs" "cs \<noteq> []" "length cs \<le> 4"
  shows "(\<exists>v. base64_decode_chunk (pad_chunk cs) = Inr v) \<longleftrightarrow>
    set cs \<subseteq> set base64_alphabet \<and> length cs \<noteq> 1"
proof -
  let ?r = "decode_chunk_loop (cs @ replicate (4 - length cs) (CHR ''='')) 3 0 0"
  have ok: "(\<exists>v. ?r = Inr (v, length cs)) \<longleftrightarrow> set cs \<subseteq> set base64_alphabet"
    using decode_chunk_loop_ok [OF assms(1), of "4 - length cs" 3 0 0] by simp
  have "m = length cs" if "?r = Inr (v, m)" for v m
    using decode_chunk_loop_count [OF that assms(1)] by simp
  then show ?thesis
    using ok by (cases ?r) (auto simp: base64_decode_chunk_def pad_chunk_def)
qed

lemma mod_four_chunk:
  "length s mod 4 \<noteq> 1 \<longleftrightarrow> length (take 4 s) \<noteq> 1 \<and> length (drop 4 s) mod 4 \<noteq> 1"
proof (cases "length s < 4")
  case False
  then obtain k where "length s = k + 4" by (metis add.commute le_Suc_ex not_less)
  then show ?thesis by simp
qed auto

section \<open>Properties\<close>

text \<open>
  (C20) Round trip. Decoding the Base64 encoding (RFC 4648, with padding) of any sequence of
  bytes gives back exactly those bytes, on little-endian and on big-endian machines.
\<close>

theorem base64_decode_inverts_encode: "base64_decode bo (base64_encode xs) = Inr xs"
proof (induction xs rule: base64_encode.induct)
  case (4 a b c rest)
  then show ?case
    by (simp add: base64_decode_Cons pad_chunk_def decode_chunk_symbols decoded_groups)
qed (simp_all add: base64_decode_Cons pad_chunk_def decode_chunk_symbols decoded_groups)

text \<open>
  An input without padding characters decodes exactly when every character is in the
  alphabet and its length is not one more than a multiple of four; otherwise the result is an
  error.
\<close>

lemma base64_decode_unpadded_ok_iff:
  assumes "CHR ''='' \<notin> set s"
  shows "(\<exists>bs. base64_decode bo s = Inr bs) \<longleftrightarrow>
    set s \<subseteq> set base64_alphabet \<and> length s mod 4 \<noteq> 1"
  using assms
proof (induction "length s" arbitrary: s rule: less_induct)
  case less
  show ?case
  proof (cases s)
    case Nil
    then show ?thesis by simp
  next
    case (Cons c cs)
    have np: "CHR ''='' \<notin> set (take 4 s)" "CHR ''='' \<notin> set (drop 4 s)"
      using less.prems by (auto dest: in_set_takeD in_set_dropD)
    have dec: "(\<exists>bs. base64_decode bo s = Inr bs) \<longleftrightarrow>
        (\<exists>v. base64_decode_chunk (pad_chunk (take 4 s)) = Inr v) \<and>
        (\<exists>bs. base64_decode bo (drop 4 s) = Inr bs)"
      unfolding Cons base64_decode_Cons by (auto simp: bind_res_Inr_iff)
    have "set s = set (take 4 s) \<union> set (drop 4 s)"
      by (metis append_take_drop_id set_append)
    moreover have "length s mod 4 \<noteq> 1 \<longleftrightarrow> length (take 4 s) \<noteq> 1 \<and> length (drop 4 s) mod 4 \<noteq> 1"
      by (rule mod_four_chunk)
    ultimately show ?thesis
      using dec decode_chunk_ok [OF np(1)] less.hyps [OF _ np(2)] Cons by auto
  qed
qed

lemma base64_decode_unpadded_ok_iff_example:
  "(\<exists>bs. base64_decode little_endian ''QUJD'' = Inr bs) \<and>
   \<not> (\<exists>bs. base64_decode little_endian ''QUJDb'' = Inr bs)"
proof -
  have "CHR ''='' \<notin> set ''QUJD''" "CHR ''='' \<notin> set ''QUJDb''" by simp_all
  moreover have "set ''QUJD'' \<subseteq> set base64_alphabet" by code_simp
  ultimately show ?thesis
    using base64_decode_unpadded_ok_iff [of "''QUJD''" little_endian]
      base64_decode_unpadded_ok_iff [of "''QUJDb''" little_endian] by simp
qed

text \<open>
  A final chunk that starts with the padding character decodes to three zero bytes, where
  there is no data: \<open>"===="\<close> gives \<open>[0, 0, 0]\<close>, because a chunk with no characters before the
  padding falls into the branch for four characters.
\<close>

lemma base64_padding_only_chunk_gives_zeros:
  "length cs \<le> 3 \<Longrightarrow> base64_decode bo (CHR ''='' # cs) = Inr [0, 0, 0]"
  by (simp add: base64_decode_Cons pad_chunk_def base64_decode_chunk_def decoded_bytes_def
      begin_bytes Let_def)

lemma base64_padding_only_chunk_gives_zeros_example:
  "length ''==='' \<le> 3 \<and> base64_decode little_endian ''===='' = Inr [0, 0, 0]"
  using base64_padding_only_chunk_gives_zeros [of "''===''" little_endian] by simp

end
