(* ===== verification/Frame_Time.thy ===== *)
theory Frame_Time
  imports Errors
begin

text \<open>
  Durations: \<open>FrameTime\<close> (\<open>src/utils/frame_time.cpp\<close>), whose nanoseconds are a 64-bit word, the
  single-precision arithmetic its frame rate is computed in, and the stopwatch \<open>Elapsed\<close>
  (\<open>src/utils/elapsed.cpp\<close>), which reads the steady clock. A \<open>float\<close> is a pair of a 24-bit
  significand and an exponent; operations round to nearest, ties to even, as IEEE 754 does in
  the range that occurs (the values here lie between 1 and 2^64, far from overflow and from
  subnormal numbers).
\<close>

section \<open>Single-precision floating point\<close>

type_synonym f32 = "int \<times> int"

function ilog2 :: "int \<Rightarrow> int" where
  "ilog2 n = (if n < 2 then 0 else 1 + ilog2 (n div 2))"
  by pat_completeness auto
termination
  by (relation "measure nat") auto

declare ilog2.simps [simp del]

definition div_round_even :: "int \<Rightarrow> int \<Rightarrow> int" where
  "div_round_even n d =
     (let q = n div d; r = n mod d
      in if 2 * r < d then q else if 2 * r > d then q + 1 else if even q then q else q + 1)"

text \<open>
  The fraction \<open>n / d\<close> scaled by a power of two, and the float nearest to it: the first
  exponent tried may be one too large, because the logarithms are rounded down.
\<close>

definition scale_frac :: "int \<Rightarrow> int \<Rightarrow> int \<Rightarrow> int \<times> int" where
  "scale_frac n d e = (if e \<ge> 0 then (n, d * 2 ^ nat e) else (n * 2 ^ nat (- e), d))"

definition f32_exponent :: "int \<Rightarrow> int \<Rightarrow> int" where
  "f32_exponent n d =
     (let e = ilog2 n - ilog2 d - 23; (a, b) = scale_frac n d e
      in if a div b < 2 ^ 23 then e - 1 else e)"

definition f32_of_frac :: "int \<Rightarrow> int \<Rightarrow> f32" where
  "f32_of_frac n d =
     (if n = 0 then (0, 0)
      else let e = f32_exponent n d; (a, b) = scale_frac n d e; m = div_round_even a b
           in if m = 2 ^ 24 then (2 ^ 23, e + 1) else (m, e))"

definition f32_of_int :: "int \<Rightarrow> f32" where
  "f32_of_int n = f32_of_frac n 1"

text \<open>Division; \<open>None\<close> is division by zero, whose result is no finite number.\<close>

definition f32_div :: "f32 \<Rightarrow> f32 \<Rightarrow> f32 option" where
  "f32_div x y = (case (x, y) of ((m, e), (k, f)) \<Rightarrow>
     if k = 0 then None
     else let (a, b) = scale_frac m k (f - e) in Some (f32_of_frac a b))"

definition f32_mul :: "f32 \<Rightarrow> f32 \<Rightarrow> f32" where
  "f32_mul x y = (case (x, y) of ((m, e), (k, f)) \<Rightarrow>
     let (a, b) = scale_frac (m * k) 1 (- (e + f)) in f32_of_frac a b)"

text \<open>Conversion to an integer: towards zero, defined when the result fits.\<close>

definition f32_truncate :: "f32 \<Rightarrow> int" where
  "f32_truncate x = (case x of (m, e) \<Rightarrow> if e \<ge> 0 then m * 2 ^ nat e else m div 2 ^ nat (- e))"

definition f32_to_int :: "f32 \<Rightarrow> int option" where
  "f32_to_int x = (if f32_truncate x < 2 ^ 31 then Some (f32_truncate x) else None)"

definition f32_to_u64 :: "f32 \<Rightarrow> u64 option" where
  "f32_to_u64 x = (if f32_truncate x < 2 ^ 64 then Some (of_int (f32_truncate x)) else None)"

section \<open>FrameTime\<close>

record frame_time =
  frame_time_nanoseconds :: u64

definition kNsPerSec :: u64 where "kNsPerSec = 1000000000"
definition kNsPerMs :: u64 where "kNsPerMs = 1000000"
definition kRound :: u64 where "kRound = kNsPerMs div 2"

definition FrameTime :: "u64 \<Rightarrow> frame_time" where
  "FrameTime ns = \<lparr>frame_time_nanoseconds = ns\<rparr>"

definition ft_value :: "frame_time \<Rightarrow> u64" where
  "ft_value ft = frame_time_nanoseconds ft"

definition value_in_milliseconds :: "frame_time \<Rightarrow> u64" where
  "value_in_milliseconds ft = (frame_time_nanoseconds ft + kRound) div kNsPerMs"

definition fps :: "frame_time \<Rightarrow> f32 option" where
  "fps ft = f32_div (f32_of_int (uint kNsPerSec)) (f32_of_int (uint (frame_time_nanoseconds ft)))"

definition fps_ratio :: "frame_time \<Rightarrow> (int \<times> int) option" where
  "fps_ratio ft = do { f \<leftarrow> fps ft; i \<leftarrow> f32_to_int f; Some (1, i) }"

definition truncate_to_millisecond :: "frame_time \<Rightarrow> frame_time" where
  "truncate_to_millisecond ft = (let in_ms = ft_value ft div kNsPerMs in FrameTime (in_ms * kNsPerMs))"

text \<open>Integer division by zero has no defined behaviour.\<close>

definition from_fps :: "u32 \<Rightarrow> frame_time option" where
  "from_fps f = (if f = 0 then None else Some (FrameTime (kNsPerSec div ucast f)))"

section \<open>Elapsed\<close>

text \<open>The clock's readings are nanoseconds; the difference of two readings is converted to
  milliseconds towards zero and then to an unsigned word.\<close>

record elapsed =
  start_ns :: int

definition elapsed_reset :: "int \<Rightarrow> elapsed \<Rightarrow> elapsed" where
  "elapsed_reset now e = e\<lparr>start_ns := now\<rparr>"

definition elapsed_value :: "int \<Rightarrow> elapsed \<Rightarrow> u64" where
  "elapsed_value now e =
     (let d = now - start_ns e in of_int (if d \<ge> 0 then d div 1000000 else - ((- d) div 1000000)))"

definition nanosecond_value :: "int \<Rightarrow> elapsed \<Rightarrow> u64" where
  "nanosecond_value now e = of_int (now - start_ns e)"

section \<open>Lemmas\<close>

lemmas ft_defs = FrameTime_def ft_value_def kNsPerSec_def kNsPerMs_def kRound_def

lemma u64_unsigned_arith:
  fixes a b :: u64
  shows "unat (a div b) = unat a div unat b" "unat a + unat b < 2 ^ 64 \<Longrightarrow> unat (a + b) = unat a + unat b"
    "unat a * unat b < 2 ^ 64 \<Longrightarrow> unat (a * b) = unat a * unat b"
  by (simp_all add: unat_div unat_word_ariths)

lemma div_mult_bound: "n div d * d \<le> (n :: nat)"
  by simp

section \<open>Properties\<close>

text \<open>The rates whose quotient is rounded below the rate, found by evaluation.\<close>

definition rate_error :: "int \<Rightarrow> int" where
  "rate_error n = (if n \<in> {29, 51, 58} then 1 else 0)"

definition ratio_is :: "int \<Rightarrow> bool" where
  "ratio_is n = (map_option fps_ratio (from_fps (of_int n)) = Some (Some (1, n - rate_error n)))"

lemma ratios_computed: "list_all ratio_is [20..70]"
  by code_simp

text \<open>
  The time base of the video stream. For every frame rate the command line accepts (20 to
  70), the frame time computed from the rate gives back a time base of one over the rate,
  although the frame time and the single-precision quotient are both rounded; the exceptions
  are 29, 51 and 58 frames per second, where rounding puts the quotient just below the rate and
  the conversion to an integer makes it one less.
\<close>

lemma fps_ratio_of_accepted_rate:
  assumes "20 \<le> n" "n \<le> 70"
  shows "\<exists>ft. from_fps (of_int n) = Some ft \<and>
    fps_ratio ft = Some (1, if n \<in> {29, 51, 58} then n - 1 else n)"
proof -
  have "n \<in> set [20..70]" unfolding set_upto using assms by simp
  with ratios_computed have "ratio_is n" unfolding list_all_iff by (rule bspec)
  then show ?thesis by (auto simp: ratio_is_def rate_error_def split: if_splits)
qed

lemma fps_ratio_of_accepted_rate_example:
  "(\<exists>ft. from_fps 60 = Some ft \<and> fps_ratio ft = Some (1, 60)) \<and>
   (\<exists>ft. from_fps 58 = Some ft \<and> fps_ratio ft = Some (1, 57))"
  using fps_ratio_of_accepted_rate [of 60] fps_ratio_of_accepted_rate [of 58] by simp

text \<open>
  Frame times in milliseconds: truncation gives the largest whole number of milliseconds
  that is not longer than the frame time, and rounding is at most half a millisecond away, for
  every duration below 2^64 - 500000 nanoseconds, where the sum does not wrap.
\<close>

lemma frame_time_milliseconds:
  assumes "unat (ft_value ft) + 500000 < 2 ^ 64"
  shows "unat (ft_value (truncate_to_millisecond ft)) = 1000000 * (unat (ft_value ft) div 1000000) \<and>
    1000000 * unat (value_in_milliseconds ft) \<le> unat (ft_value ft) + 500000 \<and>
    unat (ft_value ft) < 1000000 * unat (value_in_milliseconds ft) + 500000"
proof -
  let ?n = "unat (frame_time_nanoseconds ft)"
  have n: "?n + 500000 < 2 ^ 64" using assms by (simp add: ft_value_def)
  have t: "unat (ft_value (truncate_to_millisecond ft)) = ?n div 1000000 * 1000000"
    using n div_mult_bound [of ?n 1000000]
    by (simp add: truncate_to_millisecond_def ft_defs Let_def u64_unsigned_arith)
  have v: "unat (value_in_milliseconds ft) = (?n + 500000) div 1000000"
    using n by (simp add: value_in_milliseconds_def ft_defs u64_unsigned_arith)
  show ?thesis
    unfolding t v using assms by (simp add: ft_value_def)
qed

lemma frame_time_milliseconds_example:
  "unat (ft_value (FrameTime 16666666)) + 500000 < 2 ^ 64 \<and>
   unat (ft_value (truncate_to_millisecond (FrameTime 16666666))) = 16000000"
  using frame_time_milliseconds [of "FrameTime 16666666"] by (simp add: FrameTime_def ft_value_def)

end
