(* ===== verification/Ownership.thy ===== *)
theory Ownership
  imports Errors
begin

text \<open>
  The move-only owners of the program. \<open>sc::Receiver\<close>, \<open>sc::UnixSocket\<close>, \<open>sc::Process\<close> and
  \<open>opengl::ObjectBase\<close> are written to one pattern: a move constructor that takes the resource
  and leaves the source empty, a member-wise \<open>swap\<close>, a move assignment that moves the source into a
  temporary, swaps it with the target and lets the temporary be destroyed, and a destructor
  that releases what is owned. The locale states what a class promises; its lemmas show once,
  for every program over variables of such a class, that nothing is released twice and
  nothing is lost.
\<close>

section \<open>Variables that hold owners\<close>

record ('h, 'r) owners =
  vars :: "nat \<Rightarrow> 'h option"
  live :: "'r set"

text \<open>
  Move assignment: \<open>auto tmp { std::move(other) }; swap(*this, tmp);\<close> and the destructor of
  \<open>tmp\<close>. The two sides may be the same variable.
\<close>

definition move_assign_with ::
  "('h \<Rightarrow> 'h \<times> 'h) \<Rightarrow> ('h \<Rightarrow> 'h \<Rightarrow> 'h \<times> 'h) \<Rightarrow> ('h \<Rightarrow> 'r set \<Rightarrow> 'r set option) \<Rightarrow>
   nat \<Rightarrow> nat \<Rightarrow> ('h, 'r) owners \<Rightarrow> ('h, 'r) owners option" where
  "move_assign_with mv sw destruct x y st = do {
     other \<leftarrow> vars st y;
     let (tmp, other') = mv other;
     let vs = (vars st)(y \<mapsto> other');
     this \<leftarrow> vs x;
     let (this', tmp') = sw this tmp;
     l \<leftarrow> destruct tmp' (live st);
     Some (st\<lparr>vars := vs(x \<mapsto> this'), live := l\<rparr>) }"

datatype ('h, 'r) owner_op =
    Construct nat 'h 'r
  | DefaultConstruct nat
  | MoveConstruct nat nat
  | MoveAssign nat nat
  | Destruct nat

fun owner_step ::
  "'h \<Rightarrow> ('h \<Rightarrow> 'h \<times> 'h) \<Rightarrow> (nat \<Rightarrow> nat \<Rightarrow> ('h, 'r) owners \<Rightarrow> ('h, 'r) owners option) \<Rightarrow>
   ('h \<Rightarrow> 'r set \<Rightarrow> 'r set option) \<Rightarrow>
   ('h, 'r) owner_op \<Rightarrow> ('h, 'r) owners \<Rightarrow> ('h, 'r) owners option" where
  "owner_step e mv asg destruct (Construct x h r) st =
     Some (st\<lparr>vars := (vars st)(x \<mapsto> h), live := insert r (live st)\<rparr>)"
| "owner_step e mv asg destruct (DefaultConstruct x) st = Some (st\<lparr>vars := (vars st)(x \<mapsto> e)\<rparr>)"
| "owner_step e mv asg destruct (MoveConstruct x y) st = do {
     h \<leftarrow> vars st y;
     let (new, old) = mv h;
     Some (st\<lparr>vars := (vars st)(y \<mapsto> old, x \<mapsto> new)\<rparr>) }"
| "owner_step e mv asg destruct (MoveAssign x y) st = asg x y st"
| "owner_step e mv asg destruct (Destruct x) st = do {
     h \<leftarrow> vars st x;
     l \<leftarrow> destruct h (live st);
     Some (st\<lparr>vars := (vars st)(x := None), live := l\<rparr>) }"

text \<open>
  What the language allows: a new variable has a new name, a resource is adopted from whoever
  created it (so it is new too), and only live variables are moved from, assigned or destroyed.
\<close>

fun allowed :: "('h \<Rightarrow> bool) \<Rightarrow> ('h \<Rightarrow> 'r option) \<Rightarrow> ('h, 'r) owner_op \<Rightarrow> ('h, 'r) owners \<Rightarrow> bool" where
  "allowed ok owned (Construct x h r) st \<longleftrightarrow> vars st x = None \<and> r \<notin> live st \<and> ok h \<and> owned h = Some r"
| "allowed ok owned (DefaultConstruct x) st \<longleftrightarrow> vars st x = None"
| "allowed ok owned (MoveConstruct x y) st \<longleftrightarrow> vars st x = None \<and> vars st y \<noteq> None"
| "allowed ok owned (MoveAssign x y) st \<longleftrightarrow> vars st x \<noteq> None \<and> vars st y \<noteq> None"
| "allowed ok owned (Destruct x) st \<longleftrightarrow> vars st x \<noteq> None"

text \<open>A step of a program that keeps to the rules.\<close>

definition checked ::
  "('h \<Rightarrow> bool) \<Rightarrow> ('h \<Rightarrow> 'r option) \<Rightarrow> (('h, 'r) owner_op \<Rightarrow> ('h, 'r) owners \<Rightarrow> ('h, 'r) owners option) \<Rightarrow>
   ('h, 'r) owner_op \<Rightarrow> ('h, 'r) owners \<Rightarrow> ('h, 'r) owners option" where
  "checked ok owned step x st = (if allowed ok owned x st then step x st else Some st)"

definition holds :: "('h \<Rightarrow> 'r option) \<Rightarrow> ('h, 'r) owners \<Rightarrow> nat \<Rightarrow> 'r option" where
  "holds owned st x = Option.bind (vars st x) owned"

text \<open>Every live resource has exactly one holder, and nothing else is held.\<close>

definition held_once :: "(nat \<Rightarrow> 'r option) \<Rightarrow> 'r set \<Rightarrow> bool" where
  "held_once H R \<longleftrightarrow> R = ran H \<and> (\<forall>x y r. H x = Some r \<longrightarrow> H y = Some r \<longrightarrow> x = y)"

definition owners_inv :: "('h \<Rightarrow> bool) \<Rightarrow> ('h \<Rightarrow> 'r option) \<Rightarrow> ('h, 'r) owners \<Rightarrow> bool" where
  "owners_inv ok owned st \<longleftrightarrow> held_once (holds owned st) (live st) \<and> (\<forall>h \<in> ran (vars st). ok h)"

lemma held_onceI:
  assumes "\<And>r. r \<in> R \<Longrightarrow> \<exists>x. H x = Some r" "\<And>x r. H x = Some r \<Longrightarrow> r \<in> R"
    "\<And>x y r. H x = Some r \<Longrightarrow> H y = Some r \<Longrightarrow> x = y"
  shows "held_once H R"
  using assms unfolding held_once_def ran_def by blast

lemma held_onceE:
  assumes "held_once H R"
  obtains "\<And>r. r \<in> R \<Longrightarrow> \<exists>x. H x = Some r" "\<And>x r. H x = Some r \<Longrightarrow> r \<in> R"
    "\<And>x y r. H x = Some r \<Longrightarrow> H y = Some r \<Longrightarrow> x = y"
  using assms unfolding held_once_def ran_def by blast

lemma held_once_release:
  assumes "held_once H R"
  shows "held_once (H(x := None)) (R - set_option (H x))"
  using assms
proof (rule held_onceE, intro held_onceI)
  fix r
  assume h: "r \<in> R - set_option (H x)" "\<And>r. r \<in> R \<Longrightarrow> \<exists>x. H x = Some r"
  then obtain z where "H z = Some r" by blast
  moreover have "z \<noteq> x" using h(1) calculation by auto
  ultimately have "(H(x := None)) z = Some r" by simp
  then show "\<exists>z. (H(x := None)) z = Some r" ..
qed (auto split: if_splits)

lemma held_once_adopt:
  assumes "held_once H R" "H x = None" "r \<notin> R"
  shows "held_once (H(x \<mapsto> r)) (insert r R)"
  using assms(1)
proof (rule held_onceE, intro held_onceI)
  fix q
  assume h: "q \<in> insert r R" "\<And>r. r \<in> R \<Longrightarrow> \<exists>x. H x = Some r"
  show "\<exists>z. (H(x \<mapsto> r)) z = Some q"
  proof (cases "q = r")
    case False
    then obtain z where "H z = Some q" using h by blast
    then have "(H(x \<mapsto> r)) z = Some q" using assms(2) by auto
    then show ?thesis ..
  qed auto
qed (use assms in \<open>auto split: if_splits\<close>)

lemma held_once_transfer:
  assumes "held_once H R" "H x = None" "x \<noteq> y"
  shows "held_once (H(y := None, x := H y)) R"
  using assms(1)
proof (rule held_onceE, intro held_onceI)
  fix q
  assume h: "q \<in> R" "\<And>r. r \<in> R \<Longrightarrow> \<exists>x. H x = Some r"
  then obtain z where z: "H z = Some q" by blast
  have "(H(y := None, x := H y)) (if z = y then x else z) = Some q"
    using z assms(2,3) by auto
  then show "\<exists>z. (H(y := None, x := H y)) z = Some q" ..
next
  fix a b q
  assume "(H(y := None, x := H y)) a = Some q" "(H(y := None, x := H y)) b = Some q"
    "\<And>x y r. H x = Some r \<Longrightarrow> H y = Some r \<Longrightarrow> x = y"
  then show "a = b" using assms(3) by (auto split: if_splits)
qed (auto split: if_splits)

lemma held_once_member: "held_once H R \<Longrightarrow> set_option (H x) \<subseteq> R"
  by (auto simp: held_once_def ran_def)

lemma no_owners_inv: "owners_inv ok owned \<lparr>vars = Map.empty, live = {}\<rparr>"
  by (auto simp: owners_inv_def held_once_def holds_def ran_def)

section \<open>The contract of an owner\<close>

locale owning_handle =
  fixes empty :: 'h
    and ok :: "'h \<Rightarrow> bool"
    and owned :: "'h \<Rightarrow> 'r option"
    and move :: "'h \<Rightarrow> 'h \<times> 'h"
    and swap :: "'h \<Rightarrow> 'h \<Rightarrow> 'h \<times> 'h"
    and destruct :: "'h \<Rightarrow> 'r set \<Rightarrow> 'r set option"
  assumes owned_empty: "owned empty = None"
    and owned_move: "owned (fst (move h)) = owned h" "owned (snd (move h)) = None"
    and owned_swap: "owned (fst (swap a b)) = owned b" "owned (snd (swap a b)) = owned a"
    and ok_empty: "ok empty"
    and ok_move: "ok h \<Longrightarrow> ok (fst (move h)) \<and> ok (snd (move h))"
    and ok_swap: "ok a \<Longrightarrow> ok b \<Longrightarrow> ok (fst (swap a b)) \<and> ok (snd (swap a b))"
    and destruct_releases: "ok h \<Longrightarrow> owned h = Some r \<Longrightarrow> r \<in> R \<Longrightarrow> destruct h R = Some (R - {r})"
    and destruct_empty: "ok h \<Longrightarrow> owned h = None \<Longrightarrow> destruct h R = Some R"
begin

abbreviation assign :: "nat \<Rightarrow> nat \<Rightarrow> ('h, 'r) owners \<Rightarrow> ('h, 'r) owners option" where
  "assign \<equiv> move_assign_with move swap destruct"

abbreviation step :: "('h, 'r) owner_op \<Rightarrow> ('h, 'r) owners \<Rightarrow> ('h, 'r) owners option" where
  "step \<equiv> owner_step empty move assign destruct"

text \<open>Destroying an object that is not among the variables any more.\<close>

definition lost :: "'h \<Rightarrow> 'r set" where
  "lost h = set_option (owned h)"

lemma destruct_ok: "ok h \<Longrightarrow> lost h \<subseteq> R \<Longrightarrow> destruct h R = Some (R - lost h)"
  by (cases "owned h") (auto simp: lost_def destruct_releases destruct_empty)

lemma holds_upd: "holds owned (st\<lparr>vars := f, live := l\<rparr>) x = Option.bind (f x) owned"
  by (simp add: holds_def)

lemma holds_upd_vars: "holds owned (st\<lparr>vars := f\<rparr>) x = Option.bind (f x) owned"
  by (simp add: holds_def)

lemma inv_okD: "owners_inv ok owned st \<Longrightarrow> vars st x = Some h \<Longrightarrow> ok h"
  by (auto simp: owners_inv_def ran_def)

lemma inv_heldD: "owners_inv ok owned st \<Longrightarrow> held_once (holds owned st) (live st)"
  by (simp add: owners_inv_def)

lemma inv_lost: "owners_inv ok owned st \<Longrightarrow> vars st x = Some h \<Longrightarrow> lost h \<subseteq> live st"
  using held_once_member [of "holds owned st" "live st" x]
  by (auto simp: owners_inv_def lost_def holds_def)

lemma inv_released:
  assumes "owners_inv ok owned st" "vars st x = Some h"
  shows "held_once ((holds owned st)(x := None)) (live st - lost h)"
  using held_once_release [OF inv_heldD [OF assms(1)], of x] assms(2)
  by (simp add: lost_def holds_def)

lemma ran_updD: "h \<in> ran (f(x := v)) \<Longrightarrow> h \<in> ran f \<or> v = Some h"
  by (auto simp: ran_def split: if_splits)

text \<open>The effect of a move assignment on what the variables hold.\<close>

lemma assign_self:
  assumes inv: "owners_inv ok owned st" and y: "vars st y = Some hy"
  shows "\<exists>st'. assign y y st = Some st' \<and> owners_inv ok owned st'"
proof -
  obtain tmp old where mv: "move hy = (tmp, old)" by (cases "move hy")
  obtain this tmp' where sw: "swap old tmp = (this, tmp')" by (cases "swap old tmp")
  have k: "ok tmp" "ok old" "ok this" "ok tmp'"
    using ok_move [OF inv_okD [OF inv y]] ok_swap [of old tmp] mv sw by simp_all
  have o: "owned this = owned hy" "owned tmp' = None"
    using owned_move [of hy] owned_swap [of old tmp] mv sw by simp_all
  let ?st = "st\<lparr>vars := (vars st)(y \<mapsto> this)\<rparr>"
  have "assign y y st = Some ?st"
    using y mv sw o k by (simp add: move_assign_with_def destruct_empty)
  moreover have "holds owned ?st = holds owned st"
    using y o by (auto simp: fun_eq_iff holds_def)
  ultimately show ?thesis
    using inv k by (auto simp: owners_inv_def dest!: ran_updD)
qed

lemma assign_other:
  assumes inv: "owners_inv ok owned st" and x: "vars st x = Some hx" and y: "vars st y = Some hy"
    and xy: "x \<noteq> y"
  shows "\<exists>st'. assign x y st = Some st' \<and> owners_inv ok owned st'"
proof -
  obtain tmp old where mv: "move hy = (tmp, old)" by (cases "move hy")
  obtain this tmp' where sw: "swap hx tmp = (this, tmp')" by (cases "swap hx tmp")
  have k: "ok tmp" "ok old" "ok this" "ok tmp'"
    using ok_move [OF inv_okD [OF inv y]] ok_swap [OF inv_okD [OF inv x], of tmp] mv sw
    by simp_all
  have o: "owned this = owned hy" "owned tmp' = owned hx" "owned old = None"
    using owned_move [of hy] owned_swap [of hx tmp] mv sw by simp_all
  let ?st = "st\<lparr>vars := (vars st)(y \<mapsto> old, x \<mapsto> this), live := live st - lost hx\<rparr>"
  have "destruct tmp' (live st) = Some (live st - lost hx)"
    using inv_lost [OF inv x] destruct_ok [OF k(4)] o by (simp add: lost_def)
  then have "assign x y st = Some ?st"
    using x y xy mv sw by (simp add: move_assign_with_def)
  moreover have "holds owned ?st =
      ((holds owned st)(x := None))(y := None, x := ((holds owned st)(x := None)) y)"
    using x y xy o by (auto simp: fun_eq_iff holds_def)
  moreover have "held_once (((holds owned st)(x := None))
      (y := None, x := ((holds owned st)(x := None)) y)) (live st - lost hx)"
    using inv_released [OF inv x] xy by (intro held_once_transfer) simp_all
  ultimately show ?thesis
    using inv k by (auto simp: owners_inv_def dest!: ran_updD)
qed

lemma construct_inv:
  assumes inv: "owners_inv ok owned st" and h: "vars st v = None" "r \<notin> live st" "ok h" "owned h = Some r"
  shows "owners_inv ok owned (st\<lparr>vars := (vars st)(v \<mapsto> h), live := insert r (live st)\<rparr>)"
proof -
  have "holds owned (st\<lparr>vars := (vars st)(v \<mapsto> h), live := insert r (live st)\<rparr>) =
      (holds owned st)(v \<mapsto> r)"
    using h by (auto simp: holds_def fun_eq_iff)
  moreover have "holds owned st v = None" using h by (simp add: holds_def)
  ultimately show ?thesis
    using held_once_adopt [OF inv_heldD [OF inv], of v r] inv h
    by (auto simp: owners_inv_def dest!: ran_updD)
qed

lemma default_inv:
  assumes inv: "owners_inv ok owned st" and h: "vars st v = None"
  shows "owners_inv ok owned (st\<lparr>vars := (vars st)(v \<mapsto> empty)\<rparr>)"
proof -
  have "holds owned (st\<lparr>vars := (vars st)(v \<mapsto> empty)\<rparr>) = holds owned st"
    using h by (auto simp: holds_def fun_eq_iff owned_empty)
  then show ?thesis using inv ok_empty by (auto simp: owners_inv_def dest!: ran_updD)
qed

lemma move_inv:
  assumes inv: "owners_inv ok owned st" and h: "vars st v = None" "vars st u = Some h"
    and mv: "move h = (new, old)"
  shows "owners_inv ok owned (st\<lparr>vars := (vars st)(u \<mapsto> old, v \<mapsto> new)\<rparr>)"
proof -
  have vu: "v \<noteq> u" using h by auto
  have o: "owned new = owned h" "owned old = None" using owned_move [of h] mv by simp_all
  have k: "ok new" "ok old" using ok_move [OF inv_okD [OF inv h(2)]] mv by simp_all
  have "holds owned (st\<lparr>vars := (vars st)(u \<mapsto> old, v \<mapsto> new)\<rparr>) =
      (holds owned st)(u := None, v := holds owned st u)"
    using h o vu by (auto simp: holds_def fun_eq_iff)
  moreover have "holds owned st v = None" using h by (simp add: holds_def)
  ultimately show ?thesis
    using held_once_transfer [OF inv_heldD [OF inv], of v u] inv vu k
    by (auto simp: owners_inv_def dest!: ran_updD)
qed

lemma destruct_inv:
  assumes inv: "owners_inv ok owned st" and h: "vars st v = Some h"
  shows "destruct h (live st) = Some (live st - lost h) \<and>
    owners_inv ok owned (st\<lparr>vars := (vars st)(v := None), live := live st - lost h\<rparr>)"
proof -
  have "holds owned (st\<lparr>vars := (vars st)(v := None), live := live st - lost h\<rparr>) =
      (holds owned st)(v := None)"
    by (auto simp: holds_def fun_eq_iff)
  then show ?thesis
    using inv_released [OF inv h] destruct_ok [OF inv_okD [OF inv h] inv_lost [OF inv h]] inv
    by (auto simp: owners_inv_def dest!: ran_updD)
qed

lemma checked_total:
  assumes inv: "owners_inv ok owned st"
  shows "\<exists>st'. checked ok owned step x st = Some st' \<and> owners_inv ok owned st'"
proof (cases "allowed ok owned x st")
  case False
  then show ?thesis using inv by (simp add: checked_def)
next
  case True
  show ?thesis
  proof (cases x)
    case (Construct v h r)
    with True construct_inv [OF inv, of v r h] show ?thesis by (auto simp: checked_def)
  next
    case (DefaultConstruct v)
    with True default_inv [OF inv, of v] show ?thesis by (auto simp: checked_def)
  next
    case (MoveConstruct v u)
    with True obtain h where h: "vars st v = None" "vars st u = Some h" by auto
    obtain new old where mv: "move h = (new, old)" by (cases "move h")
    from move_inv [OF inv h mv] True MoveConstruct h mv show ?thesis by (simp add: checked_def)
  next
    case (MoveAssign v u)
    with True obtain hv hu where h: "vars st v = Some hv" "vars st u = Some hu" by auto
    from assign_self [OF inv, of u hu] assign_other [OF inv h] h show ?thesis
      using True MoveAssign by (cases "v = u") (auto simp: checked_def)
  next
    case (Destruct v)
    with True obtain h where h: "vars st v = Some h" by auto
    from destruct_inv [OF inv h] True Destruct h show ?thesis by (simp add: checked_def)
  qed
qed

sublocale runs_safely: total_machine "checked ok owned step" "owners_inv ok owned"
proof
  fix s s' x
  assume "owners_inv ok owned s" "checked ok owned step x s = Some s'"
  with checked_total [of s x] show "owners_inv ok owned s'" by auto
next
  fix s x
  assume "owners_inv ok owned s"
  with checked_total [of s x] show "\<exists>s'. checked ok owned step x s = Some s'" by auto
qed

lemmas never_released_twice = runs_safely.run_total

lemma nothing_lost:
  assumes "owners_inv ok owned st" "vars st = Map.empty"
  shows "live st = {}"
  using assms by (simp add: owners_inv_def held_once_def holds_def ran_def)

end

end
