(* ===== verification/Effects.thy ===== *)
theory Effects
  imports Errors
begin

text \<open>
  Code whose work is calls to the kernel and to libraries outside the repository. A call is an
  event; the world answers a call from the whole history of events up to and including it, so
  every deterministic behaviour of the outside is a world, and a theorem for all worlds is a
  theorem for every sequence of answers. Code returns, throws, or ends the process
  (\<open>std::terminate\<close>, a failed contract); in each case the history it leaves is part of the
  result, so that what was acquired and released can be read from it. \<open>guarded\<close> is
  \<open>sc::ScopeGuard\<close> (\<open>src/utils/scope_guard.hpp\<close>): its function runs when the scope ends by
  returning and when it ends by an exception.
\<close>

section \<open>Programs over a history of calls\<close>

datatype 'a outcome = Ret 'a | Exc exn | Abort

text \<open>Code that makes no calls: its outcome alone, with its sequencing.\<close>

fun bind_out :: "'a outcome \<Rightarrow> ('a \<Rightarrow> 'b outcome) \<Rightarrow> 'b outcome" where
  "bind_out (Ret x) f = f x"
| "bind_out (Exc e) f = Exc e"
| "bind_out Abort f = Abort"

fun noexcept_out :: "'a outcome \<Rightarrow> 'a outcome" where
  "noexcept_out (Exc e) = Abort"
| "noexcept_out r = r"

lemma bind_out_Ret_iff: "bind_out r f = Ret y \<longleftrightarrow> (\<exists>x. r = Ret x \<and> f x = Ret y)"
  by (cases r) auto

lemma bind_out_Abort_iff: "bind_out r f = Abort \<longleftrightarrow> r = Abort \<or> (\<exists>x. r = Ret x \<and> f x = Abort)"
  by (cases r) auto

lemma bind_out_Exc_iff: "bind_out r f = Exc e \<longleftrightarrow> r = Exc e \<or> (\<exists>x. r = Ret x \<and> f x = Exc e)"
  by (cases r) auto

type_synonym ('w, 'c, 'a) prog = "'w \<Rightarrow> 'c list \<Rightarrow> 'a outcome \<times> 'c list"

definition ret :: "'a \<Rightarrow> ('w, 'c, 'a) prog" where
  "ret x = (\<lambda>w t. (Ret x, t))"

definition throw :: "exn \<Rightarrow> ('w, 'c, 'a) prog" where
  "throw e = (\<lambda>w t. (Exc e, t))"

definition terminate :: "('w, 'c, 'a) prog" where
  "terminate = (\<lambda>w t. (Abort, t))"

definition bindp :: "('w, 'c, 'a) prog \<Rightarrow> ('a \<Rightarrow> ('w, 'c, 'b) prog) \<Rightarrow> ('w, 'c, 'b) prog" where
  "bindp p f = (\<lambda>w t. case p w t of
       (Ret x, t') \<Rightarrow> f x w t'
     | (Exc e, t') \<Rightarrow> (Exc e, t')
     | (Abort, t') \<Rightarrow> (Abort, t'))"

abbreviation thenp :: "('w, 'c, 'a) prog \<Rightarrow> ('w, 'c, 'b) prog \<Rightarrow> ('w, 'c, 'b) prog" where
  "thenp p q \<equiv> bindp p (\<lambda>_. q)"

text \<open>A call with its answer, read from the world by the selector \<open>f\<close>.\<close>

definition call :: "('w \<Rightarrow> 'c list \<Rightarrow> 'a) \<Rightarrow> 'c \<Rightarrow> ('w, 'c, 'a) prog" where
  "call f c = (\<lambda>w t. (Ret (f w (t @ [c])), t @ [c]))"

definition emit :: "'c \<Rightarrow> ('w, 'c, unit) prog" where
  "emit c = (\<lambda>w t. (Ret (), t @ [c]))"

definition whenp :: "bool \<Rightarrow> ('w, 'c, unit) prog \<Rightarrow> ('w, 'c, unit) prog" where
  "whenp b p = (if b then p else ret ())"

text \<open>
  \<open>SC_EXPECT\<close> (\<open>src/utils/contracts.hpp\<close>): a failed contract is reported on standard error and
  ends the process.
\<close>

definition contract_check_failed :: "('w, 'c, 'a) prog" where
  "contract_check_failed = terminate"

definition sc_expect :: "bool \<Rightarrow> ('w, 'c, unit) prog" where
  "sc_expect b = (if \<not> b then contract_check_failed else ret ())"

fun for_each :: "('x \<Rightarrow> ('w, 'c, unit) prog) \<Rightarrow> 'x list \<Rightarrow> ('w, 'c, unit) prog" where
  "for_each f [] = ret ()"
| "for_each f (x # xs) = bindp (f x) (\<lambda>_. for_each f xs)"

text \<open>A handler for exceptions. The handler says which ones it takes by returning \<open>Some\<close>.\<close>

definition catching :: "('w, 'c, 'a) prog \<Rightarrow> (exn \<Rightarrow> ('w, 'c, 'a) prog option) \<Rightarrow> ('w, 'c, 'a) prog" where
  "catching p h = (\<lambda>w t. case p w t of
       (Exc e, t') \<Rightarrow> (case h e of None \<Rightarrow> (Exc e, t') | Some q \<Rightarrow> q w t')
     | r \<Rightarrow> r)"

text \<open>An exception that leaves a \<open>noexcept\<close> function ends the process.\<close>

definition noexcept :: "('w, 'c, 'a) prog \<Rightarrow> ('w, 'c, 'a) prog" where
  "noexcept p = (\<lambda>w t. case p w t of (Exc e, t') \<Rightarrow> (Abort, t') | r \<Rightarrow> r)"

section \<open>Scope guards\<close>

text \<open>
  The guard object, with the decision whether it is still active when the scope ends. The
  destructor is implicitly \<open>noexcept\<close>, so that an exception of the guard's function ends the
  process. \<open>guarded_unless\<close> is a guard that the body deactivates when its result says so.
\<close>

record 'f scope_guard =
  fn :: 'f
  active :: bool

definition scope_guard :: "'f \<Rightarrow> 'f scope_guard" where
  "scope_guard f = \<lparr>fn = f, active = True\<rparr>"

definition deactivate :: "'f scope_guard \<Rightarrow> 'f scope_guard" where
  "deactivate g = g\<lparr>active := False\<rparr>"

definition destroy_guard :: "('w, 'c, unit) prog scope_guard \<Rightarrow> ('w, 'c, unit) prog" where
  "destroy_guard g = (if active g then noexcept (fn g) else ret ())"

definition finishing :: "('a outcome \<Rightarrow> ('w, 'c, unit) prog) \<Rightarrow> ('w, 'c, 'a) prog \<Rightarrow> ('w, 'c, 'a) prog" where
  "finishing g p = (\<lambda>w t. case p w t of
       (Abort, t') \<Rightarrow> (Abort, t')
     | (r, t') \<Rightarrow> (case g r w t' of (Ret _, t'') \<Rightarrow> (r, t'') | (_, t'') \<Rightarrow> (Abort, t'')))"

definition guarded :: "('w, 'c, unit) prog \<Rightarrow> ('w, 'c, 'a) prog \<Rightarrow> ('w, 'c, 'a) prog" where
  "guarded f p = finishing (\<lambda>_. destroy_guard (scope_guard f)) p"

definition guarded_unless_ret :: "('w, 'c, unit) prog \<Rightarrow> ('w, 'c, 'a) prog \<Rightarrow> ('w, 'c, 'a) prog" where
  "guarded_unless_ret f p = finishing (\<lambda>r. case r of
       Ret _ \<Rightarrow> destroy_guard (deactivate (scope_guard f))
     | _ \<Rightarrow> destroy_guard (scope_guard f)) p"

section \<open>How programs run\<close>

lemmas prog_defs = ret_def throw_def terminate_def bindp_def call_def emit_def whenp_def
  contract_check_failed_def sc_expect_def catching_def noexcept_def

named_theorems prog_run \<open>how the basic programs run from a given history\<close>

lemma ret_run [prog_run]: "ret x w t = (Ret x, t)"
  and throw_run [prog_run]: "throw e w t = (Exc e, t)"
  and terminate_run [prog_run]: "terminate w t = (Abort, t)"
  and call_run [prog_run]: "call f c w t = (Ret (f w (t @ [c])), t @ [c])"
  and emit_run [prog_run]: "emit c w t = (Ret (), t @ [c])"
  and whenp_run [prog_run]: "whenp b p w t = (if b then p w t else (Ret (), t))"
  and sc_expect_run [prog_run]: "sc_expect b w t = (if b then (Ret (), t) else (Abort, t))"
  by (simp_all add: prog_defs)

lemma bindp_run:
  "bindp p f w t = (case fst (p w t) of
       Ret x \<Rightarrow> f x w (snd (p w t))
     | Exc e \<Rightarrow> (Exc e, snd (p w t))
     | Abort \<Rightarrow> (Abort, snd (p w t)))"
  by (cases "p w t") (auto simp: bindp_def split: outcome.splits)

lemma bindp_run_simps:
  "p w t = (Ret x, t') \<Longrightarrow> bindp p f w t = f x w t'"
  "p w t = (Exc e, t') \<Longrightarrow> bindp p f w t = (Exc e, t')"
  "p w t = (Abort, t') \<Longrightarrow> bindp p f w t = (Abort, t')"
  by (simp_all add: bindp_def)

lemma bindp_call_run: "bindp (call g c) f w t = f (g w (t @ [c])) w (t @ [c])"
  and bindp_emit_run: "bindp (emit c) q w t = q () w (t @ [c])"
  and bindp_ret_run: "bindp (ret x) f w t = f x w t"
  by (simp_all add: bindp_def prog_run)

lemma bindp_ret_left: "bindp (ret x) f = f x"
  by (simp add: fun_eq_iff bindp_ret_run)

lemma noexcept_run:
  "noexcept p w t = (case fst (p w t) of Exc e \<Rightarrow> Abort | r \<Rightarrow> r, snd (p w t))"
  by (cases "p w t") (auto simp: noexcept_def split: outcome.splits)

lemma noexcept_run_Ret: "p w t = (Ret x, t') \<Longrightarrow> noexcept p w t = (Ret x, t')"
  by (simp add: noexcept_def)

lemma guarded_run:
  "f w (snd (p w t)) = (Ret (), t'') \<Longrightarrow>
   guarded f p w t = (if fst (p w t) = Abort then p w t else (fst (p w t), t''))"
  by (cases "p w t")
    (auto simp: guarded_def finishing_def destroy_guard_def scope_guard_def noexcept_run_Ret
      split: outcome.splits)

lemma guarded_unless_ret_run:
  "f w (snd (p w t)) = (Ret (), t'') \<Longrightarrow>
   guarded_unless_ret f p w t = (case fst (p w t) of Exc e \<Rightarrow> (Exc e, t'') | _ \<Rightarrow> p w t)"
  by (cases "p w t")
    (auto simp: guarded_unless_ret_def finishing_def destroy_guard_def scope_guard_def
      deactivate_def noexcept_run_Ret prog_run split: outcome.splits)

lemma guarded_unless_ret_Ret: "p w t = (Ret x, t') \<Longrightarrow> guarded_unless_ret f p w t = (Ret x, t')"
  by (simp add: guarded_unless_ret_def finishing_def destroy_guard_def scope_guard_def deactivate_def ret_def)

section \<open>What a program leaves in the history\<close>

text \<open>A predicate on outcomes and new events that holds however the world answers.\<close>

definition runs :: "('w, 'c, 'a) prog \<Rightarrow> ('a outcome \<Rightarrow> 'c list \<Rightarrow> bool) \<Rightarrow> bool" where
  "runs p P \<longleftrightarrow> (\<forall>w t. \<exists>new. snd (p w t) = t @ new \<and> P (fst (p w t)) new)"

lemma runsI:
  "(\<And>w t. \<exists>new. snd (p w t) = t @ new \<and> P (fst (p w t)) new) \<Longrightarrow> runs p P"
  by (simp add: runs_def)

lemma runsD: "runs p P \<Longrightarrow> \<exists>new. snd (p w t) = t @ new \<and> P (fst (p w t)) new"
  by (simp add: runs_def)

lemma runs_weaken: "runs p P \<Longrightarrow> (\<And>r es. P r es \<Longrightarrow> Q r es) \<Longrightarrow> runs p Q"
  unfolding runs_def by meson

lemma runs_ret: "P (Ret x) [] \<Longrightarrow> runs (ret x) P"
  by (simp add: runs_def prog_run)

lemma runs_throw: "P (Exc e) [] \<Longrightarrow> runs (throw e) P"
  by (simp add: runs_def prog_run)

lemma runs_terminate: "P Abort [] \<Longrightarrow> runs terminate P"
  by (simp add: runs_def prog_run)

lemma runs_call: "(\<And>x. P (Ret x) [c]) \<Longrightarrow> runs (call f c) P"
  by (simp add: runs_def prog_run)

lemma runs_emit: "P (Ret ()) [c] \<Longrightarrow> runs (emit c) P"
  by (simp add: runs_def prog_run)

lemma runs_bindp:
  assumes p: "runs p P"
    and ret: "\<And>x es. P (Ret x) es \<Longrightarrow> runs (f x) (\<lambda>r es'. Q r (es @ es'))"
    and exc: "\<And>e es. P (Exc e) es \<Longrightarrow> Q (Exc e) es"
    and abt: "\<And>es. P Abort es \<Longrightarrow> Q Abort es"
  shows "runs (bindp p f) Q"
proof (rule runsI)
  fix w t
  from runsD [OF p, of w t] obtain es where es: "snd (p w t) = t @ es" "P (fst (p w t)) es" by blast
  show "\<exists>new. snd (bindp p f w t) = t @ new \<and> Q (fst (bindp p f w t)) new"
  proof (cases "fst (p w t)")
    case (Ret x)
    with es(2) ret have "runs (f x) (\<lambda>r es'. Q r (es @ es'))" by simp
    from runsD [OF this, of w "t @ es"] Ret es(1) show ?thesis by (auto simp: bindp_run)
  qed (use es exc abt in \<open>auto simp: bindp_run\<close>)
qed

lemma runs_call_bindp:
  "(\<And>x. runs (f x) (\<lambda>r es. Q r (c # es))) \<Longrightarrow> runs (bindp (call g c) f) Q"
  by (rule runs_bindp [where P = "\<lambda>r es. (\<exists>x. r = Ret x) \<and> es = [c]"]) (auto intro: runs_call)

lemma runs_emit_bindp:
  "runs (f ()) (\<lambda>r es. Q r (c # es)) \<Longrightarrow> runs (bindp (emit c) f) Q"
  by (rule runs_bindp [where P = "\<lambda>r es. r = Ret () \<and> es = [c]"]) (auto intro: runs_emit)

lemma runs_if: "(b \<Longrightarrow> runs p P) \<Longrightarrow> (\<not> b \<Longrightarrow> runs q P) \<Longrightarrow> runs (if b then p else q) P"
  by simp

lemma runs_for_each:
  assumes step: "\<And>x. x \<in> set xs \<Longrightarrow> runs (f x) P"
    and nil: "P (Ret ()) []"
    and app: "\<And>r es es'. P (Ret ()) es \<Longrightarrow> P r es' \<Longrightarrow> P r (es @ es')"
  shows "runs (for_each f xs) P"
  using step
proof (induction xs)
  case Nil
  show ?case unfolding for_each.simps by (rule runs_ret) (rule nil)
next
  case (Cons x xs)
  then have IH: "runs (for_each f xs) P" by simp
  show ?case unfolding for_each.simps
  proof (rule runs_bindp [where P = P])
    show "runs (f x) P" using Cons.prems by simp
    show "runs (for_each f xs) (\<lambda>r es'. P r (es @ es'))" if "P (Ret u) es" for u :: unit and es
      using IH that app by (auto elim!: runs_weaken)
  qed auto
qed

text \<open>
  A scope guard runs on both ways out: what its function adds to the history follows what the
  body added, and is missing only when the process ended.
\<close>

lemma runs_guarded:
  assumes p: "runs p (\<lambda>r es. r \<noteq> Abort \<longrightarrow> Q r (es @ fin))"
    and f: "runs f (\<lambda>r es. r = Ret () \<and> es = fin)"
    and abt: "\<And>es. Q Abort es"
  shows "runs (guarded f p) Q"
proof (rule runsI)
  fix w t
  from runsD [OF p, of w t] obtain es where es: "snd (p w t) = t @ es"
    "fst (p w t) \<noteq> Abort \<longrightarrow> Q (fst (p w t)) (es @ fin)" by blast
  from runsD [OF f, of w "t @ es"] have "f w (t @ es) = (Ret (), t @ es @ fin)"
    by (metis append.assoc prod.collapse)
  then have "guarded f p w t = (if fst (p w t) = Abort then p w t else (fst (p w t), t @ es @ fin))"
    using es(1) by (intro guarded_run) simp
  then show "\<exists>new. snd (guarded f p w t) = t @ new \<and> Q (fst (guarded f p w t)) new"
    using es abt by (auto split: if_splits)
qed

lemma runs_guarded_unless_ret:
  assumes p: "runs p P"
    and f: "runs f (\<lambda>r es. r = Ret () \<and> es = fin)"
    and ret: "\<And>x es. P (Ret x) es \<Longrightarrow> Q (Ret x) es"
    and exc: "\<And>e es. P (Exc e) es \<Longrightarrow> Q (Exc e) (es @ fin)"
    and abt: "\<And>es. P Abort es \<Longrightarrow> Q Abort es"
  shows "runs (guarded_unless_ret f p) Q"
proof (rule runsI)
  fix w t
  from runsD [OF p, of w t] obtain es where es: "snd (p w t) = t @ es" "P (fst (p w t)) es" by blast
  from runsD [OF f, of w "t @ es"] have "f w (t @ es) = (Ret (), t @ es @ fin)"
    by (metis append.assoc prod.collapse)
  then have "guarded_unless_ret f p w t = (case fst (p w t) of Exc e \<Rightarrow> (Exc e, t @ es @ fin) | _ \<Rightarrow> p w t)"
    using es(1) by (intro guarded_unless_ret_run) simp
  then show "\<exists>new. snd (guarded_unless_ret f p w t) = t @ new \<and> Q (fst (guarded_unless_ret f p w t)) new"
    using es ret exc abt by (auto split: outcome.splits)
qed

section \<open>Programs that return\<close>

text \<open>A program that returns in a given world, from whatever history.\<close>

definition returns :: "'w \<Rightarrow> ('w, 'c, 'a) prog \<Rightarrow> bool" where
  "returns w p \<longleftrightarrow> (\<forall>t. \<exists>x es. p w t = (Ret x, t @ es))"

lemma returns_bindp: "returns w p \<Longrightarrow> (\<And>x. returns w (f x)) \<Longrightarrow> returns w (bindp p f)"
  unfolding returns_def by (metis append.assoc bindp_run_simps(1))

lemma returns_ret: "returns w (ret x)"
  by (simp add: returns_def prog_run)

lemma returns_call: "returns w (call f c)"
  by (simp add: returns_def prog_run)

lemma returns_call_bindp:
  "(\<And>t. returns w (f (g w t))) \<Longrightarrow> returns w (bindp (call g c) f)"
  unfolding returns_def bindp_call_run by (metis append.assoc)

lemma returns_emit: "returns w (emit c)"
  by (simp add: returns_def prog_run)

lemma returns_for_each: "(\<And>x. returns w (f x)) \<Longrightarrow> returns w (for_each f xs)"
  by (induction xs) (auto intro: returns_ret returns_bindp)

lemma returns_guarded: "returns w f \<Longrightarrow> returns w p \<Longrightarrow> returns w (guarded f p)"
  unfolding returns_def
proof (intro allI)
  fix t
  assume f: "\<forall>t. \<exists>x es. f w t = (Ret x, t @ es)" and p: "\<forall>t. \<exists>x es. p w t = (Ret x, t @ es)"
  from p obtain x es where p': "p w t = (Ret x, t @ es)" by blast
  from f [THEN spec, of "t @ es"] obtain u es' where "f w (t @ es) = (Ret u, (t @ es) @ es')" by blast
  then have "f w (snd (p w t)) = (Ret (), t @ es @ es')" using p' by simp
  from guarded_run [of f w p t, OF this] p' show "\<exists>x es. guarded f p w t = (Ret x, t @ es)" by simp
qed

lemma returnsD: "returns w p \<Longrightarrow> \<exists>x es. p w t = (Ret x, t @ es)"
  by (simp add: returns_def)

section \<open>Programs that never end the process\<close>

text \<open>
  \<open>safe w p G\<close>: whatever the world \<open>w\<close> answers, from whatever history, \<open>p\<close> does not end the
  process, throws only what a handler for \<open>std::exception const&\<close> catches, and what it returns
  satisfies \<open>G\<close>.
\<close>

fun well_ended :: "('a \<Rightarrow> bool) \<Rightarrow> 'a outcome \<Rightarrow> bool" where
  "well_ended G (Ret x) = G x"
| "well_ended G (Exc e) = is_std_exception e"
| "well_ended G Abort = False"

definition safe :: "'w \<Rightarrow> ('w, 'c, 'a) prog \<Rightarrow> ('a \<Rightarrow> bool) \<Rightarrow> bool" where
  "safe w p G \<longleftrightarrow> (\<forall>t. well_ended G (fst (p w t)))"

abbreviation always :: "'a \<Rightarrow> bool" where
  "always \<equiv> \<lambda>_. True"

lemma safeD: "safe w p G \<Longrightarrow> well_ended G (fst (p w t))"
  by (simp add: safe_def)

lemma safe_ret: "G x \<Longrightarrow> safe w (ret x) G"
  by (simp add: safe_def prog_run)

lemma safe_throw: "is_std_exception e \<Longrightarrow> safe w (throw e) G"
  by (simp add: safe_def prog_run)

lemma safe_call: "(\<And>x. G x) \<Longrightarrow> safe w (call f c) G"
  by (simp add: safe_def prog_run)

lemma safe_emit: "G () \<Longrightarrow> safe w (emit c) G"
  by (simp add: safe_def prog_run)

lemma safe_bindp:
  assumes p: "safe w p G1" and f: "\<And>x. G1 x \<Longrightarrow> safe w (f x) G"
  shows "safe w (bindp p f) G"
  unfolding safe_def
proof
  fix t
  show "well_ended G (fst (bindp p f w t))"
    using safeD [OF p, of t] by (cases "fst (p w t)") (simp_all add: bindp_run safeD [OF f])
qed

lemma safe_call_bindp: "(\<And>x. safe w (f x) G) \<Longrightarrow> safe w (bindp (call g c) f) G"
  by (simp add: safe_def bindp_call_run)

lemma safe_emit_bindp: "safe w (f ()) G \<Longrightarrow> safe w (bindp (emit c) f) G"
  by (simp add: safe_def bindp_emit_run)

lemma safe_for_each: "(\<And>x. x \<in> set xs \<Longrightarrow> safe w (f x) always) \<Longrightarrow> safe w (for_each f xs) always"
  by (induction xs) (auto intro: safe_ret safe_bindp)

lemmas safe_rules = safe_ret safe_throw safe_call safe_call_bindp safe_emit_bindp

text \<open>Under a guard that never throws.\<close>

lemma safe_guarded:
  assumes f: "\<And>t. fst (f w t) = Ret ()" and p: "safe w p G"
  shows "safe w (guarded f p) G"
  unfolding safe_def
proof
  fix t
  have "f w (snd (p w t)) = (Ret (), snd (f w (snd (p w t))))" using f by (metis prod.collapse)
  from guarded_run [of f w p t, OF this] show "well_ended G (fst (guarded f p w t))"
    using safeD [OF p, of t] by auto
qed

lemma safe_guarded_unless_ret:
  assumes f: "\<And>t. fst (f w t) = Ret ()" and p: "safe w p G"
  shows "safe w (guarded_unless_ret f p) G"
  unfolding safe_def
proof
  fix t
  have "f w (snd (p w t)) = (Ret (), snd (f w (snd (p w t))))" using f by (metis prod.collapse)
  from guarded_unless_ret_run [of f w p t, OF this] show "well_ended G (fst (guarded_unless_ret f p w t))"
    using safeD [OF p, of t] by (auto split: outcome.splits)
qed

lemma fst_for_each_Ret: "(\<And>x w t. fst (f x w t) = Ret ()) \<Longrightarrow> fst (for_each f xs w t) = Ret ()"
  by (induction xs arbitrary: t) (auto simp: ret_run bindp_run)

lemma fst_emit: "fst (emit c w t) = Ret ()"
  by (simp add: emit_run)

end
