(* ===== verification/Utils.thy ===== *)
theory Utils
  imports Ownership Effects
begin

text \<open>
  Small utilities: \<open>Result\<close> (\<open>src/utils/result.hpp\<close>, \<open>result.cpp\<close>), \<open>BorrowedPtr\<close>,
  \<open>NonPointer\<close>, \<open>attach_symbol\<close> (\<open>symbol.hpp\<close>) and the type-erased callback \<open>Receiver\<close>
  (\<open>receiver.hpp\<close>), which owns the storage of its function object. \<open>Receiver\<close> is the first
  interpretation of the contract of an owner.
\<close>

section \<open>Result\<close>

text \<open>
  \<open>Result<R, E>\<close> stores \<open>std::variant<E, R>\<close>: \<open>Inl\<close> is the first alternative. The accessors
  are \<open>noexcept\<close> and use \<open>std::get\<close>, so the wrong alternative ends the process (\<open>None\<close>).
\<close>

type_synonym ('e, 'r) result = "'e + 'r"

definition result_ok :: "'r \<Rightarrow> ('e, 'r) result" where
  "result_ok v = Inr v"

definition result_ok_void :: "('e, unit) result" where
  "result_ok_void = Inr ()"

definition result_error :: "'e \<Rightarrow> ('e, 'r) result" where
  "result_error e = Inl e"

fun is_error_value :: "('e, 'r) result \<Rightarrow> bool" where
  "is_error_value (Inl e) = True"
| "is_error_value (Inr r) = False"

definition is_result_value :: "('e, 'r) result \<Rightarrow> bool" where
  "is_result_value r = (\<not> is_error_value r)"

definition result_bool :: "('e, 'r) result \<Rightarrow> bool" where
  "result_bool r = is_result_value r"

fun get_error :: "('e, 'r) result \<Rightarrow> 'e option" where
  "get_error (Inl e) = Some e"
| "get_error (Inr r) = None"

fun get_value :: "('e, 'r) result \<Rightarrow> 'r option" where
  "get_value (Inl e) = None"
| "get_value (Inr r) = Some r"

text \<open>
  The converting constructors initialise the variant with the other result's variant. For
  \<open>Result<void, E>\<close> the second alternative, \<open>VoidResult\<close>, can be built from a value of any
  type, and the first one, \<open>E\<close>, cannot be built from a variant, so the conversion always
  chooses the second.
\<close>

definition to_void_result :: "('e, 'r) result \<Rightarrow> ('e, unit) result" where
  "to_void_result other = Inr ()"

lemma get_value_iff: "(\<exists>v. get_value r = Some v) \<longleftrightarrow> result_bool r"
  by (cases r) (auto simp: result_bool_def is_result_value_def)

lemma get_error_iff: "(\<exists>e. get_error r = Some e) \<longleftrightarrow> \<not> result_bool r"
  by (cases r) (auto simp: result_bool_def is_result_value_def)

section \<open>Borrowed pointers and integer handles\<close>

definition borrowed_ptr :: "'a option \<Rightarrow> 'a option" where
  "borrowed_ptr p = p"

definition borrowed_bool :: "'a option \<Rightarrow> bool" where
  "borrowed_bool p = (p \<noteq> None)"

definition borrowed_get :: "'a option \<Rightarrow> 'a option" where
  "borrowed_get p = p"

text \<open>\<open>NonPointer<T>\<close>: an unsigned handle whose null value is all ones.\<close>

definition kNull :: "'a::len word" where
  "kNull = - 1"

definition non_pointer :: "'a::len word option \<Rightarrow> 'a word" where
  "non_pointer v = (case v of None \<Rightarrow> kNull | Some x \<Rightarrow> x)"

definition non_pointer_is_null :: "'a::len word \<Rightarrow> bool" where
  "non_pointer_is_null v = (v = kNull)"

text \<open>\<open>attach_symbol\<close>: \<open>dlsym\<close> is the world's answer, a null pointer is 0.\<close>

definition attach_symbol :: "('w \<Rightarrow> 'c list \<Rightarrow> nat) \<Rightarrow> (string \<Rightarrow> 'c) \<Rightarrow> string \<Rightarrow> ('w, 'c, nat) prog" where
  "attach_symbol dlsym ev name = bindp (call dlsym (ev name)) (\<lambda>f.
     if f = 0 then throw (ModuleError (''Couldn't load symbol: '' @ name)) else ret f)"

text \<open>\<open>std::to_string\<close>.\<close>

fun decimal :: "nat \<Rightarrow> string" where
  "decimal n = (if n < 10 then [char_of (48 + n)] else decimal (n div 10) @ [char_of (48 + n mod 10)])"

declare decimal.simps [simp del]

definition to_string :: "int \<Rightarrow> string" where
  "to_string i = (if i < 0 then ''-'' @ decimal (nat (- i)) else decimal (nat i))"

section \<open>Receiver\<close>

text \<open>
  The three pointers of a receiver. The two function pointers name the instantiation (which
  callable type); the storage pointer is 0 when null. The storages live in a map from
  addresses to callables.
\<close>

record receiver =
  dispatch_fn :: "nat option"
  destroy_fn :: "nat option"
  storage :: nat

definition receiver_null :: receiver where
  "receiver_null = \<lparr>dispatch_fn = None, destroy_fn = None, storage = 0\<rparr>"

text \<open>
  \<open>create_\<close>: allocation may fail, and so may the construction of the callable; then the
  protection object gives the memory back.
\<close>

definition receiver_create ::
  "((nat \<Rightarrow> 'c option) \<Rightarrow> nat option) \<Rightarrow> exn + 'c \<Rightarrow> (nat \<Rightarrow> 'c option) \<Rightarrow> (exn + nat) \<times> (nat \<Rightarrow> 'c option)" where
  "receiver_create allocate construct mem = (case allocate mem of
       None \<Rightarrow> (Inl BadAlloc, mem)
     | Some p \<Rightarrow> (case construct of
           Inl e \<Rightarrow> (Inl e, mem(p := None))
         | Inr c \<Rightarrow> (Inr p, mem(p \<mapsto> c))))"

definition receiver_construct ::
  "((nat \<Rightarrow> 'c option) \<Rightarrow> nat option) \<Rightarrow> nat \<Rightarrow> exn + 'c \<Rightarrow> (nat \<Rightarrow> 'c option) \<Rightarrow>
   (exn + receiver) \<times> (nat \<Rightarrow> 'c option)" where
  "receiver_construct allocate ty construct mem = (case receiver_create allocate construct mem of
       (Inl e, mem') \<Rightarrow> (Inl e, mem')
     | (Inr p, mem') \<Rightarrow> (Inr \<lparr>dispatch_fn = Some ty, destroy_fn = Some ty, storage = p\<rparr>, mem'))"

definition receiver_move :: "receiver \<Rightarrow> receiver \<times> receiver" where
  "receiver_move other =
     (\<lparr>dispatch_fn = dispatch_fn other, destroy_fn = destroy_fn other, storage = storage other\<rparr>,
      other\<lparr>dispatch_fn := None, destroy_fn := None, storage := 0\<rparr>)"

definition receiver_swap :: "receiver \<Rightarrow> receiver \<Rightarrow> receiver \<times> receiver" where
  "receiver_swap a b =
     (a\<lparr>dispatch_fn := dispatch_fn b, destroy_fn := destroy_fn b, storage := storage b\<rparr>,
      b\<lparr>dispatch_fn := dispatch_fn a, destroy_fn := destroy_fn a, storage := storage a\<rparr>)"

text \<open>\<open>destroy_\<close> frees the storage; a null function pointer or a freed address is undefined.\<close>

definition receiver_destroy :: "receiver \<Rightarrow> nat set \<Rightarrow> nat set option" where
  "receiver_destroy self R =
     (if destroy_fn self \<noteq> None \<and> storage self \<in> R then Some (R - {storage self}) else None)"

definition receiver_destruct :: "receiver \<Rightarrow> nat set \<Rightarrow> nat set option" where
  "receiver_destruct self R = (if storage self \<noteq> 0 then receiver_destroy self R else Some R)"

definition receiver_assign ::
  "nat \<Rightarrow> nat \<Rightarrow> (receiver, nat) owners \<Rightarrow> (receiver, nat) owners option" where
  "receiver_assign = move_assign_with receiver_move receiver_swap receiver_destruct"

text \<open>\<open>operator()\<close>: the callable runs on the arguments and may change its own state.\<close>

definition receiver_call ::
  "('c \<Rightarrow> 'a \<Rightarrow> 'b \<times> 'c) \<Rightarrow> receiver \<Rightarrow> 'a \<Rightarrow> (nat \<Rightarrow> 'c option) \<Rightarrow> ('b \<times> (nat \<Rightarrow> 'c option)) option" where
  "receiver_call apply self args mem =
     (if storage self \<noteq> 0 \<and> dispatch_fn self \<noteq> None then do {
        c \<leftarrow> mem (storage self);
        let (r, c') = apply c args;
        Some (r, mem(storage self \<mapsto> c')) }
      else None)"

text \<open>What a receiver owns, and the receivers the operations make: all pointers null or none.\<close>

definition receiver_owned :: "receiver \<Rightarrow> nat option" where
  "receiver_owned r = (if storage r \<noteq> 0 then Some (storage r) else None)"

definition receiver_ok :: "receiver \<Rightarrow> bool" where
  "receiver_ok r = ((storage r \<noteq> 0) = (destroy_fn r \<noteq> None) \<and> (storage r \<noteq> 0) = (dispatch_fn r \<noteq> None))"

definition receiver_step :: "(receiver, nat) owner_op \<Rightarrow> (receiver, nat) owners \<Rightarrow> (receiver, nat) owners option" where
  "receiver_step = owner_step receiver_null receiver_move receiver_assign receiver_destruct"

lemmas receiver_defs = receiver_null_def receiver_ok_def receiver_owned_def receiver_move_def
  receiver_swap_def receiver_destruct_def receiver_destroy_def

interpretation recv: owning_handle receiver_null receiver_ok receiver_owned receiver_move
  receiver_swap receiver_destruct
  by unfold_locales (auto simp: receiver_defs split: if_splits)

text \<open>Construction gives a receiver that can be called, and leaks nothing when it throws.\<close>

lemma receiver_construct_cases:
  assumes "\<And>p. allocate mem = Some p \<Longrightarrow> p \<noteq> 0 \<and> mem p = None"
  shows "case receiver_construct allocate ty c mem of
      (Inr r, mem') \<Rightarrow> receiver_ok r \<and> storage r \<noteq> 0 \<and> c = Inr (the (mem' (storage r))) \<and>
        mem' = mem(storage r := mem' (storage r))
    | (Inl e, mem') \<Rightarrow> mem' = mem"
proof (cases "allocate mem")
  case None
  then show ?thesis by (simp add: receiver_construct_def receiver_create_def)
next
  case (Some p)
  with assms have "p \<noteq> 0" "mem p = None" by auto
  then show ?thesis
    using Some by (cases c) (auto simp: receiver_construct_def receiver_create_def receiver_ok_def)
qed

section \<open>Properties\<close>

text \<open>
  (C27) The storage of callbacks. In every program that constructs receivers, moves them, assigns
  them (to themselves too) and destroys them, no storage is freed twice, each live storage has
  exactly one receiver, and when no receiver is left no storage is left either.
\<close>

theorem receiver_storage_freed_once:
  "\<exists>st. run_steps (checked receiver_ok receiver_owned receiver_step) ops
      \<lparr>vars = Map.empty, live = {}\<rparr> = Some st \<and>
    held_once (holds receiver_owned st) (live st) \<and>
    (vars st = Map.empty \<longrightarrow> live st = {})"
proof -
  from recv.never_released_twice [OF no_owners_inv, of ops] obtain st where
    st: "run_steps (checked receiver_ok receiver_owned receiver_step) ops
      \<lparr>vars = Map.empty, live = {}\<rparr> = Some st" "owners_inv receiver_ok receiver_owned st"
    by (auto simp: receiver_step_def receiver_assign_def)
  from recv.nothing_lost [OF st(2)] recv.inv_heldD [OF st(2)] st(1) show ?thesis by auto
qed

definition demo_receiver :: receiver where
  "demo_receiver = \<lparr>dispatch_fn = Some 7, destroy_fn = Some 7, storage = 100\<rparr>"

theorem receiver_storage_freed_once_witness:
  "\<exists>st. run_steps (checked receiver_ok receiver_owned receiver_step)
      [Construct 1 demo_receiver 100, DefaultConstruct 2, MoveAssign 2 1, MoveAssign 2 2,
       Destruct 1, Destruct 2] \<lparr>vars = Map.empty, live = {}\<rparr> = Some st \<and> live st = {}"
proof -
  let ?ops = "[Construct 1 demo_receiver 100, DefaultConstruct 2, MoveAssign 2 1, MoveAssign 2 2,
       Destruct 1, Destruct 2]"
  from receiver_storage_freed_once [of ?ops] obtain st where
    st: "run_steps (checked receiver_ok receiver_owned receiver_step) ?ops
      \<lparr>vars = Map.empty, live = {}\<rparr> = Some st" "vars st = Map.empty \<longrightarrow> live st = {}" by blast
  then have "vars st = Map.empty"
    by (auto simp: checked_def receiver_step_def receiver_assign_def move_assign_with_def
        demo_receiver_def receiver_defs Let_def)
  with st show ?thesis by blast
qed

end
