(* ===== verification/Cmd_Line.thy ===== *)
theory Cmd_Line
  imports Effects Frame_Time
begin

text \<open>
  The command line (\<open>src/utils/cmd_line.hpp\<close>, \<open>cmd_line.cpp\<close>): the option table, the parser of
  short options, the validation of values, the accessors of \<open>CmdLine\<close>, the parameters made from
  them, and the text of the help. Arguments are C strings, so they hold no zero byte and the
  first character is absent exactly when the string is empty. \<open>Abort\<close> is a failed assertion, an
  access out of range, or an exception that leaves a \<open>noexcept\<close> function.
\<close>

section \<open>Options and their table\<close>

datatype CmdLineOption = audio_encoder | frame_rate | help_option | video_encoder | version_option | sample_rate

definition VALUE_NONE :: u32 where "VALUE_NONE = 0"
definition VALUE_REQUIRED :: u32 where "VALUE_REQUIRED = 1"
definition VALUE_OPTIONAL :: u32 where "VALUE_OPTIONAL = 2"
definition VALUE_NUMERIC :: u32 where "VALUE_NUMERIC = 4"

datatype Validation =
    AcceptableValues "string list"
  | ValidRange int int
  | NoValidation

record CmdLineOptionSpec =
  short_name :: char
  long_name :: string
  spec_option :: CmdLineOption
  spec_flags :: u32
  validation :: Validation
  description :: string

text \<open>The array of sixteen string views: those not given are empty views.\<close>

definition construct_values :: "string list \<Rightarrow> Validation" where
  "construct_values vals = AcceptableValues (vals @ replicate (16 - length vals) [])"

definition cmd_line_spec :: "CmdLineOptionSpec list" where
  "cmd_line_spec =
     [\<lparr>short_name = CHR ''A'', long_name = ''--audio-encoder'', spec_option = audio_encoder,
       spec_flags = VALUE_REQUIRED, validation = NoValidation,
       description = ''The audio encoder to use. Default 'libopus'' @ [CHR 0x27]\<rparr>,
      \<lparr>short_name = CHR ''f'', long_name = ''--framerate'', spec_option = frame_rate,
       spec_flags = VALUE_REQUIRED OR VALUE_NUMERIC, validation = ValidRange 20 70,
       description = ''Video frame rate in frames-per-second. Must be between 20 - 70. Default 60''\<rparr>,
      \<lparr>short_name = CHR ''h'', long_name = ''--help'', spec_option = help_option,
       spec_flags = 0, validation = NoValidation, description = ''Show usage''\<rparr>,
      \<lparr>short_name = CHR ''s'', long_name = ''--sample-rate'', spec_option = sample_rate,
       spec_flags = VALUE_REQUIRED OR VALUE_NUMERIC, validation = ValidRange 8000 48000,
       description = ''Audio sample rate. Must be between 8000 - 48000. Default 48000''\<rparr>,
      \<lparr>short_name = CHR ''v'', long_name = ''--version'', spec_option = version_option,
       spec_flags = 0, validation = NoValidation, description = ''Print version''\<rparr>,
      \<lparr>short_name = CHR ''V'', long_name = ''--video-encoder'', spec_option = video_encoder,
       spec_flags = VALUE_REQUIRED, validation = construct_values [''h264_nvenc'', ''hevc_nvenc''],
       description = ''Video encoder to use. Valid values are 'h264_nvenc', 'hevc_nvenc'. Default 'hevc_nvenc'' @ [CHR 0x27]\<rparr>]"

record CmdLineOptionValue =
  val_option :: CmdLineOption
  val_flags :: u32
  val_value :: string

record CmdLine =
  options :: "CmdLineOptionValue list"
  args :: "string list"

record Parameters =
  p_video_encoder :: string
  p_audio_encoder :: string
  p_frame_time :: frame_time
  p_sample_rate :: int
  p_output_file :: string
  p_strict_frame_time :: bool

section \<open>Numbers\<close>

text \<open>
  \<open>std::from_chars\<close> for \<open>std::int32_t\<close> in base ten: an optional minus sign and the longest run
  of digits; what follows is ignored by every caller.
\<close>

datatype from_chars_result = Parsed int | InvalidArgument | OutOfRange

definition is_digit :: "char \<Rightarrow> bool" where
  "is_digit c = (48 \<le> (of_char c :: int) \<and> (of_char c :: int) \<le> 57)"

definition digit_value :: "char \<Rightarrow> int" where
  "digit_value c = of_char c - 48"

definition digits_value :: "string \<Rightarrow> int" where
  "digits_value ds = foldl (\<lambda>n c. 10 * n + digit_value c) 0 ds"

definition from_chars :: "string \<Rightarrow> from_chars_result" where
  "from_chars s =
     (let negative = (case s of c # _ \<Rightarrow> c = CHR ''-'' | [] \<Rightarrow> False);
          ds = takeWhile is_digit (if negative then tl s else s);
          v = (if negative then - digits_value ds else digits_value ds)
      in if ds = [] then InvalidArgument
         else if - (2 ^ 31) \<le> v \<and> v < 2 ^ 31 then Parsed v
         else OutOfRange)"

section \<open>The parser\<close>

definition parse_long_option :: "string \<Rightarrow> string list \<Rightarrow> (CmdLineOptionValue \<times> string list) outcome" where
  "parse_long_option key rest = Exc (RuntimeError (''Unknown option: '' @ key))"

fun validate :: "string \<Rightarrow> Validation \<Rightarrow> unit outcome" where
  "validate val (AcceptableValues acceptable) =
     (if val \<in> set acceptable then Ret () else Exc (RuntimeError (''Invalid option value: '' @ val)))"
| "validate val (ValidRange lo hi) =
     (case from_chars val of
        Parsed r \<Rightarrow> if r < lo \<or> r > hi
          then Exc (RuntimeError (''Option value not in acceptable range: '' @ val)) else Ret ()
      | _ \<Rightarrow> Exc (RuntimeError (''Option value not in acceptable range: '' @ val)))"
| "validate val NoValidation = Ret ()"

definition check_valid_value :: "string \<Rightarrow> CmdLineOptionSpec \<Rightarrow> string outcome" where
  "check_valid_value val spec =
     bind_out
       (if spec_flags spec AND VALUE_NUMERIC \<noteq> 0 then
          (case from_chars val of
             Parsed _ \<Rightarrow> Ret ()
           | _ \<Rightarrow> Exc (RuntimeError (''Invalid numeric value: '' @ val)))
        else Ret ())
       (\<lambda>_. bind_out (validate val (validation spec)) (\<lambda>_. Ret val))"

text \<open>The remaining arguments are the range from \<open>first\<close> to \<open>last\<close>.\<close>

definition parse_short_option :: "string \<Rightarrow> string list \<Rightarrow> (CmdLineOptionValue \<times> string list) outcome" where
  "parse_short_option key rest =
     (case key of [] \<Rightarrow> Abort
      | saved_key # key' \<Rightarrow>
        (case find (\<lambda>spec. short_name spec = saved_key) cmd_line_spec of
           None \<Rightarrow> Exc (RuntimeError (''Unknown option: -'' @ [saved_key]))
         | Some spec \<Rightarrow>
             if spec_flags spec = 0 then
               Ret (\<lparr>val_option = spec_option spec, val_flags = spec_flags spec, val_value = []\<rparr>, rest)
             else if key' \<noteq> [] \<and> (spec_flags spec AND VALUE_OPTIONAL \<noteq> 0 \<or>
                                  spec_flags spec AND VALUE_REQUIRED \<noteq> 0) then
               bind_out (check_valid_value key' spec) (\<lambda>v.
                 Ret (\<lparr>val_option = spec_option spec, val_flags = spec_flags spec, val_value = v\<rparr>, rest))
             else if spec_flags spec AND VALUE_REQUIRED \<noteq> 0 \<and> rest = [] then
               Exc (RuntimeError (''Missing argument: -'' @ [saved_key]))
             else (case rest of [] \<Rightarrow> Abort
                   | arg # rest' \<Rightarrow> bind_out (check_valid_value arg spec) (\<lambda>v.
                       Ret (\<lparr>val_option = spec_option spec, val_flags = spec_flags spec, val_value = v\<rparr>,
                            rest')))))"

definition is_dash :: "char \<Rightarrow> bool" where
  "is_dash c = (c = CHR ''-'')"

definition parse_option :: "string list \<Rightarrow> (CmdLineOptionValue \<times> string list) outcome" where
  "parse_option as = (case as of
       [] \<Rightarrow> Abort
     | arg # rest \<Rightarrow>
         if arg = [] then Abort
         else let leading_dashes = length (takeWhile is_dash arg); key = dropWhile is_dash arg
              in if leading_dashes = 1 then parse_short_option key rest
                 else parse_long_option key rest)"

lemma parse_option_shorter:
  "parse_option (a # as) = Ret (v, rest) \<Longrightarrow> length rest \<le> length as"
  by (auto simp: parse_option_def parse_short_option_def parse_long_option_def Let_def bind_out_Ret_iff
      split: if_splits list.splits option.splits)

function parse_args :: "CmdLine \<Rightarrow> string list \<Rightarrow> CmdLine outcome" where
  "parse_args cmdline [] = Ret cmdline"
| "parse_args cmdline (c # rest) =
     (if c = [] then Ret cmdline
      else if hd c = CHR ''-'' \<and> tl c \<noteq> [] then
        (case parse_option (c # rest) of
           Ret (val, it) \<Rightarrow> parse_args (cmdline\<lparr>options := options cmdline @ [val]\<rparr>) it
         | Exc e \<Rightarrow> Exc e
         | Abort \<Rightarrow> Abort)
      else parse_args (cmdline\<lparr>args := args cmdline @ [c]\<rparr>) rest)"
  by pat_completeness auto
termination
  by (relation "measure (\<lambda>(cl, as). length as)") (auto dest: parse_option_shorter)

definition parse_cmd_line :: "string list \<Rightarrow> CmdLine outcome" where
  "parse_cmd_line argv = parse_args \<lparr>options = [], args = []\<rparr> argv"

section \<open>Accessors\<close>

definition find_option :: "CmdLineOption \<Rightarrow> CmdLine \<Rightarrow> CmdLineOptionValue option" where
  "find_option opt cl = find (\<lambda>item. val_option item = opt) (options cl)"

definition has_option :: "CmdLineOption \<Rightarrow> CmdLine \<Rightarrow> bool" where
  "has_option opt cl = (find_option opt cl \<noteq> None)"

definition get_string_value :: "CmdLineOption \<Rightarrow> CmdLine \<Rightarrow> string outcome" where
  "get_string_value opt cl = (case find_option opt cl of
       None \<Rightarrow> Exc (RuntimeError ''Option doesn't exist'')
     | Some item \<Rightarrow> Ret (val_value item))"

definition get_number_value :: "CmdLineOption \<Rightarrow> CmdLine \<Rightarrow> int outcome" where
  "get_number_value opt cl = (case find_option opt cl of
       None \<Rightarrow> Exc (RuntimeError ''Option doesn't exist'')
     | Some item \<Rightarrow>
         if val_flags item AND VALUE_NUMERIC = 0 then
           Exc (RuntimeError ''Option doesn't hold a numeric value'')
         else (case from_chars (val_value item) of Parsed v \<Rightarrow> Ret v | _ \<Rightarrow> Abort))"

definition get_option_value :: "CmdLineOption \<Rightarrow> CmdLine \<Rightarrow> string outcome" where
  "get_option_value opt cl = noexcept_out (get_string_value opt cl)"

definition get_option_value_or_default ::
  "(CmdLineOption \<Rightarrow> CmdLine \<Rightarrow> 'a outcome) \<Rightarrow> CmdLineOption \<Rightarrow> 'a \<Rightarrow> CmdLine \<Rightarrow> 'a outcome" where
  "get_option_value_or_default dispatch opt dflt cl =
     (if \<not> has_option opt cl then Ret dflt else dispatch opt cl)"

definition from_fps_out :: "int \<Rightarrow> frame_time outcome" where
  "from_fps_out f = (case from_fps (of_int f) of None \<Rightarrow> Abort | Some ft \<Rightarrow> Ret ft)"

definition read_env :: "(string \<Rightarrow> string option) \<Rightarrow> Parameters \<Rightarrow> Parameters" where
  "read_env getenv params = (case getenv ''SHADOW_CAST_STRICT_FPS'' of
       None \<Rightarrow> params
     | Some v \<Rightarrow> params\<lparr>p_strict_frame_time := (v = ''1'')\<rparr>)"

definition get_parameters :: "(string \<Rightarrow> string option) \<Rightarrow> CmdLine \<Rightarrow> (exn + Parameters) outcome" where
  "get_parameters getenv cl = noexcept_out
     (if has_option help_option cl then Ret (Inl (CmdLineError show_help []))
      else if has_option version_option cl then Ret (Inl (CmdLineError show_version []))
      else
        bind_out (get_option_value_or_default get_string_value video_encoder ''hevc_nvenc'' cl) (\<lambda>ve.
        bind_out (get_option_value_or_default get_string_value audio_encoder ''libopus'' cl) (\<lambda>ae.
        bind_out (get_option_value_or_default get_number_value frame_rate 60 cl) (\<lambda>f.
        bind_out (from_fps_out f) (\<lambda>ft.
        bind_out (get_option_value_or_default get_number_value sample_rate 48000 cl) (\<lambda>sr.
          let params = \<lparr>p_video_encoder = ve, p_audio_encoder = ae, p_frame_time = ft,
                p_sample_rate = sr, p_output_file = (case args cl of a # _ \<Rightarrow> a | [] \<Rightarrow> []),
                p_strict_frame_time = True\<rparr>
          in if p_output_file params = [] then
               Ret (Inl (CmdLineError error_type ''Missing parameter: output file''))
             else Ret (Inr (read_env getenv params))))))))"

section \<open>Help\<close>

text \<open>
  The wrapped text. Lines of \<open>cols\<close> characters are cut off while more than \<open>cols + indent\<close>
  are left; with no columns the loop would not end (\<open>None\<close>).
\<close>

function wrap_loop :: "nat \<Rightarrow> nat \<Rightarrow> bool \<Rightarrow> string \<Rightarrow> string option" where
  "wrap_loop cols indent is_first_line data =
     (if length data > cols + indent then
        (if cols = 0 then None
         else do {
           rest \<leftarrow> wrap_loop cols indent False (drop cols data);
           Some ((if \<not> is_first_line then replicate indent (CHR '' '') else []) @
                 take cols data @ [CHR 0x0A] @ rest) })
      else Some ((if \<not> is_first_line then replicate indent (CHR '' '') else []) @ data))"
  by pat_completeness auto
termination
  by (relation "measure (\<lambda>(c, i, f, d). length d)") auto

declare wrap_loop.simps [simp del]

definition wrapped :: "string \<Rightarrow> nat \<Rightarrow> nat \<Rightarrow> string option" where
  "wrapped data cols indent = wrap_loop cols indent True data"

definition help_entry :: "CmdLineOptionSpec \<Rightarrow> string option" where
  "help_entry spec = do {
     w \<leftarrow> wrapped (description spec) 60 4;
     Some (''  -'' @ [short_name spec] @
       (if spec_flags spec AND VALUE_REQUIRED \<noteq> 0 then '' <VALUE>''
        else if spec_flags spec AND VALUE_OPTIONAL \<noteq> 0 then '' [ <VALUE> ]'' else []) @
       [CHR 0x0A] @ ''    '' @ w @ [CHR 0x0A, CHR 0x0A]) }"

fun help_entries :: "CmdLineOptionSpec list \<Rightarrow> string option" where
  "help_entries [] = Some []"
| "help_entries (spec # specs) = do {
     e \<leftarrow> help_entry spec;
     es \<leftarrow> help_entries specs;
     Some (e @ es) }"

definition output_help :: "string \<Rightarrow> string option" where
  "output_help prog = do {
     es \<leftarrow> help_entries cmd_line_spec;
     Some (''USAGE: '' @ prog @ '' [ OPTIONS... ] <OUTPUT_FILE>'' @ [CHR 0x0A] @
       ''OPTIONS:'' @ [CHR 0x0A] @ es @ [CHR 0x0A]) }"

definition output_version :: "string \<Rightarrow> string" where
  "output_version ver = ver @ [CHR 0x0A]"

section \<open>What the parser accepts\<close>

text \<open>The option values that come out of the parser.\<close>

definition value_for :: "CmdLineOptionSpec \<Rightarrow> string \<Rightarrow> CmdLineOptionValue" where
  "value_for spec v = \<lparr>val_option = spec_option spec, val_flags = spec_flags spec, val_value = v\<rparr>"

definition value_ok :: "CmdLineOptionSpec \<Rightarrow> string \<Rightarrow> bool" where
  "value_ok spec v \<longleftrightarrow> spec \<in> set cmd_line_spec \<and>
     (if spec_flags spec = 0 then v = [] else check_valid_value v spec = Ret v)"

definition option_ok :: "CmdLineOptionValue \<Rightarrow> bool" where
  "option_ok item \<longleftrightarrow> (\<exists>spec v. value_ok spec v \<and> item = value_for spec v)"

lemma check_valid_value_Ret: "check_valid_value val spec = Ret v \<Longrightarrow> v = val"
  by (auto simp: check_valid_value_def bind_out_Ret_iff)

lemma check_valid_value_not_Abort: "check_valid_value val spec \<noteq> Abort"
  by (cases "validation spec")
    (auto simp: check_valid_value_def split: from_chars_result.splits)

lemma option_ok_flag:
  "spec \<in> set cmd_line_spec \<Longrightarrow> spec_flags spec = 0 \<Longrightarrow>
   option_ok \<lparr>val_option = spec_option spec, val_flags = 0, val_value = []\<rparr>"
  unfolding option_ok_def value_for_def value_ok_def by (intro exI [of _ spec] exI [of _ "[]"]) simp

lemma option_ok_value:
  "spec \<in> set cmd_line_spec \<Longrightarrow> spec_flags spec \<noteq> 0 \<Longrightarrow> check_valid_value w spec = Ret v \<Longrightarrow>
   option_ok \<lparr>val_option = spec_option spec, val_flags = spec_flags spec, val_value = v\<rparr>"
  using check_valid_value_Ret [of w spec v]
  unfolding option_ok_def value_for_def value_ok_def by (intro exI [of _ spec] exI [of _ v]) simp

lemma parse_short_option_ok: "parse_short_option key rest = Ret (v, rest') \<Longrightarrow> option_ok v"
  unfolding parse_short_option_def
  by (auto simp: bind_out_Ret_iff intro: option_ok_flag option_ok_value dest!: find_Some_first
      split: list.splits option.splits if_splits)

lemma parse_option_ok: "parse_option as = Ret (v, rest) \<Longrightarrow> option_ok v"
  by (auto simp: parse_option_def parse_long_option_def Let_def dest: parse_short_option_ok
      split: list.splits if_splits)

lemma flags_have_value: "spec \<in> set cmd_line_spec \<Longrightarrow> spec_flags spec = 0 \<or> spec_flags spec AND VALUE_REQUIRED \<noteq> 0"
  by (auto simp: cmd_line_spec_def VALUE_REQUIRED_def VALUE_NUMERIC_def)

lemma parse_short_option_not_Abort: "key \<noteq> [] \<Longrightarrow> parse_short_option key rest \<noteq> Abort"
  using check_valid_value_not_Abort flags_have_value
  by (auto simp: parse_short_option_def bind_out_Abort_iff dest!: find_Some_first
      split: list.splits option.splits)

lemma single_dash_key:
  "hd c = CHR ''-'' \<Longrightarrow> tl c \<noteq> [] \<Longrightarrow> length (takeWhile is_dash c) = 1 \<Longrightarrow> dropWhile is_dash c \<noteq> []"
  by (cases c; cases "tl c") (auto simp: is_dash_def split: if_splits)

lemma parse_option_not_Abort:
  "hd c = CHR ''-'' \<Longrightarrow> tl c \<noteq> [] \<Longrightarrow> parse_option (c # rest) \<noteq> Abort"
  using single_dash_key [of c] parse_short_option_not_Abort
  by (auto simp: parse_option_def parse_long_option_def Let_def)

lemma parse_args_sound:
  "list_all option_ok (options cl) \<Longrightarrow>
   (case parse_args cl as of Ret cl' \<Rightarrow> list_all option_ok (options cl') | Exc e \<Rightarrow> True | Abort \<Rightarrow> False)"
proof (induction cl as rule: parse_args.induct)
  case (2 cl c rest)
  show ?case
  proof (cases "c \<noteq> [] \<and> hd c = CHR ''-'' \<and> tl c \<noteq> []")
    case True
    show ?thesis
    proof (cases "parse_option (c # rest)")
      case (Ret p)
      then obtain v it where p: "parse_option (c # rest) = Ret (v, it)" by (cases p) auto
      with 2(1) [of "(v, it)" v it] 2(3) parse_option_ok [OF p] True show ?thesis by simp
    qed (use True parse_option_not_Abort [of c rest] in auto)
  qed (use 2 in auto)
qed simp

text \<open>What an option found on a parsed command line holds.\<close>

lemma find_option_ok:
  assumes "list_all option_ok (options cl)" "find_option opt cl = Some item"
  shows "\<exists>spec v. value_ok spec v \<and> item = value_for spec v \<and> spec_option spec = opt"
proof -
  have "option_ok item" "val_option item = opt"
    using assms find_Some_first [of _ "options cl" item]
    by (auto simp: find_option_def list_all_iff)
  then show ?thesis by (auto simp: option_ok_def value_for_def)
qed

lemma number_value_in_range:
  assumes ok: "list_all option_ok (options cl)"
    and spec: "\<And>spec. spec \<in> set cmd_line_spec \<Longrightarrow> spec_option spec = opt \<Longrightarrow>
      validation spec = ValidRange lo hi \<and> spec_flags spec = VALUE_REQUIRED OR VALUE_NUMERIC"
    and d: "lo \<le> d" "d \<le> hi"
  shows "\<exists>n. get_option_value_or_default get_number_value opt d cl = Ret n \<and> lo \<le> n \<and> n \<le> hi"
proof (cases "find_option opt cl")
  case None
  then show ?thesis using d by (simp add: get_option_value_or_default_def has_option_def)
next
  case (Some item)
  from find_option_ok [OF ok Some] obtain sp v where
    v: "value_ok sp v" "item = value_for sp v" "spec_option sp = opt" by blast
  then have sp: "validation sp = ValidRange lo hi" "spec_flags sp = VALUE_REQUIRED OR VALUE_NUMERIC"
    using spec [of sp] by (simp_all add: value_ok_def)
  from v(1) sp have "validate v (ValidRange lo hi) = Ret ()"
    by (auto simp: value_ok_def check_valid_value_def bind_out_Ret_iff VALUE_REQUIRED_def
        VALUE_NUMERIC_def)
  then obtain n where n: "from_chars v = Parsed n" "lo \<le> n" "n \<le> hi"
    by (auto split: from_chars_result.splits if_splits)
  with Some v sp have "get_number_value opt cl = Ret n"
    by (simp add: get_number_value_def value_for_def VALUE_REQUIRED_def VALUE_NUMERIC_def)
  with n Some show ?thesis by (simp add: get_option_value_or_default_def has_option_def)
qed

lemma string_value_ok:
  assumes ok: "list_all option_ok (options cl)"
  shows "\<exists>v. get_option_value_or_default get_string_value opt d cl = Ret v \<and>
    (v = d \<or> (\<exists>spec. value_ok spec v \<and> spec_option spec = opt))"
proof (cases "find_option opt cl")
  case None
  then show ?thesis by (simp add: get_option_value_or_default_def has_option_def)
next
  case (Some item)
  from find_option_ok [OF ok Some] obtain sp v where
    "value_ok sp v" "item = value_for sp v" "spec_option sp = opt" by blast
  with Some show ?thesis
    by (auto simp: get_option_value_or_default_def has_option_def get_string_value_def value_for_def)
qed

lemma range_specs:
  "spec \<in> set cmd_line_spec \<Longrightarrow> spec_option spec = frame_rate \<Longrightarrow>
     validation spec = ValidRange 20 70 \<and> spec_flags spec = VALUE_REQUIRED OR VALUE_NUMERIC"
  "spec \<in> set cmd_line_spec \<Longrightarrow> spec_option spec = sample_rate \<Longrightarrow>
     validation spec = ValidRange 8000 48000 \<and> spec_flags spec = VALUE_REQUIRED OR VALUE_NUMERIC"
  by (auto simp: cmd_line_spec_def)

lemma video_encoder_values:
  "value_ok spec v \<Longrightarrow> spec_option spec = video_encoder \<Longrightarrow> v \<in> {''h264_nvenc'', ''hevc_nvenc'', []}"
  by (auto simp: value_ok_def cmd_line_spec_def check_valid_value_def VALUE_REQUIRED_def
      VALUE_NUMERIC_def construct_values_def bind_out_Ret_iff split: if_splits)

lemma from_fps_out_total: "20 \<le> f \<Longrightarrow> f \<le> 70 \<Longrightarrow> \<exists>ft. from_fps_out f = Ret ft \<and> from_fps (of_int f) = Some ft"
proof -
  assume "20 \<le> f" "f \<le> 70"
  then have "(of_int f :: u32) \<noteq> 0" by (simp add: word_of_int_eq_0_iff zdvd_not_zless)
  then show ?thesis by (simp add: from_fps_out_def from_fps_def)
qed

lemma check_valid_value_exception: "check_valid_value val spec = Exc e \<Longrightarrow> \<exists>m. e = RuntimeError m"
  by (cases "validation spec")
    (auto simp: check_valid_value_def split: from_chars_result.splits if_splits)

lemma parse_option_exception: "parse_option as = Exc e \<Longrightarrow> \<exists>m. e = RuntimeError m"
  by (auto simp: parse_option_def parse_short_option_def parse_long_option_def Let_def
      bind_out_Exc_iff dest: check_valid_value_exception
      split: list.splits option.splits if_splits)

lemma parse_args_exception: "parse_args cl as = Exc e \<Longrightarrow> \<exists>m. e = RuntimeError m"
  by (induction cl as rule: parse_args.induct)
    (auto dest: parse_option_exception split: if_splits outcome.splits prod.splits)

definition parameters_in_range :: "Parameters \<Rightarrow> bool" where
  "parameters_in_range p \<longleftrightarrow> 8000 \<le> p_sample_rate p \<and> p_sample_rate p \<le> 48000 \<and>
     (\<exists>f. 20 \<le> f \<and> f \<le> 70 \<and> from_fps (of_int f) = Some (p_frame_time p)) \<and>
     p_video_encoder p \<in> {''h264_nvenc'', ''hevc_nvenc'', []} \<and> p_output_file p \<noteq> []"

lemma read_env_in_range: "parameters_in_range (read_env getenv p) = parameters_in_range p"
  by (simp add: read_env_def parameters_in_range_def split: option.splits)

lemma parameters_ok:
  assumes ok: "list_all option_ok (options cl)"
  shows "\<exists>r. get_parameters getenv cl = Ret r \<and>
    (case r of Inr p \<Rightarrow> parameters_in_range p | Inl e \<Rightarrow> \<exists>t m. e = CmdLineError t m)"
proof -
  obtain ve where ve: "get_option_value_or_default get_string_value video_encoder ''hevc_nvenc'' cl = Ret ve"
    "ve \<in> {''h264_nvenc'', ''hevc_nvenc'', []}"
    using string_value_ok [OF ok, of video_encoder "''hevc_nvenc''"] video_encoder_values by auto
  obtain ae where ae: "get_option_value_or_default get_string_value audio_encoder ''libopus'' cl = Ret ae"
    using string_value_ok [OF ok, of audio_encoder "''libopus''"] by auto
  obtain f where f: "get_option_value_or_default get_number_value frame_rate 60 cl = Ret f" "20 \<le> f" "f \<le> 70"
    using number_value_in_range [OF ok range_specs(1), where d = 60] by auto
  obtain sr where sr: "get_option_value_or_default get_number_value sample_rate 48000 cl = Ret sr"
    "8000 \<le> sr" "sr \<le> 48000"
    using number_value_in_range [OF ok range_specs(2), where d = 48000] by auto
  obtain ft where ft: "from_fps_out f = Ret ft" "from_fps (of_int f) = Some ft"
    using from_fps_out_total [OF f(2,3)] by blast
  let ?p = "\<lparr>p_video_encoder = ve, p_audio_encoder = ae, p_frame_time = ft, p_sample_rate = sr,
    p_output_file = (case args cl of a # _ \<Rightarrow> a | [] \<Rightarrow> []), p_strict_frame_time = True\<rparr>"
  have "parameters_in_range (read_env getenv ?p)" if "p_output_file ?p \<noteq> []"
    unfolding read_env_in_range using that ve(2) f(2,3) sr(2,3) ft(2)
    by (auto simp: parameters_in_range_def)
  then show ?thesis
    by (auto simp: get_parameters_def ve(1) ae f(1) sr(1) ft(1) Let_def)
qed

section \<open>Command lines written out\<close>

text \<open>
  The items a command line is made of: a flag, an option with its value joined to it or in the
  next argument, and a plain argument (a single dash is one).
\<close>

datatype item =
    Flag CmdLineOptionSpec
  | Joined CmdLineOptionSpec string
  | Separate CmdLineOptionSpec string
  | Plain string

fun render :: "item \<Rightarrow> string list" where
  "render (Flag spec) = [[CHR ''-'', short_name spec]]"
| "render (Joined spec v) = [CHR ''-'' # short_name spec # v]"
| "render (Separate spec v) = [[CHR ''-'', short_name spec], v]"
| "render (Plain a) = [a]"

fun item_ok :: "item \<Rightarrow> bool" where
  "item_ok (Flag spec) \<longleftrightarrow> spec \<in> set cmd_line_spec \<and> spec_flags spec = 0"
| "item_ok (Joined spec v) \<longleftrightarrow> value_ok spec v \<and> spec_flags spec \<noteq> 0 \<and> v \<noteq> []"
| "item_ok (Separate spec v) \<longleftrightarrow> value_ok spec v \<and> spec_flags spec \<noteq> 0"
| "item_ok (Plain a) \<longleftrightarrow> a \<noteq> [] \<and> (hd a = CHR ''-'' \<longrightarrow> tl a = [])"

fun add_item :: "item \<Rightarrow> CmdLine \<Rightarrow> CmdLine" where
  "add_item (Flag spec) cl = cl\<lparr>options := options cl @ [value_for spec []]\<rparr>"
| "add_item (Joined spec v) cl = cl\<lparr>options := options cl @ [value_for spec v]\<rparr>"
| "add_item (Separate spec v) cl = cl\<lparr>options := options cl @ [value_for spec v]\<rparr>"
| "add_item (Plain a) cl = cl\<lparr>args := args cl @ [a]\<rparr>"

lemma spec_lookup_all:
  "list_all (\<lambda>spec. find (\<lambda>s. short_name s = short_name spec) cmd_line_spec = Some spec \<and>
     \<not> is_dash (short_name spec)) cmd_line_spec"
  by code_simp

lemma spec_lookup:
  "spec \<in> set cmd_line_spec \<Longrightarrow>
   find (\<lambda>s. short_name s = short_name spec) cmd_line_spec = Some spec \<and> \<not> is_dash (short_name spec)"
  using spec_lookup_all unfolding list_all_iff by blast

lemma parse_option_short:
  "\<not> is_dash c \<Longrightarrow> parse_option ((CHR ''-'' # c # cs) # rest) = parse_short_option (c # cs) rest"
  by (simp add: parse_option_def is_dash_def)

lemma parse_short_flag:
  "spec \<in> set cmd_line_spec \<Longrightarrow> spec_flags spec = 0 \<Longrightarrow>
   parse_short_option [short_name spec] rest = Ret (value_for spec [], rest)"
  using spec_lookup [of spec] by (simp add: parse_short_option_def value_for_def)

lemma parse_short_joined:
  "value_ok spec v \<Longrightarrow> spec_flags spec \<noteq> 0 \<Longrightarrow> v \<noteq> [] \<Longrightarrow>
   parse_short_option (short_name spec # v) rest = Ret (value_for spec v, rest)"
  using spec_lookup [of spec] flags_have_value [of spec]
  by (simp add: parse_short_option_def value_for_def value_ok_def)

lemma parse_short_separate:
  "value_ok spec v \<Longrightarrow> spec_flags spec \<noteq> 0 \<Longrightarrow>
   parse_short_option [short_name spec] (v # rest) = Ret (value_for spec v, rest)"
  using spec_lookup [of spec] flags_have_value [of spec]
  by (simp add: parse_short_option_def value_for_def value_ok_def)

lemma parse_args_item: "item_ok i \<Longrightarrow> parse_args cl (render i @ rest) = parse_args (add_item i cl) rest"
proof (cases i)
  case (Flag spec)
  then show "item_ok i \<Longrightarrow> ?thesis"
    using spec_lookup [of spec] by (simp add: parse_option_short parse_short_flag)
next
  case (Joined spec v)
  then show "item_ok i \<Longrightarrow> ?thesis"
    using spec_lookup [of spec]
    by (simp add: parse_option_short parse_short_joined) (simp add: value_ok_def parse_option_short parse_short_joined)
next
  case (Separate spec v)
  then show "item_ok i \<Longrightarrow> ?thesis"
    using spec_lookup [of spec]
    by (simp add: parse_option_short parse_short_separate) (simp add: value_ok_def parse_option_short parse_short_separate)
qed auto

lemma parse_args_items:
  "list_all item_ok is \<Longrightarrow>
   parse_args cl (concat (map render is) @ rest) = parse_args (fold add_item is cl) rest"
  by (induction "is" arbitrary: cl) (auto simp: parse_args_item)

section \<open>Properties\<close>

text \<open>
  (C21) Safety of the command line. The parser never fails an assertion or reads out of range.
  When it succeeds, the parameters are computed without ending the process, and if they are
  parameters at all then the sample rate is in 8000 to 48000, the frame time comes from a rate
  in 20 to 70, the video encoder is one of the two known ones or the empty string, and the
  output file is not empty.
\<close>

theorem cmd_line_parameters_in_range:
  "case parse_cmd_line argv of
     Ret cl \<Rightarrow>
       (case get_parameters getenv cl of
          Ret (Inr p) \<Rightarrow> 8000 \<le> p_sample_rate p \<and> p_sample_rate p \<le> 48000 \<and>
            (\<exists>f. 20 \<le> f \<and> f \<le> 70 \<and> from_fps (of_int f) = Some (p_frame_time p)) \<and>
            p_video_encoder p \<in> {''h264_nvenc'', ''hevc_nvenc'', []} \<and> p_output_file p \<noteq> []
        | Ret (Inl e) \<Rightarrow> (\<exists>t m. e = CmdLineError t m)
        | _ \<Rightarrow> False)
   | Exc e \<Rightarrow> (\<exists>m. e = RuntimeError m)
   | Abort \<Rightarrow> False"
proof (cases "parse_cmd_line argv")
  case (Ret cl)
  then have ok: "list_all option_ok (options cl)"
    using parse_args_sound [of "\<lparr>options = [], args = []\<rparr>" argv] by (simp add: parse_cmd_line_def)
  from parameters_ok [OF ok, of getenv] obtain r where r: "get_parameters getenv cl = Ret r"
    "case r of Inr p \<Rightarrow> parameters_in_range p | Inl e \<Rightarrow> \<exists>t m. e = CmdLineError t m" by blast
  then show ?thesis using Ret by (cases r) (auto simp: parameters_in_range_def)
next
  case (Exc e)
  with parse_args_exception [of "\<lparr>options = [], args = []\<rparr>" argv e] show ?thesis
    by (simp add: parse_cmd_line_def)
next
  case Abort
  then show ?thesis
    using parse_args_sound [of "\<lparr>options = [], args = []\<rparr>" argv] by (simp add: parse_cmd_line_def)
qed

text \<open>
  (C28) Round trip. Writing a list of valid items (flags, options with a joined or a separate
  value, plain arguments) as arguments and parsing them gives exactly the options and the
  arguments, in order.
\<close>

theorem parse_cmd_line_of_items:
  assumes "list_all item_ok is"
  shows "parse_cmd_line (concat (map render is)) = Ret (fold add_item is \<lparr>options = [], args = []\<rparr>)"
  using parse_args_items [OF assms, of _ "[]"] by (simp add: parse_cmd_line_def)

definition demo_items :: "item list" where
  "demo_items = [Joined (cmd_line_spec ! 1) ''30'', Plain ''/tmp/test.mp4'', Flag (cmd_line_spec ! 2),
     Separate (cmd_line_spec ! 0) ''libopus'']"

theorem parse_cmd_line_of_items_witness:
  "parse_cmd_line [''-f30'', ''/tmp/test.mp4'', ''-h'', ''-A'', ''libopus''] =
     Ret \<lparr>options = [value_for (cmd_line_spec ! 1) ''30'', value_for (cmd_line_spec ! 2) [],
       value_for (cmd_line_spec ! 0) ''libopus''], args = [''/tmp/test.mp4'']\<rparr>"
proof -
  have "list_all item_ok demo_items" by code_simp
  from parse_cmd_line_of_items [OF this] show ?thesis
    by (simp add: demo_items_def cmd_line_spec_def)
qed



end
