(* ===== verification/Readiness.thy ===== *)
theory Readiness
  imports Effects Frame_Time
begin

text \<open>
  Where services meet the event loop: the register through which a service asks to be
  dispatched when a descriptor is readable or at a multiple of the frame time
  (\<open>src/services/readiness.cpp\<close>), and the registry of services
  (\<open>src/services/service_registry.hpp\<close>, \<open>service_registry.cpp\<close>). A service is its id, a
  dispatch function a number. \<open>std::unordered_map\<close> is an association list: the order of the
  list is the iteration order, about which the theorems assume nothing.
\<close>

section \<open>The readiness register\<close>

record readiness =
  r_svc :: nat
  r_dispatch :: nat

record timer =
  t_svc :: nat
  t_dispatch :: nat
  t_frame_time :: size_t
  t_remaining :: size_t

record frame_time_ratio =
  num :: size_t
  denom :: size_t

datatype register_type = OnFd int | OnFrame frame_time_ratio

record reg_state =
  notifications :: "(int \<times> readiness) list"
  timers :: "timer list"

definition frame_time_ratio :: "size_t \<Rightarrow> size_t \<Rightarrow> frame_time_ratio" where
  "frame_time_ratio n d = \<lparr>num = n, denom = d\<rparr>"

text \<open>\<open>emplace\<close> into an unordered map leaves an existing entry as it is.\<close>

definition emplace :: "'k \<Rightarrow> 'v \<Rightarrow> ('k \<times> 'v) list \<Rightarrow> ('k \<times> 'v) list" where
  "emplace k v m = (if map_of m k = None then m @ [(k, v)] else m)"

text \<open>The expiry in single precision; \<open>None\<close> is a division by zero or a value out of range.\<close>

definition tick_expiry :: "size_t \<Rightarrow> frame_time_ratio \<Rightarrow> size_t option" where
  "tick_expiry ft r = do {
     q \<leftarrow> f32_div (f32_of_int (uint (num r))) (f32_of_int (uint (denom r)));
     f32_to_u64 (f32_mul (f32_of_int (uint ft)) q) }"

definition lower_bound_timer :: "size_t \<Rightarrow> timer list \<Rightarrow> nat" where
  "lower_bound_timer expiry ts = length (takeWhile (\<lambda>a. t_frame_time a < expiry) ts)"

definition emplace_timer :: "timer \<Rightarrow> timer list \<Rightarrow> timer list" where
  "emplace_timer t ts = (let i = lower_bound_timer (t_frame_time t) ts in take i ts @ t # drop i ts)"

definition register_readiness ::
  "nat \<Rightarrow> size_t \<Rightarrow> register_type \<Rightarrow> nat \<Rightarrow> reg_state \<Rightarrow> reg_state option" where
  "register_readiness svc ft val dispatch st = (case val of
       OnFd fd \<Rightarrow> Some (st\<lparr>notifications := emplace fd \<lparr>r_svc = svc, r_dispatch = dispatch\<rparr> (notifications st)\<rparr>)
     | OnFrame r \<Rightarrow> do {
         expiry \<leftarrow> tick_expiry ft r;
         Some (st\<lparr>timers := emplace_timer
           \<lparr>t_svc = svc, t_dispatch = dispatch, t_frame_time = expiry, t_remaining = 0\<rparr> (timers st)\<rparr>) })"

fun register_all :: "nat \<Rightarrow> size_t \<Rightarrow> (register_type \<times> nat) list \<Rightarrow> reg_state \<Rightarrow> reg_state option" where
  "register_all svc ft [] st = Some st"
| "register_all svc ft ((val, d) # rs) st =
     Option.bind (register_readiness svc ft val d st) (register_all svc ft rs)"

section \<open>The service registry\<close>

text \<open>\<open>service_id_impl\<close>: the next value of a counter that starts at 1.\<close>

definition service_id_impl :: "size_t \<Rightarrow> size_t \<times> size_t" where
  "service_id_impl counter = (counter, counter + 1)"

record 's registry =
  services :: "(nat \<times> 's) list"
  lock_flag :: bool

text \<open>The lock: \<open>test_and_set\<close> returns the previous value.\<close>

definition registry_lock :: "'s registry \<Rightarrow> bool \<times> 's registry" where
  "registry_lock reg = (\<not> lock_flag reg, reg\<lparr>lock_flag := True\<rparr>)"

definition registry_unlock :: "bool \<Rightarrow> 's registry \<Rightarrow> 's registry" where
  "registry_unlock obtained reg = (if obtained then reg\<lparr>lock_flag := False\<rparr> else reg)"

definition registry_add :: "nat \<Rightarrow> 's \<Rightarrow> 's registry \<Rightarrow> 's registry option" where
  "registry_add i svc reg = (case registry_lock reg of (obtained, reg') \<Rightarrow>
     if \<not> obtained then None
     else Some (registry_unlock obtained (reg'\<lparr>services := emplace i svc (services reg')\<rparr>)))"

text \<open>\<open>add_from_factory\<close>: the factory runs while the lock is held, and may throw.\<close>

definition add_from_factory :: "nat \<Rightarrow> (exn + 's) \<Rightarrow> 's registry \<Rightarrow> ((exn + unit) \<times> 's registry) option" where
  "add_from_factory i f reg = (case registry_lock reg of (obtained, reg') \<Rightarrow>
     if \<not> obtained then None
     else (case f of
         Inl e \<Rightarrow> Some (Inl e, registry_unlock obtained reg')
       | Inr svc \<Rightarrow> Some (Inr (), registry_unlock obtained
           (reg'\<lparr>services := emplace i svc (services reg')\<rparr>))))"

definition use_if :: "nat \<Rightarrow> 's registry \<Rightarrow> 's option" where
  "use_if i reg = map_of (services reg) i"

definition use :: "nat \<Rightarrow> 's \<Rightarrow> 's registry \<Rightarrow> ('s \<times> 's registry) option" where
  "use i dflt reg = (case map_of (services reg) i of
       Some svc \<Rightarrow> Some (svc, reg)
     | None \<Rightarrow> do {
         reg' \<leftarrow> registry_add i dflt reg;
         svc \<leftarrow> map_of (services reg') i;
         Some (svc, reg') })"

section \<open>Lemmas\<close>

abbreviation timers_sorted :: "timer list \<Rightarrow> bool" where
  "timers_sorted ts \<equiv> sorted (map t_frame_time ts)"

lemma emplace_map_of: "map_of (emplace k v m) = (if map_of m k = None then (map_of m)(k \<mapsto> v) else map_of m)"
  by (auto simp: emplace_def fun_eq_iff map_add_def split: option.splits)

lemma emplace_distinct: "distinct (map fst m) \<Longrightarrow> distinct (map fst (emplace k v m))"
  by (auto simp: emplace_def map_of_eq_None_iff)

lemma emplace_timer_split:
  "emplace_timer t ts = takeWhile (\<lambda>a. t_frame_time a < t_frame_time t) ts @ t #
     dropWhile (\<lambda>a. t_frame_time a < t_frame_time t) ts"
  by (simp add: emplace_timer_def lower_bound_timer_def Let_def takeWhile_eq_take [symmetric]
      dropWhile_eq_drop [symmetric])

lemma sorted_takeWhile_dropWhile:
  assumes "timers_sorted ts"
  shows "timers_sorted (takeWhile P ts)" "timers_sorted (dropWhile P ts)"
    "\<forall>a \<in> set (takeWhile P ts). \<forall>b \<in> set (dropWhile P ts). t_frame_time a \<le> t_frame_time b"
  using assms sorted_append [of "map t_frame_time (takeWhile P ts)" "map t_frame_time (dropWhile P ts)"]
  by (simp_all add: map_append [symmetric] del: map_append)

lemma dropWhile_ge:
  assumes "timers_sorted ts" "b \<in> set (dropWhile (\<lambda>a. t_frame_time a < x) ts)"
  shows "x \<le> t_frame_time b"
proof (cases "dropWhile (\<lambda>a. t_frame_time a < x) ts")
  case Nil
  with assms show ?thesis by simp
next
  case (Cons c cs)
  then have "\<not> t_frame_time c < x" using hd_dropWhile [of "\<lambda>a. t_frame_time a < x" ts] by auto
  moreover have "timers_sorted (c # cs)"
    using sorted_takeWhile_dropWhile(2) [OF assms(1), of "\<lambda>a. t_frame_time a < x"] Cons by simp
  ultimately show ?thesis using assms(2) Cons by auto
qed

lemma emplace_timer_sorted:
  assumes "timers_sorted ts"
  shows "timers_sorted (emplace_timer t ts)"
  unfolding emplace_timer_split
  using sorted_takeWhile_dropWhile [OF assms, of "\<lambda>a. t_frame_time a < t_frame_time t"]
    dropWhile_ge [OF assms, of _ "t_frame_time t"]
  by (auto simp: sorted_append dest: set_takeWhileD)

lemma emplace_timer_set: "set (emplace_timer t ts) = insert t (set ts)"
proof -
  let ?P = "\<lambda>a. t_frame_time a < t_frame_time t"
  have "set ts = set (takeWhile ?P ts) \<union> set (dropWhile ?P ts)"
    by (metis set_append takeWhile_dropWhile_id)
  then show ?thesis unfolding emplace_timer_split by auto
qed

lemma emplace_timer_length: "length (emplace_timer t ts) = Suc (length ts)"
  by (simp add: emplace_timer_def Let_def lower_bound_timer_def length_takeWhile_le)

definition reg_inv :: "reg_state \<Rightarrow> bool" where
  "reg_inv st \<longleftrightarrow> timers_sorted (timers st) \<and> distinct (map fst (notifications st)) \<and>
     (\<forall>t \<in> set (timers st). t_remaining t \<le> t_frame_time t)"

lemma register_readiness_inv:
  "reg_inv st \<Longrightarrow> register_readiness svc ft val d st = Some st' \<Longrightarrow> reg_inv st'"
  by (auto simp: register_readiness_def reg_inv_def emplace_timer_sorted emplace_distinct
      emplace_timer_set bind_eq_Some_conv split: register_type.splits)

lemma register_all_inv:
  "reg_inv st \<Longrightarrow> register_all svc ft rs st = Some st' \<Longrightarrow> reg_inv st'"
proof (induction rs arbitrary: st)
  case (Cons r rs)
  obtain val d where r: "r = (val, d)" by (cases r)
  with Cons.prems(2) obtain st1 where
    st1: "register_readiness svc ft val d st = Some st1" "register_all svc ft rs st1 = Some st'"
    by (auto simp: bind_eq_Some_conv)
  from register_readiness_inv [OF Cons.prems(1) st1(1)] st1(2) show ?case by (rule Cons.IH)
qed simp

section \<open>The registry as a store of services\<close>

text \<open>
  What the clients of the registry rely on: adding never fails while no one holds the lock,
  and never replaces a service that is already there.
\<close>

locale keyed_store =
  fixes add :: "'k \<Rightarrow> 'v \<Rightarrow> 's \<Rightarrow> 's option"
    and lookup :: "'k \<Rightarrow> 's \<Rightarrow> 'v option"
    and free :: "'s \<Rightarrow> bool"
  assumes add_free: "free s \<Longrightarrow> \<exists>s'. add k v s = Some s' \<and> free s' \<and>
      (\<forall>j. lookup j s' = (if j = k \<and> lookup k s = None then Some v else lookup j s))"
begin

lemma first_add_wins:
  assumes "free s"
  shows "\<exists>s'. run_steps (\<lambda>(k, v). add k v) xs s = Some s' \<and> free s' \<and>
    (\<forall>j. lookup j s' = (case lookup j s of None \<Rightarrow> map_of xs j | Some v \<Rightarrow> Some v))"
  using assms
proof (induction xs arbitrary: s)
  case Nil
  then show ?case by (auto split: option.splits)
next
  case (Cons x xs)
  obtain k v where x: "x = (k, v)" by (cases x)
  from add_free [OF Cons.prems, of k v] obtain t where t: "add k v s = Some t" "free t"
    "\<forall>j. lookup j t = (if j = k \<and> lookup k s = None then Some v else lookup j s)" by blast
  from Cons.IH [OF t(2)] obtain s' where
    s': "run_steps (\<lambda>(k, v). add k v) xs t = Some s'" "free s'"
    "\<forall>j. lookup j s' = (case lookup j t of None \<Rightarrow> map_of xs j | Some v \<Rightarrow> Some v)" by blast
  have "lookup j s' = (case lookup j s of None \<Rightarrow> map_of (x # xs) j | Some v \<Rightarrow> Some v)" for j
    using t(3) [THEN spec, of j] s'(3) [THEN spec, of j] x by (auto split: if_splits option.splits)
  with s'(1,2) t(1) x show ?case by auto
qed

end

interpretation reg_store: keyed_store registry_add use_if "\<lambda>reg. \<not> lock_flag reg"
  by unfold_locales
    (auto simp: registry_add_def registry_lock_def registry_unlock_def use_if_def emplace_map_of)

section \<open>Properties\<close>

text \<open>
  The service registry. Adding any sequence of services to a fresh registry never fails,
  the lock is free afterwards, and every id names the first service that was added under it.
\<close>

lemma registry_first_add_wins:
  "\<exists>reg. run_steps (\<lambda>(i, svc). registry_add i svc) adds \<lparr>services = [], lock_flag = False\<rparr> = Some reg \<and>
     \<not> lock_flag reg \<and> (\<forall>i. use_if i reg = map_of adds i)"
  using reg_store.first_add_wins [of "\<lparr>services = [], lock_flag = False\<rparr>" adds]
  by (simp add: use_if_def)

text \<open>
  (C30) The readiness register. Whatever a service registers, in any order, the timers stay
  sorted by their period (which the binary search relies on), each descriptor has one entry,
  and no timer is due later than one period.
\<close>

theorem register_keeps_timers_sorted:
  assumes "register_all svc ft rs \<lparr>notifications = [], timers = []\<rparr> = Some st"
  shows "reg_inv st"
  by (rule register_all_inv [OF _ assms]) (simp add: reg_inv_def)

definition demo_registrations :: "(register_type \<times> nat) list" where
  "demo_registrations = [(OnFrame \<lparr>num = 2, denom = 1\<rparr>, 0), (OnFd 5, 1), (OnFrame \<lparr>num = 1, denom = 2\<rparr>, 2)]"

lemma demo_expiry:
  "tick_expiry 16666666 \<lparr>num = 2, denom = 1\<rparr> = Some 33333332"
  "tick_expiry 16666666 \<lparr>num = 1, denom = 2\<rparr> = Some 8333333"
  by code_simp+

theorem register_keeps_timers_sorted_witness:
  "\<exists>st. register_all 1 16666666 demo_registrations \<lparr>notifications = [], timers = []\<rparr> = Some st \<and>
     map t_frame_time (timers st) = [8333333, 33333332] \<and> reg_inv st"
proof -
  let ?init = "\<lparr>notifications = [], timers = []\<rparr> :: reg_state"
  obtain st where st: "register_all 1 16666666 demo_registrations ?init = Some st"
    "map t_frame_time (timers st) = [8333333, 33333332]"
    by (auto simp: demo_registrations_def register_readiness_def demo_expiry emplace_timer_split)
  have "reg_inv st" by (rule register_keeps_timers_sorted [OF st(1)])
  with st show ?thesis by (intro exI [of _ st]) simp
qed

end
