(* ===== verification/Context.thy ===== *)
theory Context
  imports Readiness
begin

text \<open>
  The event loop (\<open>src/services/context.cpp\<close>, \<open>context.hpp\<close>): initialisation of the services in
  the order of the registry, the loop that ticks the timers, sleeps in \<open>ppoll\<close> and dispatches
  descriptors, and the three scopes that are left on every way out. The kernel, the clock,
  the services and whoever sets the stop flag are the world; what a service registers, whether
  its initialisation or a dispatch throws and when the flag is set are answers. The loop has
  fuel, one unit for each reading of the stop flag; a run whose fuel is used up is cut there
  and counts as not finished (\<open>Abort\<close>), so a theorem that the loop returns has to show that
  the fuel was enough.
\<close>

section \<open>Events and answers\<close>

datatype ctx_call =
    EventFd
  | CloseFd int
  | LockReg
  | UnlockReg
  | InitSvc nat
  | UninitSvc nat
  | ReadClock
  | PPoll "int list" int int
  | ReadEventFd int
  | DispatchTimer nat nat
  | DispatchFd nat nat
  | StopFlag
  | ClearStop
  | SetStop
  | WriteEventFd int
  | ErrNo

record ctx_world =
  w_eventfd :: "ctx_call list \<Rightarrow> int"
  w_lock :: "ctx_call list \<Rightarrow> bool"
  w_init :: "ctx_call list \<Rightarrow> (register_type \<times> nat) list \<times> exn option"
  w_clock :: "ctx_call list \<Rightarrow> u64"
  w_ppoll :: "ctx_call list \<Rightarrow> int \<times> int list"
  w_read :: "ctx_call list \<Rightarrow> int"
  w_dispatch :: "ctx_call list \<Rightarrow> exn option"
  w_stop :: "ctx_call list \<Rightarrow> bool"
  w_errno :: "ctx_call list \<Rightarrow> int"

type_synonym 'a ctx_prog = "(ctx_world, ctx_call, 'a) prog"


section \<open>The operations\<close>

definition from_nanoseconds :: "u64 \<Rightarrow> int \<times> int" where
  "from_nanoseconds val = (uint (val div kNsPerSec), uint (val mod kNsPerSec))"

definition dispatch_call :: "ctx_call \<Rightarrow> unit ctx_prog" where
  "dispatch_call c = bindp (call w_dispatch c) (\<lambda>ex. case ex of None \<Rightarrow> ret () | Some e \<Rightarrow> throw e)"

text \<open>One timer: its new state and whether it is dispatched.\<close>

definition tick_timer :: "size_t \<Rightarrow> timer \<Rightarrow> timer \<times> bool" where
  "tick_timer frame_time t =
     (if frame_time \<ge> t_remaining t then
        (t\<lparr>t_remaining := t_frame_time t - min (frame_time - t_remaining t) (t_frame_time t)\<rparr>, True)
      else (t\<lparr>t_remaining := t_remaining t - frame_time\<rparr>, False))"

fun tick_loop :: "size_t \<Rightarrow> size_t \<Rightarrow> timer list \<Rightarrow> (timer list \<times> size_t) ctx_prog" where
  "tick_loop frame_time next [] = ret ([], next)"
| "tick_loop frame_time next (t # ts) = (case tick_timer frame_time t of (t', due) \<Rightarrow>
     bindp (if due then dispatch_call (DispatchTimer (t_svc t) (t_dispatch t)) else ret ()) (\<lambda>_.
     bindp (tick_loop frame_time (min next (t_remaining t')) ts) (\<lambda>(ts', n).
     ret (t' # ts', n))))"

definition tick_timers :: "timer list \<Rightarrow> size_t \<Rightarrow> size_t \<Rightarrow> (timer list \<times> size_t) ctx_prog" where
  "tick_timers ts frame_time max_frame_time = tick_loop frame_time max_frame_time ts"

text \<open>The failure of a system call, except for the one error that is ignored.\<close>

definition throw_errno_unless :: "int \<Rightarrow> unit ctx_prog" where
  "throw_errno_unless ok = bindp (call w_errno ErrNo) (\<lambda>e. if e \<noteq> ok then throw (SystemError e) else ret ())"

definition handle_event :: "int \<Rightarrow> (int \<times> readiness) list \<Rightarrow> int list \<Rightarrow> int \<Rightarrow> unit ctx_prog" where
  "handle_event event_fd notes readable fd =
     (if fd \<notin> set readable then ret ()
      else if fd = event_fd then
        bindp (call w_read (ReadEventFd event_fd)) (\<lambda>r. if r < 0 then throw_errno_unless EAGAIN else ret ())
      else (case map_of notes fd of
          Some r \<Rightarrow> dispatch_call (DispatchFd (r_svc r) (r_dispatch r))
        | None \<Rightarrow> ret ()))"

text \<open>
  The body of the loop: the time since the last iteration, the timers, the sleep until the
  next one is due, and the descriptors that are readable. The result is the state that the
  next iteration starts from.
\<close>

definition loop_body ::
  "u64 \<Rightarrow> int \<Rightarrow> (int \<times> readiness) list \<Rightarrow> timer list \<Rightarrow> u64 \<Rightarrow> (timer list \<times> u64) ctx_prog" where
  "loop_body max_ft event_fd notes ts frame_start =
     bindp (call w_clock ReadClock) (\<lambda>frame_stop.
     bindp (tick_timers ts (frame_stop - frame_start) max_ft) (\<lambda>(ts', next_timeout).
     bindp (call w_ppoll (PPoll (event_fd # map fst notes) (fst (from_nanoseconds next_timeout))
               (snd (from_nanoseconds next_timeout)))) (\<lambda>(poll_result, readable).
     bindp (if poll_result < 0 then throw_errno_unless EINTR else ret ()) (\<lambda>_.
     bindp (if poll_result > 0 then for_each (handle_event event_fd notes readable) (event_fd # map fst notes)
            else ret ()) (\<lambda>_. ret (ts', frame_stop))))))"

fun run_loop ::
  "nat \<Rightarrow> u64 \<Rightarrow> int \<Rightarrow> (int \<times> readiness) list \<Rightarrow> timer list \<Rightarrow> u64 \<Rightarrow> unit ctx_prog" where
  "run_loop 0 max_ft event_fd notes ts frame_start = terminate"
| "run_loop (Suc fuel) max_ft event_fd notes ts frame_start =
     bindp (call w_stop StopFlag) (\<lambda>stop.
     if stop then ret ()
     else bindp (loop_body max_ft event_fd notes ts frame_start) (\<lambda>(ts', frame_stop).
       run_loop fuel max_ft event_fd notes ts' frame_stop))"

definition uninit_all :: "nat list \<Rightarrow> unit ctx_prog" where
  "uninit_all ids = for_each (\<lambda>i. emit (UninitSvc i)) ids"

text \<open>
  Initialisation, with the services initialised so far: when one throws, those before it are
  uninitialised and the exception goes on.
\<close>

fun init_services :: "u64 \<Rightarrow> nat list \<Rightarrow> nat list \<Rightarrow> reg_state \<Rightarrow> reg_state ctx_prog" where
  "init_services ft initialized [] st = ret st"
| "init_services ft initialized (i # ids) st =
     bindp (call w_init (InitSvc i)) (\<lambda>(regs, ex).
       case register_all i ft regs st of
         None \<Rightarrow> terminate
       | Some st' \<Rightarrow>
           (case ex of
              None \<Rightarrow> init_services ft (initialized @ [i]) ids st'
            | Some e \<Rightarrow> bindp (uninit_all initialized) (\<lambda>_. throw e)))"

text \<open>
  \<open>Service::init\<close> and \<open>uninit\<close> call the virtual functions of the service. \<open>ServiceRegistry::init_all\<close> and
  \<open>uninit_all\<close>, which have no callers: \<open>init_all\<close> gives every service the register it was given, and
  with it the service that this register names.
\<close>

definition service_init :: "nat \<Rightarrow> ((register_type \<times> nat) list \<times> exn option) ctx_prog" where
  "service_init i = call w_init (InitSvc i)"

definition service_uninit :: "nat \<Rightarrow> unit ctx_prog" where
  "service_uninit i = noexcept (emit (UninitSvc i))"

fun registry_init_all :: "nat \<Rightarrow> u64 \<Rightarrow> nat list \<Rightarrow> reg_state \<Rightarrow> reg_state ctx_prog" where
  "registry_init_all svc ft [] st = ret st"
| "registry_init_all svc ft (i # ids) st =
     bindp (service_init i) (\<lambda>(regs, ex).
       case register_all svc ft regs st of
         None \<Rightarrow> terminate
       | Some st' \<Rightarrow> (case ex of
             None \<Rightarrow> registry_init_all svc ft ids st'
           | Some e \<Rightarrow> throw e))"

definition registry_uninit_all :: "nat list \<Rightarrow> unit ctx_prog" where
  "registry_uninit_all ids = for_each service_uninit ids"

definition run_initialized :: "nat \<Rightarrow> u64 \<Rightarrow> int \<Rightarrow> reg_state \<Rightarrow> unit ctx_prog" where
  "run_initialized fuel ft event_fd st =
     (if length (notifications st) + length (timers st) = 0 then ret ()
      else bindp (call w_clock ReadClock) (\<lambda>frame_start.
        bindp (run_loop fuel ft event_fd (notifications st) (timers st) frame_start) (\<lambda>_.
        emit ClearStop)))"

definition context_run :: "nat \<Rightarrow> u64 \<Rightarrow> nat list \<Rightarrow> unit ctx_prog" where
  "context_run fuel ft ids =
     bindp (call w_eventfd EventFd) (\<lambda>fd.
     if fd < 0 then bindp (call w_errno ErrNo) (\<lambda>e. throw (SystemError e))
     else guarded (emit (CloseFd fd))
       (bindp (call w_lock LockReg) (\<lambda>obtained.
        if \<not> obtained then terminate
        else guarded (emit UnlockReg)
          (bindp (init_services ft [] ids \<lparr>notifications = [], timers = []\<rparr>) (\<lambda>st.
           guarded (uninit_all ids) (run_initialized fuel ft fd st))))))"

definition request_stop :: "int \<Rightarrow> unit ctx_prog" where
  "request_stop event_fd = bindp (emit SetStop) (\<lambda>_. emit (WriteEventFd event_fd))"

text \<open>After \<open>init_all\<close> every descriptor and every timer is dispatched to the one service of its register.\<close>

definition all_of :: "nat \<Rightarrow> reg_state \<Rightarrow> bool" where
  "all_of svc st \<longleftrightarrow> (\<forall>n \<in> set (notifications st). r_svc (snd n) = svc) \<and> (\<forall>t \<in> set (timers st). t_svc t = svc)"

lemma register_all_of: "register_all svc ft rs st = Some st' \<Longrightarrow> all_of svc st \<Longrightarrow> all_of svc st'"
proof (induction rs arbitrary: st)
  case (Cons r rs)
  obtain val d st1 where r: "r = (val, d)" "register_readiness svc ft val d st = Some st1"
      "register_all svc ft rs st1 = Some st'"
    using Cons.prems(1) by (cases r) (auto simp: bind_eq_Some_conv)
  have "all_of svc st1"
    using r(2) Cons.prems(2)
    by (auto simp: register_readiness_def all_of_def emplace_def emplace_timer_def Let_def bind_eq_Some_conv
        split: register_type.splits if_splits dest!: in_set_takeD in_set_dropD)
  with Cons.IH [OF r(3)] show ?case by simp
qed simp

lemma init_all_names_one_service:
  "fst (registry_init_all svc ft ids st w t) = Ret st' \<Longrightarrow> all_of svc st \<Longrightarrow> all_of svc st'"
proof (induction ids arbitrary: st t)
  case (Cons i ids)
  then show ?case
    by (auto simp: service_init_def bindp_call_run prog_run dest: register_all_of
        split: prod.splits option.splits)
qed (simp add: prog_run)

section \<open>What the loop leaves in the history\<close>

fun is_body :: "ctx_call \<Rightarrow> bool" where
  "is_body EventFd = False"
| "is_body (CloseFd _) = False"
| "is_body LockReg = False"
| "is_body UnlockReg = False"
| "is_body (InitSvc _) = False"
| "is_body (UninitSvc _) = False"
| "is_body _ = True"

abbreviation body :: "'a outcome \<Rightarrow> ctx_call list \<Rightarrow> bool" where
  "body r es \<equiv> list_all is_body es"

lemma body_bindp:
  "runs p body \<Longrightarrow> (\<And>x. runs (f x) body) \<Longrightarrow> runs (bindp p f) body"
  by (rule runs_bindp [where P = body]) (auto elim!: runs_weaken)

lemma body_call: "is_body c \<Longrightarrow> runs (call f c) body"
  by (auto intro!: runs_call)

lemma body_ret: "runs (ret x) body"
  by (rule runs_ret) simp

lemma body_throw: "runs (throw e) body"
  by (rule runs_throw) simp

lemma body_terminate: "runs terminate body"
  by (rule runs_terminate) simp

lemmas body_intros = body_bindp body_call body_ret body_throw body_terminate

lemma dispatch_body: "is_body c \<Longrightarrow> runs (dispatch_call c) body"
  unfolding dispatch_call_def by (auto intro!: body_intros split: option.splits)

lemma tick_body: "runs (tick_loop ft n ts) body"
proof (induction ts arbitrary: n)
  case (Cons t ts)
  show ?case
    by (cases "tick_timer ft t") (auto intro!: body_intros Cons.IH dispatch_body)
qed (simp add: body_ret)

lemma throw_errno_body: "runs (throw_errno_unless k) body"
  unfolding throw_errno_unless_def by (auto intro!: body_intros)

lemma handle_event_body: "runs (handle_event efd notes readable fd) body"
  unfolding handle_event_def
  by (auto intro!: body_intros throw_errno_body dispatch_body split: option.splits)

lemma for_each_body: "(\<And>x. runs (f x) body) \<Longrightarrow> runs (for_each f xs) body"
  by (rule runs_for_each) auto

lemma loop_body_body: "runs (loop_body ft efd notes ts start) body"
  unfolding loop_body_def tick_timers_def
  by (auto intro!: body_intros tick_body throw_errno_body for_each_body handle_event_body
      split: prod.splits simp del: for_each.simps)

lemma run_loop_body: "runs (run_loop fuel ft efd notes ts start) body"
proof (induction fuel arbitrary: ts start)
  case (Suc fuel)
  then show ?case unfolding run_loop.simps
    by (auto intro!: body_intros loop_body_body split: prod.splits)
qed (simp add: body_terminate)

lemma run_initialized_body: "runs (run_initialized fuel ft efd st) body"
  unfolding run_initialized_def
  by (auto intro!: body_intros run_loop_body runs_emit)

lemma uninit_all_runs: "runs (uninit_all ids) (\<lambda>r es. r = Ret () \<and> es = map UninitSvc ids)"
  unfolding uninit_all_def
proof (induction ids)
  case (Cons i ids)
  show ?case unfolding for_each.simps
    by (rule runs_emit_bindp) (auto elim!: runs_weaken intro: Cons.IH)
qed (auto intro!: runs_ret)

section \<open>Scopes\<close>

text \<open>What initialisation leaves: all services, or those up to the one that threw, undone.\<close>

lemma init_services_runs:
  "runs (init_services ft ini ids st) (\<lambda>r es.
     (\<exists>st'. r = Ret st' \<and> es = map InitSvc ids) \<or>
     (\<exists>e k. r = Exc e \<and> k < length ids \<and>
        es = map InitSvc (take (Suc k) ids) @ map UninitSvc (ini @ take k ids)) \<or>
     r = Abort)"
proof (induction ids arbitrary: ini st)
  case Nil
  then show ?case unfolding init_services.simps by (rule runs_ret) simp
next
  case (Cons i ids)
  show ?case unfolding init_services.simps
  proof (rule runs_call_bindp)
    fix x :: "(register_type \<times> nat) list \<times> exn option"
    obtain regs ex where x: "x = (regs, ex)" by (cases x)
    let ?Q = "\<lambda>r es. (\<exists>st'. r = Ret st' \<and> InitSvc i # es = map InitSvc (i # ids)) \<or>
      (\<exists>e k. r = Exc e \<and> k < length (i # ids) \<and> InitSvc i # es =
         map InitSvc (take (Suc k) (i # ids)) @ map UninitSvc (ini @ take k (i # ids))) \<or> r = Abort"
    show "runs (case x of (regs, ex) \<Rightarrow>
        case register_all i ft regs st of None \<Rightarrow> terminate
        | Some st' \<Rightarrow> (case ex of None \<Rightarrow> init_services ft (ini @ [i]) ids st'
            | Some e \<Rightarrow> bindp (uninit_all ini) (\<lambda>_. throw e))) ?Q"
    proof (cases "register_all i ft regs st")
      case None
      then show ?thesis unfolding x by (auto intro: runs_terminate)
    next
      case (Some st')
      show ?thesis
      proof (cases ex)
        case None
        have "runs (init_services ft (ini @ [i]) ids st') ?Q"
          by (rule runs_weaken [OF Cons.IH]) force
        with Some None show ?thesis unfolding x by simp
      next
        case (Some e)
        have "runs (bindp (uninit_all ini) (\<lambda>_. throw e)) ?Q"
          by (rule runs_bindp [OF uninit_all_runs]) (auto intro!: runs_throw)
        with Some \<open>register_all i ft regs st = Some st'\<close> show ?thesis unfolding x by simp
      qed
    qed
  qed
qed

definition init_failed :: "nat list \<Rightarrow> unit outcome \<Rightarrow> ctx_call list \<Rightarrow> bool" where
  "init_failed ids r es \<longleftrightarrow> (\<exists>k < length ids. \<exists>e. r = Exc e \<and>
     es = map InitSvc (take (Suc k) ids) @ map UninitSvc (take k ids))"

definition all_bracketed :: "nat list \<Rightarrow> ctx_call list \<Rightarrow> bool" where
  "all_bracketed ids es \<longleftrightarrow>
     (\<exists>mid. list_all is_body mid \<and> es = map InitSvc ids @ mid @ map UninitSvc ids)"

lemma uninit_scope_runs:
  "runs (guarded (uninit_all ids) (run_initialized fuel ft fd st))
     (\<lambda>r es. r = Abort \<or> (\<exists>mid. list_all is_body mid \<and> es = mid @ map UninitSvc ids))"
  by (rule runs_guarded [OF _ uninit_all_runs])
    (auto intro: runs_weaken [OF run_initialized_body])

lemma services_scope_runs:
  "runs (bindp (init_services ft [] ids st) (\<lambda>st. guarded (uninit_all ids) (run_initialized fuel ft fd st)))
     (\<lambda>r es. r = Abort \<or> init_failed ids r es \<or> all_bracketed ids es)"
proof (rule runs_bindp [OF init_services_runs], goal_cases)
  case (1 st' es)
  then have "es = map InitSvc ids" by auto
  then show ?case
    by (auto simp: all_bracketed_def intro: runs_weaken [OF uninit_scope_runs])
qed (auto simp: init_failed_def)

lemma lock_scope_runs:
  "runs (bindp (call w_lock LockReg) (\<lambda>obtained.
       if \<not> obtained then terminate
       else guarded (emit UnlockReg)
         (bindp (init_services ft [] ids st) (\<lambda>st. guarded (uninit_all ids) (run_initialized fuel ft fd st)))))
     (\<lambda>r es. r = Abort \<or> (\<exists>mid. es = LockReg # mid @ [UnlockReg] \<and>
        (init_failed ids r mid \<or> all_bracketed ids mid)))"
proof (rule runs_call_bindp, rule runs_if, goal_cases)
  case (1 x)
  show ?case by (rule runs_terminate) simp
next
  case (2 x)
  show ?case
    by (rule runs_guarded [where fin = "[UnlockReg]"])
      (auto intro: runs_weaken [OF services_scope_runs] runs_emit)
qed

lemma fd_scope_runs:
  "runs (guarded (emit (CloseFd fd)) (bindp (call w_lock LockReg) (\<lambda>obtained.
       if \<not> obtained then terminate
       else guarded (emit UnlockReg)
         (bindp (init_services ft [] ids st) (\<lambda>st. guarded (uninit_all ids) (run_initialized fuel ft fd st))))))
     (\<lambda>r es. r = Abort \<or> (\<exists>mid. es = LockReg # mid @ [UnlockReg, CloseFd fd] \<and>
        (init_failed ids r mid \<or> all_bracketed ids mid)))"
  by (rule runs_guarded [where fin = "[CloseFd fd]"])
    (auto intro: runs_weaken [OF lock_scope_runs] runs_emit)

section \<open>Timers\<close>

lemma tick_timer_due: "snd (tick_timer e t) \<longleftrightarrow> t_remaining t \<le> e"
  by (simp add: tick_timer_def)

lemma tick_timer_frame_time [simp]: "t_frame_time (fst (tick_timer e t)) = t_frame_time t"
  by (simp add: tick_timer_def)

lemma tick_timer_remaining:
  "unat (t_remaining (fst (tick_timer e t))) =
     (if t_remaining t \<le> e
      then unat (t_frame_time t) - (unat e - unat (t_remaining t))
      else unat (t_remaining t) - unat e)"
proof (cases "t_remaining t \<le> e")
  case True
  have "unat (t_frame_time t - min (e - t_remaining t) (t_frame_time t)) =
      unat (t_frame_time t) - min (unat (e - t_remaining t)) (unat (t_frame_time t))"
    by (simp add: unat_sub min_def word_le_nat_alt)
  then show ?thesis using True by (auto simp: tick_timer_def unat_sub min_def)
next
  case False
  then show ?thesis by (simp add: tick_timer_def unat_sub)
qed

text \<open>A timer over a sequence of loop iterations, with the number of its dispatches.\<close>

fun run_timer :: "size_t list \<Rightarrow> timer \<Rightarrow> timer \<times> nat" where
  "run_timer [] t = (t, 0)"
| "run_timer (e # es) t = (case tick_timer e t of (t', due) \<Rightarrow>
     case run_timer es t' of (t'', n) \<Rightarrow> (t'', (if due then 1 else 0) + n))"

lemma run_timer_phase:
  assumes "\<forall>e \<in> set es. e \<le> t_frame_time t" "t_remaining t \<le> t_frame_time t"
    "run_timer es t = (t', n)"
  shows "t_frame_time t' = t_frame_time t \<and> t_remaining t' \<le> t_frame_time t \<and>
    sum_list (map unat es) + unat (t_remaining t') = n * unat (t_frame_time t) + unat (t_remaining t)"
  using assms
proof (induction es arbitrary: t n)
  case (Cons e es)
  obtain t1 due where t1: "tick_timer e t = (t1, due)" by (cases "tick_timer e t")
  obtain m where m: "run_timer es t1 = (t', m)" "n = (if due then 1 else 0) + m"
    using Cons.prems(3) t1 by (auto split: prod.splits)
  have e: "unat e \<le> unat (t_frame_time t)" "unat (t_remaining t) \<le> unat (t_frame_time t)"
    using Cons.prems(1,2) by (auto simp: word_le_nat_alt)
  have ft: "t_frame_time t1 = t_frame_time t" using tick_timer_frame_time [of e t] t1 by simp
  have rem: "unat e + unat (t_remaining t1) =
      (if due then unat (t_frame_time t) else 0) + unat (t_remaining t)"
    using tick_timer_remaining [of e t] tick_timer_due [of e t] t1 e
    by (auto simp: word_le_nat_alt)
  have "t_remaining t1 \<le> t_frame_time t1"
    using tick_timer_remaining [of e t] t1 e ft by (auto simp: word_le_nat_alt)
  then show ?case using Cons.IH [of t1 m] Cons.prems(1) m rem ft by (auto simp: algebra_simps)
qed simp

section \<open>Runs in which nothing fails\<close>

text \<open>
  The worlds in which no call fails and no service throws, and in which the stop flag is set
  by the time it has been read \<open>k\<close> times.
\<close>

definition quiet :: "u64 \<Rightarrow> ctx_world \<Rightarrow> bool" where
  "quiet ft w \<longleftrightarrow> (\<forall>t. 0 \<le> w_eventfd w t \<and> w_lock w t \<and> snd (w_init w t) = None \<and>
     (\<forall>i st. register_all i ft (fst (w_init w t)) st \<noteq> None) \<and>
     0 \<le> fst (w_ppoll w t) \<and> 0 \<le> w_read w t \<and> w_dispatch w t = None)"

definition stops_by :: "nat \<Rightarrow> ctx_world \<Rightarrow> bool" where
  "stops_by k w \<longleftrightarrow> (\<forall>t. k < count_list t StopFlag \<longrightarrow> w_stop w t)"

lemma dispatch_returns: "quiet ft w \<Longrightarrow> returns w (dispatch_call c)"
  unfolding dispatch_call_def by (rule returns_call_bindp) (simp add: quiet_def returns_ret)

lemma tick_returns: "quiet ft w \<Longrightarrow> returns w (tick_loop e n ts)"
proof (induction ts arbitrary: n)
  case (Cons t ts)
  then show ?case
    by (cases "tick_timer e t")
      (auto intro!: returns_bindp returns_ret dispatch_returns [of ft])
qed (simp add: returns_ret)

lemma quietD:
  assumes "quiet ft w"
  shows "\<not> w_read w t < 0" "w_ppoll w t = (a, b) \<Longrightarrow> \<not> a < 0" "\<not> w_eventfd w t < 0" "w_lock w t"
    "w_init w t = (rs, ex) \<Longrightarrow> ex = None" "w_init w t = (rs, ex) \<Longrightarrow> register_all i ft rs st \<noteq> None"
  using assms unfolding quiet_def by (metis fst_conv snd_conv not_less)+

lemma handle_event_returns: "quiet ft w \<Longrightarrow> returns w (handle_event efd notes readable fd)"
  unfolding handle_event_def
  by (auto intro!: returns_call_bindp returns_ret dispatch_returns [of ft] dest: quietD(1)
      split: option.splits)

lemma loop_body_returns: "quiet ft w \<Longrightarrow> returns w (loop_body ft efd notes ts start)"
  unfolding loop_body_def tick_timers_def
  by (auto intro!: returns_bindp [OF returns_call] returns_bindp [OF tick_returns [of ft]]
      returns_call_bindp returns_bindp [OF returns_ret] returns_bindp [OF returns_for_each]
      returns_ret handle_event_returns [of ft] split: prod.splits dest: quietD(2)
      simp del: for_each.simps)

lemma run_loop_returns:
  assumes q: "quiet ft w" and k: "stops_by k w"
  shows "0 < fuel \<Longrightarrow> k < count_list t StopFlag + fuel \<Longrightarrow>
    \<exists>es. run_loop fuel ft efd notes ts start w t = (Ret (), t @ es)"
proof (induction fuel arbitrary: t ts start)
  case (Suc fuel)
  let ?t = "t @ [StopFlag]"
  show ?case
  proof (cases "w_stop w ?t")
    case True
    then show ?thesis by (simp add: bindp_call_run ret_run)
  next
    case False
    then have c: "count_list t StopFlag + 1 \<le> k"
      using k unfolding stops_by_def by (metis count_list_append count_list.simps add.commute not_less plus_1_eq_Suc add_0)
    obtain ts' fs es where lb: "loop_body ft efd notes ts start w ?t = (Ret (ts', fs), ?t @ es)"
      using loop_body_returns [OF q, of efd "notes" ts start] unfolding returns_def
      by (metis prod.collapse)
    have "\<exists>es'. run_loop fuel ft efd notes ts' fs w (?t @ es) = (Ret (), (?t @ es) @ es')"
      using c Suc.prems by (intro Suc.IH) auto
    with False lb show ?thesis
      by (auto simp: bindp_call_run bindp_run_simps(1) [of "loop_body ft efd notes ts start", OF lb])
  qed
qed simp

lemma init_services_returns: "quiet ft w \<Longrightarrow> returns w (init_services ft ini ids st)"
proof (induction ids arbitrary: ini st)
  case (Cons i ids)
  show ?case unfolding init_services.simps
  proof (rule returns_call_bindp)
    fix t
    obtain rs ex where r: "w_init w t = (rs, ex)" by (cases "w_init w t")
    from quietD(5,6) [OF Cons.prems r] obtain st' where
      "ex = None" "register_all i ft rs st = Some st'" by fastforce
    then show "returns w (case w_init w t of (regs, ex) \<Rightarrow>
        case register_all i ft regs st of None \<Rightarrow> terminate
        | Some st' \<Rightarrow> (case ex of None \<Rightarrow> init_services ft (ini @ [i]) ids st'
            | Some e \<Rightarrow> bindp (uninit_all ini) (\<lambda>_. throw e)))"
      using r Cons.IH [OF Cons.prems] by simp
  qed
qed (simp add: returns_ret)

lemma run_initialized_returns:
  assumes "quiet ft w" "stops_by k w" "k < fuel"
  shows "returns w (run_initialized fuel ft fd st)"
proof -
  have "returns w (run_loop fuel ft fd (notifications st) (timers st) start)" for start
    using run_loop_returns [OF assms(1,2), of fuel] assms(3) unfolding returns_def
    by (metis gr_implies_not0 gr_zeroI trans_less_add2)
  then show ?thesis unfolding run_initialized_def
    by (auto intro!: returns_bindp returns_call returns_ret returns_emit)
qed

lemma context_run_returns:
  assumes "quiet ft w" "stops_by k w" "k < fuel"
  shows "returns w (context_run fuel ft ids)"
  unfolding context_run_def
  using quietD [OF assms(1)] run_initialized_returns [OF assms] init_services_returns [OF assms(1)]
  by (auto intro!: returns_call_bindp returns_guarded returns_emit returns_bindp [OF init_services_returns]
      returns_for_each simp: uninit_all_def assms(1))

section \<open>Properties\<close>

text \<open>
  (C2) The scopes of the event loop. However the kernel and the services answer, a run that
  does not end the process opens the event descriptor, takes the registry lock, initialises
  the services in order and, on return and on every exception, uninitialises exactly those that
  were initialised (all of them once the loop has started; those before the failing one when
  an initialisation throws), releases the lock and closes the same descriptor, in this order;
  between, there is no initialisation, uninitialisation, locking or closing.
\<close>

theorem context_run_closes_its_scopes:
  "\<exists>es. snd (context_run fuel ft ids w t) = t @ EventFd # es \<and>
     (let fd = w_eventfd w (t @ [EventFd]); r = fst (context_run fuel ft ids w t)
      in r = Abort \<or>
         (fd < 0 \<and> es = [ErrNo] \<and> (\<exists>e. r = Exc (SystemError e))) \<or>
         (0 \<le> fd \<and> (\<exists>mid. es = LockReg # mid @ [UnlockReg, CloseFd fd] \<and>
            (init_failed ids r mid \<or> all_bracketed ids mid))))"
proof (cases "w_eventfd w (t @ [EventFd]) < 0")
  case True
  then show ?thesis
    by (simp add: context_run_def bindp_call_run throw_run Let_def)
next
  case False
  let ?fd = "w_eventfd w (t @ [EventFd])"
  from runsD [OF fd_scope_runs [where fd = ?fd], of ft ids "\<lparr>notifications = [], timers = []\<rparr>" fuel w
      "t @ [EventFd]"] False show ?thesis
    unfolding context_run_def bindp_call_run by (auto simp: Let_def)
qed

text \<open>
  (C22) The loop stops. If no call fails, no service throws and the stop flag is set by the time
  it has been read \<open>k\<close> times, the run returns; fuel for \<open>k + 1\<close> iterations is enough.
\<close>

theorem context_run_stops:
  assumes "quiet ft w" "stops_by k w"
  shows "\<exists>es. context_run (Suc k) ft ids w t = (Ret (), t @ es)"
  using context_run_returns [OF assms, of "Suc k" ids] unfolding returns_def by auto

definition demo_world :: ctx_world where
  "demo_world = \<lparr>w_eventfd = (\<lambda>_. 3), w_lock = (\<lambda>_. True), w_init = (\<lambda>_. ([(OnFd 5, 0)], None)),
     w_clock = (\<lambda>t. of_nat (length t)), w_ppoll = (\<lambda>_. (1, [5])), w_read = (\<lambda>_. 8),
     w_dispatch = (\<lambda>_. None), w_stop = (\<lambda>t. 2 < count_list t StopFlag), w_errno = (\<lambda>_. 0)\<rparr>"

theorem context_run_stops_witness:
  "\<exists>es. context_run 3 16666666 [1, 2] demo_world [] = (Ret (), es)"
proof -
  have "quiet 16666666 demo_world"
    by (simp add: quiet_def demo_world_def register_readiness_def)
  moreover have "stops_by 2 demo_world"
    by (simp add: stops_by_def demo_world_def)
  ultimately show ?thesis
    using context_run_stops [of 16666666 demo_world 2 "[1, 2]" "[]"] by (simp add: numeral_3_eq_3)
qed

text \<open>
  (C29) Timers do not drift. Over any sequence of iterations none of which takes longer than the
  timer's period, the number of dispatches times the period is at least the time elapsed and
  exceeds it by at most one period: after \<open>T\<close> nanoseconds the timer has fired \<open>T / period\<close>
  times, rounded, however the time was divided into iterations.
\<close>

theorem timers_do_not_drift:
  assumes "\<forall>e \<in> set es. e \<le> t_frame_time tm" "t_remaining tm = 0" "run_timer es tm = (tm', n)"
  shows "sum_list (map unat es) \<le> n * unat (t_frame_time tm) \<and>
    n * unat (t_frame_time tm) \<le> sum_list (map unat es) + unat (t_frame_time tm)"
proof -
  from run_timer_phase [OF assms(1) _ assms(3)] assms(2) have
    "t_remaining tm' \<le> t_frame_time tm"
    "sum_list (map unat es) + unat (t_remaining tm') = n * unat (t_frame_time tm)" by simp_all
  then show ?thesis by (simp add: word_le_nat_alt)
qed

definition demo_timer :: timer where
  "demo_timer = \<lparr>t_svc = 1, t_dispatch = 0, t_frame_time = 16, t_remaining = 0\<rparr>"

theorem timers_do_not_drift_witness:
  "snd (run_timer [3, 16, 9, 5, 14] demo_timer) = 3 \<and> (3 + 16 + 9 + 5 + 14 :: nat) \<le> 3 * 16"
proof -
  obtain tm' n where r: "run_timer [3, 16, 9, 5, 14] demo_timer = (tm', n)"
    by (cases "run_timer [3, 16, 9, 5, 14] demo_timer")
  moreover have "n = 3"
    using r by (auto simp: demo_timer_def tick_timer_def split: if_splits)
  ultimately show ?thesis
    using timers_do_not_drift [of "[3, 16, 9, 5, 14]" demo_timer tm' n]
    by (simp add: demo_timer_def)
qed

end
