(* ===== verification/Media.thy ===== *)
theory Media
  imports Effects "HOL-Library.Multiset"
begin

text \<open>
  Audio data: the sample formats and their conversions (\<open>src/av/sample_format.hpp\<close>,
  \<open>sample_format.cpp\<close>), the byte buffer that grows at the back and is consumed at the front
  (\<open>DynamicBuffer\<close>) and the chunk of channel buffers (\<open>MediaChunk\<close>, \<open>src/av/media_chunk.cpp\<close>).
  Sizes are natural numbers: they are lengths of containers, which are bounded by memory.
\<close>

section \<open>Sample formats\<close>

datatype sample_format =
    u8_interleaved | s16_interleaved | s32_interleaved | float_interleaved | double_interleaved
  | s64_interleaved | u8_planar | s16_planar | s32_planar | float_planar | double_planar | s64_planar

text \<open>The value of the enumerator, which orders the formats.\<close>

fun enum_value :: "sample_format \<Rightarrow> nat" where
  "enum_value u8_interleaved = 1"
| "enum_value s16_interleaved = 2"
| "enum_value s32_interleaved = 3"
| "enum_value float_interleaved = 4"
| "enum_value double_interleaved = 5"
| "enum_value s64_interleaved = 6"
| "enum_value u8_planar = 7"
| "enum_value s16_planar = 8"
| "enum_value s32_planar = 9"
| "enum_value float_planar = 10"
| "enum_value double_planar = 11"
| "enum_value s64_planar = 12"

lemma enum_value_inj: "enum_value a = enum_value b \<Longrightarrow> a = b"
  by (cases a; cases b) simp_all

instantiation sample_format :: linorder
begin

definition less_eq_sample_format :: "sample_format \<Rightarrow> sample_format \<Rightarrow> bool" where
  "a \<le> b \<longleftrightarrow> enum_value a \<le> enum_value b"

definition less_sample_format :: "sample_format \<Rightarrow> sample_format \<Rightarrow> bool" where
  "a < b \<longleftrightarrow> enum_value a < enum_value b"

instance
  by standard (auto simp: less_eq_sample_format_def less_sample_format_def dest: enum_value_inj)

end

fun is_interleaved_format :: "sample_format \<Rightarrow> bool" where
  "is_interleaved_format u8_interleaved = True"
| "is_interleaved_format s16_interleaved = True"
| "is_interleaved_format s32_interleaved = True"
| "is_interleaved_format float_interleaved = True"
| "is_interleaved_format double_interleaved = True"
| "is_interleaved_format s64_interleaved = True"
| "is_interleaved_format _ = False"

definition is_planar_format :: "sample_format \<Rightarrow> bool" where
  "is_planar_format fmt = (\<not> is_interleaved_format fmt)"

fun sample_format_size :: "sample_format \<Rightarrow> nat" where
  "sample_format_size u8_interleaved = 1"
| "sample_format_size u8_planar = 1"
| "sample_format_size s16_interleaved = 2"
| "sample_format_size s16_planar = 2"
| "sample_format_size s32_interleaved = 4"
| "sample_format_size s32_planar = 4"
| "sample_format_size float_interleaved = 4"
| "sample_format_size float_planar = 4"
| "sample_format_size _ = 8"

text \<open>libav's formats; the list of a codec ends with the negative value \<open>AV_SAMPLE_FMT_NONE\<close>.\<close>

datatype av_sample_format =
    AV_SAMPLE_FMT_NONE | AV_SAMPLE_FMT_U8 | AV_SAMPLE_FMT_S16 | AV_SAMPLE_FMT_S32
  | AV_SAMPLE_FMT_FLT | AV_SAMPLE_FMT_DBL | AV_SAMPLE_FMT_U8P | AV_SAMPLE_FMT_S16P
  | AV_SAMPLE_FMT_S32P | AV_SAMPLE_FMT_FLTP | AV_SAMPLE_FMT_DBLP | AV_SAMPLE_FMT_S64
  | AV_SAMPLE_FMT_S64P | AV_SAMPLE_FMT_OTHER nat

fun convert_to_libav_format :: "sample_format \<Rightarrow> av_sample_format outcome" where
  "convert_to_libav_format u8_interleaved = Ret AV_SAMPLE_FMT_U8"
| "convert_to_libav_format s16_interleaved = Ret AV_SAMPLE_FMT_S16"
| "convert_to_libav_format s32_interleaved = Ret AV_SAMPLE_FMT_S32"
| "convert_to_libav_format float_interleaved = Ret AV_SAMPLE_FMT_FLT"
| "convert_to_libav_format double_interleaved = Ret AV_SAMPLE_FMT_DBL"
| "convert_to_libav_format s64_interleaved = Ret AV_SAMPLE_FMT_S64"
| "convert_to_libav_format u8_planar = Ret AV_SAMPLE_FMT_U8P"
| "convert_to_libav_format s16_planar = Ret AV_SAMPLE_FMT_S16P"
| "convert_to_libav_format s32_planar = Ret AV_SAMPLE_FMT_S32P"
| "convert_to_libav_format float_planar = Ret AV_SAMPLE_FMT_FLTP"
| "convert_to_libav_format double_planar = Ret AV_SAMPLE_FMT_DBLP"
| "convert_to_libav_format s64_planar = Ret AV_SAMPLE_FMT_S64P"

fun convert_from_libav_format :: "av_sample_format \<Rightarrow> sample_format outcome" where
  "convert_from_libav_format AV_SAMPLE_FMT_U8 = Ret u8_interleaved"
| "convert_from_libav_format AV_SAMPLE_FMT_S16 = Ret s16_interleaved"
| "convert_from_libav_format AV_SAMPLE_FMT_S32 = Ret s32_interleaved"
| "convert_from_libav_format AV_SAMPLE_FMT_FLT = Ret float_interleaved"
| "convert_from_libav_format AV_SAMPLE_FMT_DBL = Ret double_interleaved"
| "convert_from_libav_format AV_SAMPLE_FMT_S64 = Ret s64_interleaved"
| "convert_from_libav_format AV_SAMPLE_FMT_U8P = Ret u8_planar"
| "convert_from_libav_format AV_SAMPLE_FMT_S16P = Ret s16_planar"
| "convert_from_libav_format AV_SAMPLE_FMT_S32P = Ret s32_planar"
| "convert_from_libav_format AV_SAMPLE_FMT_FLTP = Ret float_planar"
| "convert_from_libav_format AV_SAMPLE_FMT_DBLP = Ret double_planar"
| "convert_from_libav_format AV_SAMPLE_FMT_S64P = Ret s64_planar"
| "convert_from_libav_format _ = Exc (RuntimeError ''Unsupported libav sample format'')"

datatype spa_audio_format =
    SPA_AUDIO_FORMAT_U8 | SPA_AUDIO_FORMAT_S16 | SPA_AUDIO_FORMAT_S32 | SPA_AUDIO_FORMAT_F32
  | SPA_AUDIO_FORMAT_F64 | SPA_AUDIO_FORMAT_U8P | SPA_AUDIO_FORMAT_S16P | SPA_AUDIO_FORMAT_S32P
  | SPA_AUDIO_FORMAT_F32P | SPA_AUDIO_FORMAT_F64P

fun convert_to_pipewire_format :: "sample_format \<Rightarrow> spa_audio_format outcome" where
  "convert_to_pipewire_format u8_interleaved = Ret SPA_AUDIO_FORMAT_U8"
| "convert_to_pipewire_format s16_interleaved = Ret SPA_AUDIO_FORMAT_S16"
| "convert_to_pipewire_format s32_interleaved = Ret SPA_AUDIO_FORMAT_S32"
| "convert_to_pipewire_format float_interleaved = Ret SPA_AUDIO_FORMAT_F32"
| "convert_to_pipewire_format double_interleaved = Ret SPA_AUDIO_FORMAT_F64"
| "convert_to_pipewire_format u8_planar = Ret SPA_AUDIO_FORMAT_U8P"
| "convert_to_pipewire_format s16_planar = Ret SPA_AUDIO_FORMAT_S16P"
| "convert_to_pipewire_format s32_planar = Ret SPA_AUDIO_FORMAT_S32P"
| "convert_to_pipewire_format float_planar = Ret SPA_AUDIO_FORMAT_F32P"
| "convert_to_pipewire_format double_planar = Ret SPA_AUDIO_FORMAT_F64P"
| "convert_to_pipewire_format _ = Exc (RuntimeError ''No viable Pipewire sample format conversion '')"

fun sample_format_name :: "sample_format \<Rightarrow> string" where
  "sample_format_name u8_interleaved = ''u8_interleaved''"
| "sample_format_name s16_interleaved = ''s16_interleaved''"
| "sample_format_name s32_interleaved = ''s32_interleaved''"
| "sample_format_name float_interleaved = ''float_interleaved''"
| "sample_format_name double_interleaved = ''double_interleaved''"
| "sample_format_name u8_planar = ''u8_planar''"
| "sample_format_name s16_planar = ''s16_planar''"
| "sample_format_name s32_planar = ''s32_planar''"
| "sample_format_name float_planar = ''float_planar''"
| "sample_format_name double_planar = ''double_planar''"
| "sample_format_name s64_interleaved = ''s64_interleaved''"
| "sample_format_name s64_planar = ''s64_planar''"

text \<open>
  The array of a codec is null (\<open>None\<close>) or ends with a negative entry; an array that does not
  would be read out of bounds (\<open>Abort\<close>).
\<close>

fun collect_formats :: "av_sample_format list \<Rightarrow> sample_format list outcome" where
  "collect_formats [] = Abort"
| "collect_formats (f # fs) =
     (if f = AV_SAMPLE_FMT_NONE then Ret []
      else bind_out (convert_from_libav_format f) (\<lambda>x. bind_out (collect_formats fs) (\<lambda>xs. Ret (x # xs))))"

definition find_supported_formats :: "av_sample_format list option \<Rightarrow> sample_format list outcome" where
  "find_supported_formats sample_fmts = (case sample_fmts of
       None \<Rightarrow> Ret []
     | Some fs \<Rightarrow> bind_out (collect_formats fs) (\<lambda>xs. Ret (rev (sort xs))))"

definition find_supported_sample_rates :: "int list option \<Rightarrow> int list" where
  "find_supported_sample_rates rates = (case rates of
       None \<Rightarrow> []
     | Some p \<Rightarrow> takeWhile (\<lambda>r. r \<noteq> 0) p)"

definition is_sample_rate_supported :: "u32 \<Rightarrow> int list option \<Rightarrow> bool" where
  "is_sample_rate_supported requested rates =
     (let supported = find_supported_sample_rates rates
      in length supported = 0 \<or> requested \<in> of_int ` set supported)"

section \<open>The byte buffer\<close>

record dynamic_buffer =
  buf_data :: "u8 list"
  bytes_committed :: nat

definition empty_buffer :: dynamic_buffer where
  "empty_buffer = \<lparr>buf_data = [], bytes_committed = 0\<rparr>"

definition buf_reset :: "dynamic_buffer \<Rightarrow> dynamic_buffer" where
  "buf_reset b = b\<lparr>bytes_committed := 0\<rparr>"

definition buf_size :: "dynamic_buffer \<Rightarrow> nat" where
  "buf_size b = bytes_committed b"

definition buf_capacity :: "dynamic_buffer \<Rightarrow> nat" where
  "buf_capacity b = length (buf_data b) - buf_size b"

text \<open>\<open>prepare\<close> makes room; the span it returns starts at \<open>bytes_committed\<close> and runs to the end.\<close>

definition buf_prepare :: "nat \<Rightarrow> dynamic_buffer \<Rightarrow> dynamic_buffer" where
  "buf_prepare n b =
     (if n > buf_capacity b then b\<lparr>buf_data := buf_data b @ replicate (n - buf_capacity b) 0\<rparr> else b)"

text \<open>Writing through the span; more bytes than it has are out of bounds.\<close>

definition buf_write :: "u8 list \<Rightarrow> dynamic_buffer \<Rightarrow> dynamic_buffer option" where
  "buf_write src b =
     (if length src \<le> length (buf_data b) - bytes_committed b \<and> bytes_committed b \<le> length (buf_data b)
      then Some (b\<lparr>buf_data := take (bytes_committed b) (buf_data b) @ src @
             drop (bytes_committed b + length src) (buf_data b)\<rparr>)
      else None)"

definition buf_commit :: "nat \<Rightarrow> dynamic_buffer \<Rightarrow> dynamic_buffer option" where
  "buf_commit n b =
     (if n \<le> length (buf_data b) - bytes_committed b then Some (b\<lparr>bytes_committed := bytes_committed b + n\<rparr>)
      else None)"

definition buf_consume :: "nat \<Rightarrow> dynamic_buffer \<Rightarrow> dynamic_buffer option" where
  "buf_consume n b =
     (if n \<le> bytes_committed b
      then Some (b\<lparr>buf_data := drop n (buf_data b), bytes_committed := bytes_committed b - n\<rparr>)
      else None)"

definition buf_contents :: "dynamic_buffer \<Rightarrow> u8 list" where
  "buf_contents b = take (bytes_committed b) (buf_data b)"

text \<open>The sequence the clients use: prepare, copy, commit.\<close>

definition buf_append :: "u8 list \<Rightarrow> dynamic_buffer \<Rightarrow> dynamic_buffer option" where
  "buf_append src b = do { b \<leftarrow> buf_write src (buf_prepare (length src) b); buf_commit (length src) b }"

section \<open>Chunks\<close>

record media_chunk =
  timestamp_ms :: nat
  sample_count :: nat
  channel_buffers :: "dynamic_buffer list"

definition chunk_reset :: "media_chunk \<Rightarrow> media_chunk" where
  "chunk_reset c = c\<lparr>timestamp_ms := 0, sample_count := 0, channel_buffers := map buf_reset (channel_buffers c)\<rparr>"

section \<open>A queue of bytes\<close>

definition buf_inv :: "dynamic_buffer \<Rightarrow> bool" where
  "buf_inv b \<longleftrightarrow> bytes_committed b \<le> length (buf_data b)"

text \<open>What the buffer promises to those who fill it at one end and drain it at the other.\<close>

locale byte_queue =
  fixes append :: "'b list \<Rightarrow> 's \<Rightarrow> 's option"
    and consume :: "nat \<Rightarrow> 's \<Rightarrow> 's option"
    and contents :: "'s \<Rightarrow> 'b list"
    and inv :: "'s \<Rightarrow> bool"
  assumes append_ok: "inv s \<Longrightarrow> \<exists>s'. append xs s = Some s' \<and> inv s' \<and> contents s' = contents s @ xs"
    and consume_ok: "inv s \<Longrightarrow> n \<le> length (contents s) \<Longrightarrow>
      \<exists>s'. consume n s = Some s' \<and> inv s' \<and> contents s' = drop n (contents s)"
begin

lemma append_all:
  "inv s \<Longrightarrow> \<exists>s'. run_steps append xss s = Some s' \<and> inv s' \<and> contents s' = contents s @ concat xss"
proof (induction xss arbitrary: s)
  case (Cons xs xss)
  from append_ok [OF Cons.prems, of xs] obtain t where
    t: "append xs s = Some t" "inv t" "contents t = contents s @ xs" by blast
  from Cons.IH [OF t(2)] t show ?case by auto
qed auto

text \<open>Draining in steps of \<open>n\<close> gives the contents back in order.\<close>

lemma consume_all:
  "inv s \<Longrightarrow> k * n \<le> length (contents s) \<Longrightarrow>
   \<exists>s'. run_steps consume (replicate k n) s = Some s' \<and> inv s' \<and> contents s' = drop (k * n) (contents s)"
proof (induction k arbitrary: s)
  case (Suc k)
  then have "n \<le> length (contents s)" by simp
  from consume_ok [OF Suc.prems(1) this] obtain t where
    t: "consume n s = Some t" "inv t" "contents t = drop n (contents s)" by blast
  have "k * n \<le> length (contents t)" using Suc.prems(2) t(3) by simp
  from Suc.IH [OF t(2) this] t show ?case by (auto simp: add.commute)
qed auto

end

lemma buf_append_spec:
  "buf_inv b \<Longrightarrow> \<exists>b'. buf_append xs b = Some b' \<and> buf_inv b' \<and> buf_contents b' = buf_contents b @ xs"
  by (auto simp: buf_append_def buf_prepare_def buf_write_def buf_commit_def buf_inv_def
      buf_contents_def buf_capacity_def buf_size_def)

lemma buf_consume_spec:
  "buf_inv b \<Longrightarrow> n \<le> length (buf_contents b) \<Longrightarrow>
   \<exists>b'. buf_consume n b = Some b' \<and> buf_inv b' \<and> buf_contents b' = drop n (buf_contents b)"
  by (auto simp: buf_consume_def buf_inv_def buf_contents_def drop_take)

interpretation bq: byte_queue buf_append buf_consume buf_contents buf_inv
  by unfold_locales (use buf_append_spec buf_consume_spec in blast)+

section \<open>Properties\<close>

text \<open>
  Sample formats. Conversion to libav's format and back is the identity, so no two formats
  share a libav format; conversion from libav refuses exactly the formats the program does not
  have, and every accepted one converts back to itself.
\<close>

lemma sample_format_round_trip:
  "bind_out (convert_to_libav_format f) convert_from_libav_format = Ret f \<and>
   (case convert_from_libav_format a of
      Ret g \<Rightarrow> convert_to_libav_format g = Ret a
    | Exc e \<Rightarrow> a \<in> insert AV_SAMPLE_FMT_NONE (range AV_SAMPLE_FMT_OTHER)
    | Abort \<Rightarrow> False)"
  by (cases f; cases a) simp_all

text \<open>
  (C31) The byte buffer is a queue: after any appends from the empty buffer its contents are the
  concatenation, and consuming in equal steps removes them from the front in order; neither
  ever fails an assertion or writes out of bounds.
\<close>

theorem dynamic_buffer_is_queue:
  assumes "k * n \<le> length (concat xss)"
  shows "\<exists>b b'. run_steps buf_append xss empty_buffer = Some b \<and> buf_contents b = concat xss \<and>
    run_steps buf_consume (replicate k n) b = Some b' \<and> buf_contents b' = drop (k * n) (concat xss)"
proof -
  have "buf_inv empty_buffer" "buf_contents empty_buffer = []"
    by (simp_all add: buf_inv_def empty_buffer_def buf_contents_def)
  from bq.append_all [OF this(1), of xss] this(2) obtain b where
    b: "run_steps buf_append xss empty_buffer = Some b" "buf_inv b" "buf_contents b = concat xss" by auto
  from bq.consume_all [OF b(2), of k n] assms b show ?thesis by auto
qed

theorem dynamic_buffer_is_queue_witness:
  "\<exists>b b'. run_steps buf_append [[1, 2, 3], [4, 5]] empty_buffer = Some b \<and>
     buf_contents b = [1, 2, 3, 4, 5] \<and>
     run_steps buf_consume [2, 2] b = Some b' \<and> buf_contents b' = [5]"
proof -
  have "2 * 2 \<le> length (concat [[1, 2, 3], [4, 5 :: u8]])" by simp
  from dynamic_buffer_is_queue [OF this] show ?thesis by (simp add: numeral_2_eq_2)
qed

end
