(* ===== verification/Audio.thy ===== *)
theory Audio
  imports Media
begin

text \<open>
  Audio capture (\<open>src/services/audio_service.cpp\<close>, \<open>audio_service.hpp\<close>) and the writer that turns
  captured samples into encoder frames (\<open>src/handlers/audio_chunk_writer.cpp\<close>). PipeWire's thread
  calls \<open>on_process\<close>, which appends to the input buffer and adds to an event counter; the event
  loop calls \<open>dispatch_chunks\<close>, which takes the counter and hands one frame after another to the
  listener. Both hold the mutex while they touch the buffer, so their effects interleave as
  whole steps. The event counter is the kernel's \<open>eventfd\<close>: writes add up, a read takes all.
\<close>

section \<open>Channel buffers\<close>

text \<open>
  \<open>prepare_buffer_channels\<close>. The loop that adds buffers ends when their number is
  \<open>num_channels\<close>; it starts with one buffer, so it would not end for zero channels. The contract
  at its end compares the size with a boolean before the conditional operator is applied, so
  its condition is the value of the conditional: 1 or the number of channels.
\<close>

definition prepare_buffer_channels :: "sample_format \<Rightarrow> nat \<Rightarrow> media_chunk \<Rightarrow> media_chunk outcome" where
  "prepare_buffer_channels fmt num_channels buffer =
     (if \<not> is_interleaved_format fmt \<and> num_channels = 0 then Abort
      else let bufs = (if is_interleaved_format fmt then [empty_buffer] else replicate num_channels empty_buffer);
               cond = (if (length bufs = (if is_interleaved_format fmt then 1 else 0)) then 1 else num_channels)
           in if cond \<noteq> 0 then Ret (buffer\<lparr>channel_buffers := bufs\<rparr>) else Abort)"

section \<open>The service\<close>

record audio_service =
  a_format :: sample_format
  a_frame_size :: nat
  a_input :: media_chunk
  a_event :: nat
  a_held :: nat

text \<open>What PipeWire hands out: nothing, a buffer without data, or a buffer with its channels.\<close>

datatype pw_buffer = OutOfBuffers | NoData | Buffer nat "u8 list list"

definition bytes_per_sample :: "sample_format \<Rightarrow> nat" where
  "bytes_per_sample fmt = sample_format_size fmt * (if is_interleaved_format fmt then 2 else 1)"

definition num_samples_of :: "sample_format \<Rightarrow> nat \<Rightarrow> nat" where
  "num_samples_of fmt num_bytes =
     (if is_interleaved_format fmt then (num_bytes div 2) div sample_format_size fmt
      else num_bytes div sample_format_size fmt)"

text \<open>A write to the event descriptor; one that would overflow the counter has no effect.\<close>

definition notify :: "nat \<Rightarrow> audio_service \<Rightarrow> audio_service" where
  "notify frames st =
     (if frames = 2 ^ 64 - 1 \<or> a_event st + frames > 2 ^ 64 - 2 then st
      else st\<lparr>a_event := a_event st + frames\<rparr>)"

text \<open>The copy loop; a channel with less memory than the chunk size is read out of bounds.\<close>

fun copy_channels :: "nat \<Rightarrow> u8 list list \<Rightarrow> dynamic_buffer list \<Rightarrow> dynamic_buffer list option" where
  "copy_channels n [] bufs = Some bufs"
| "copy_channels n (d # ds) [] = None"
| "copy_channels n (d # ds) (b # bufs) =
     (if length d < n then None
      else do { b' \<leftarrow> buf_append (take n d) b; bs \<leftarrow> copy_channels n ds bufs; Some (b' # bs) })"

definition process_data :: "nat \<Rightarrow> u8 list list \<Rightarrow> audio_service \<Rightarrow> audio_service outcome" where
  "process_data num_bytes channel_data st =
     (let num_samples = num_samples_of (a_format st) num_bytes; input = a_input st
      in if length channel_data \<noteq> length (channel_buffers input) then Abort
         else (case copy_channels num_bytes channel_data (channel_buffers input) of
             None \<Rightarrow> Abort
           | Some bufs \<Rightarrow>
               let input' = input\<lparr>channel_buffers := bufs, sample_count := sample_count input + num_samples\<rparr>;
                   st' = st\<lparr>a_input := input'\<rparr>
               in if a_frame_size st = 0 then Abort
                  else if sample_count input' \<ge> a_frame_size st
                  then Ret (notify (sample_count input' div a_frame_size st) st')
                  else Ret st'))"

text \<open>The buffer taken from the stream is queued again on every way out (\<open>RequeueBufferGuard\<close>).\<close>

definition requeue :: "audio_service outcome \<Rightarrow> audio_service outcome" where
  "requeue r = bind_out r (\<lambda>st. Ret (st\<lparr>a_held := a_held st - 1\<rparr>))"

definition on_process :: "pw_buffer \<Rightarrow> audio_service \<Rightarrow> audio_service outcome" where
  "on_process b st = (case b of
       OutOfBuffers \<Rightarrow> Ret st
     | NoData \<Rightarrow> requeue (Ret (st\<lparr>a_held := a_held st + 1\<rparr>))
     | Buffer num_bytes channel_data \<Rightarrow>
         requeue (process_data num_bytes channel_data (st\<lparr>a_held := a_held st + 1\<rparr>)))"

text \<open>Consuming one frame: only the first buffer when the format is interleaved.\<close>

fun consume_all_channels :: "nat \<Rightarrow> dynamic_buffer list \<Rightarrow> dynamic_buffer list option" where
  "consume_all_channels n [] = Some []"
| "consume_all_channels n (b # bs) =
     do { b' \<leftarrow> buf_consume n b; bs' \<leftarrow> consume_all_channels n bs; Some (b' # bs') }"

definition consume_frame :: "sample_format \<Rightarrow> nat \<Rightarrow> dynamic_buffer list \<Rightarrow> dynamic_buffer list option" where
  "consume_frame fmt frame_size bufs =
     (if is_interleaved_format fmt
      then (case bufs of [] \<Rightarrow> Some []
            | b # bs \<Rightarrow> do { b' \<leftarrow> buf_consume (sample_format_size fmt * frame_size * 2) b; Some (b' # bs) })
      else consume_all_channels (sample_format_size fmt * frame_size) bufs)"

text \<open>
  The loop over the frames announced. The listener gets the input buffer and its own state;
  the lock is taken and released in each round.
\<close>

fun dispatch_loop ::
  "(media_chunk \<Rightarrow> 'l \<Rightarrow> 'l outcome) \<Rightarrow> nat \<Rightarrow> audio_service \<Rightarrow> 'l \<Rightarrow> (audio_service \<times> 'l) outcome" where
  "dispatch_loop listener 0 st l = Ret (st, l)"
| "dispatch_loop listener (Suc n) st l =
     (if sample_count (a_input st) < a_frame_size st then Abort
      else bind_out (listener (a_input st) l) (\<lambda>l'.
        case consume_frame (a_format st) (a_frame_size st) (channel_buffers (a_input st)) of
          None \<Rightarrow> Abort
        | Some bufs \<Rightarrow> dispatch_loop listener n
            (st\<lparr>a_input := (a_input st)\<lparr>channel_buffers := bufs,
                 sample_count := sample_count (a_input st) - a_frame_size st\<rparr>\<rparr>) l'))"

text \<open>
  \<open>dispatch_chunks\<close>: with a counter of zero the read fails and the value that is used was
  never set (\<open>Abort\<close>). Without a listener the frames stay in the buffer.
\<close>

definition dispatch_chunks ::
  "(media_chunk \<Rightarrow> 'l \<Rightarrow> 'l outcome) option \<Rightarrow> audio_service \<Rightarrow> 'l \<Rightarrow> (audio_service \<times> 'l) outcome" where
  "dispatch_chunks chunk_listener st l =
     (if a_event st = 0 then Abort
      else let num_frames = a_event st; st' = st\<lparr>a_event := 0\<rparr>
           in (case chunk_listener of None \<Rightarrow> Ret (st', l)
               | Some listener \<Rightarrow> dispatch_loop listener num_frames st' l))"

section \<open>Setting up and tearing down\<close>

text \<open>
  The calls to PipeWire and the kernel, as events. \<open>start_pipewire\<close> returns early when the
  stream cannot be connected, and throws when there is no PipeWire format for the samples;
  \<open>on_uninit\<close> is \<open>noexcept\<close>.
\<close>

datatype audio_call =
    AEventFd | ACloseFd int | ARegister int
  | PwLoopNew | PwLock | PwPropertiesNew | PwPropertiesSet | PwStreamNew | PwConnect spa_audio_format nat
  | PwUnlock | PwStart | PwStop | PwStreamDestroy | PwLoopDestroy | StreamEnd

record audio_world =
  aw_eventfd :: "audio_call list \<Rightarrow> int"
  aw_connect :: "audio_call list \<Rightarrow> int"
  aw_stream_end :: "audio_call list \<Rightarrow> exn option"

type_synonym 'a audio_prog = "(audio_world, audio_call, 'a) prog"

definition out_prog :: "'a outcome \<Rightarrow> 'a audio_prog" where
  "out_prog r = (case r of Ret x \<Rightarrow> ret x | Exc e \<Rightarrow> throw e | Abort \<Rightarrow> terminate)"

definition start_pipewire :: "sample_format \<Rightarrow> nat \<Rightarrow> unit audio_prog" where
  "start_pipewire required_sample_format required_sample_rate =
     thenp (emit PwLoopNew) (thenp (emit PwLock) (thenp (emit PwPropertiesNew) (thenp (emit PwPropertiesSet)
     (thenp (emit PwStreamNew)
     (bindp (out_prog (convert_to_pipewire_format required_sample_format)) (\<lambda>fmt.
      bindp (call aw_connect (PwConnect fmt required_sample_rate)) (\<lambda>r.
      if r < 0 then ret () else thenp (emit PwUnlock) (emit PwStart))))))))"

definition stop_pipewire :: "unit audio_prog" where
  "stop_pipewire = thenp (emit PwStop) (thenp (emit PwStreamDestroy) (emit PwLoopDestroy))"

definition audio_on_init :: "sample_format \<Rightarrow> nat \<Rightarrow> media_chunk \<Rightarrow> (int \<times> media_chunk) audio_prog" where
  "audio_on_init fmt rate input =
     bindp (call aw_eventfd AEventFd) (\<lambda>fd.
     thenp (sc_expect (fd \<ge> 0))
     (thenp (emit (ARegister fd))
     (bindp (out_prog (prepare_buffer_channels fmt 2 input)) (\<lambda>input'.
      thenp (start_pipewire fmt rate) (ret (fd, input'))))))"

definition audio_on_uninit :: "int \<Rightarrow> bool \<Rightarrow> unit audio_prog" where
  "audio_on_uninit fd has_listener = noexcept
     (thenp (emit (ACloseFd fd))
     (thenp stop_pipewire
     (if has_listener
      then bindp (call aw_stream_end StreamEnd) (\<lambda>ex. case ex of None \<Rightarrow> ret () | Some e \<Rightarrow> throw e)
      else ret ())))"

text \<open>
  \<open>on_stream_param_changed\<close>: a null parameter or one of another kind is ignored, and so is one
  that does not parse; the media type is stored before it is looked at, the raw format only
  when it is raw audio.
\<close>

record audio_info =
  media_type :: nat
  media_subtype :: nat
  raw_format :: "nat \<times> nat"

definition on_stream_param_changed ::
  "nat \<Rightarrow> nat \<Rightarrow> nat \<Rightarrow> nat \<Rightarrow> ((nat \<times> nat) option \<times> (nat \<times> nat)) option \<Rightarrow> audio_info \<Rightarrow> audio_info" where
  "on_stream_param_changed param_format type_audio subtype_raw i param data = (case param of
       None \<Rightarrow> data
     | Some (parsed, raw) \<Rightarrow>
         if i \<noteq> param_format then data
         else (case parsed of
             None \<Rightarrow> data
           | Some (ty, sub) \<Rightarrow>
               let data' = data\<lparr>media_type := ty, media_subtype := sub\<rparr>
               in if ty \<noteq> type_audio \<or> sub \<noteq> subtype_raw then data' else data'\<lparr>raw_format := raw\<rparr>))"

section \<open>The chunk writer\<close>

record audio_frame =
  nb_samples :: nat
  pts :: nat
  planes :: "u8 list list"

record chunk_writer =
  cw_sample_fmt :: av_sample_format
  cw_frame_size :: nat
  total_samples_written :: nat

text \<open>\<open>initialize_writable_buffer\<close> (\<open>src/av/buffer.cpp\<close>), from the results of the two libav calls.\<close>

definition initialize_writable_buffer :: "(int \<Rightarrow> string) \<Rightarrow> int \<Rightarrow> int \<Rightarrow> unit outcome" where
  "initialize_writable_buffer av_strerror get_buffer make_writable =
     (if get_buffer < 0 then Exc (RuntimeError (av_strerror get_buffer))
      else if make_writable < 0 then Exc (RuntimeError ''Couldn't make frame writable'')
      else Ret ())"

text \<open>The copy of each channel: the first bytes of what the buffer holds, which must be enough.\<close>

fun copy_planes :: "nat \<Rightarrow> dynamic_buffer list \<Rightarrow> u8 list list option" where
  "copy_planes n [] = Some []"
| "copy_planes n (b # bs) =
     (if n \<le> length (buf_contents b)
      then do { ps \<leftarrow> copy_planes n bs; Some (take n (buf_contents b) # ps) } else None)"

definition chunk_writer_call ::
  "unit outcome \<Rightarrow> chunk_writer \<Rightarrow> media_chunk \<Rightarrow> (audio_frame \<times> chunk_writer) outcome" where
  "chunk_writer_call init cw chunk =
     (if sample_count chunk < cw_frame_size cw then Abort
      else bind_out (convert_from_libav_format (cw_sample_fmt cw)) (\<lambda>fmt.
        let frame_pts = total_samples_written cw;
            cw' = cw\<lparr>total_samples_written := total_samples_written cw + cw_frame_size cw\<rparr>
        in bind_out init (\<lambda>_.
             let num_bytes = (if is_interleaved_format fmt then cw_frame_size cw * sample_format_size fmt * 2
                              else cw_frame_size cw * sample_format_size fmt)
             in (case copy_planes num_bytes (channel_buffers chunk) of
                   None \<Rightarrow> Abort
                 | Some ps \<Rightarrow> Ret (\<lparr>nb_samples = cw_frame_size cw, pts = frame_pts, planes = ps\<rparr>, cw')))))"

text \<open>The writer as the listener of the service: its frames go to the encoder, in order.\<close>

definition write_chunk ::
  "unit outcome \<Rightarrow> media_chunk \<Rightarrow> chunk_writer \<times> audio_frame list \<Rightarrow> (chunk_writer \<times> audio_frame list) outcome" where
  "write_chunk init chunk l =
     bind_out (chunk_writer_call init (fst l) chunk) (\<lambda>(f, cw). Ret (cw, snd l @ [f]))"

section \<open>Lemmas\<close>

lemma sample_format_size_pos: "0 < sample_format_size fmt"
  by (cases fmt) simp_all

lemma num_samples_of_div: "num_samples_of fmt n = n div bytes_per_sample fmt"
  by (simp add: num_samples_of_def bytes_per_sample_def div_mult2_eq [symmetric] mult.commute)

text \<open>
  Every initialisation with two channels passes the contract, whichever way the conditional is
  read, and gives the channels that the format asks for.
\<close>

lemma prepare_two_channels:
  "prepare_buffer_channels fmt 2 chunk = Ret (chunk\<lparr>channel_buffers :=
     replicate (if is_interleaved_format fmt then 1 else 2) empty_buffer\<rparr>)"
  by (simp add: prepare_buffer_channels_def numeral_2_eq_2)

text \<open>A stream that does not connect leaves the loop locked and not started.\<close>

lemma start_pipewire_not_connected:
  assumes "convert_to_pipewire_format fmt = Ret f" "\<And>t. aw_connect w t < 0"
  shows "start_pipewire fmt rate w t =
    (Ret (), t @ [PwLoopNew, PwLock, PwPropertiesNew, PwPropertiesSet, PwStreamNew, PwConnect f rate])"
  using assms by (simp add: start_pipewire_def out_prog_def bindp_emit_run bindp_ret_run bindp_call_run ret_run)

lemma copy_channels_ok:
  assumes "length ds = length bufs" "\<forall>d \<in> set ds. n \<le> length d" "\<forall>b \<in> set bufs. buf_inv b"
  shows "\<exists>bufs'. copy_channels n ds bufs = Some bufs' \<and> (\<forall>b \<in> set bufs'. buf_inv b) \<and>
    map buf_contents bufs' = map2 (\<lambda>b d. buf_contents b @ take n d) bufs ds"
  using assms
proof (induction ds bufs rule: list_induct2)
  case (Cons d ds b bufs)
  from buf_append_spec [of b "take n d"] Cons.prems obtain b' where
    b': "buf_append (take n d) b = Some b'" "buf_inv b'" "buf_contents b' = buf_contents b @ take n d"
    by auto
  from Cons.IH Cons.prems b' show ?case by auto
qed simp

lemma consume_all_channels_ok:
  "\<forall>b \<in> set bufs. buf_inv b \<and> n \<le> length (buf_contents b) \<Longrightarrow>
   \<exists>bufs'. consume_all_channels n bufs = Some bufs' \<and> (\<forall>b \<in> set bufs'. buf_inv b) \<and>
     map buf_contents bufs' = map (drop n \<circ> buf_contents) bufs"
proof (induction bufs)
  case (Cons b bufs)
  from buf_consume_spec [of b n] Cons.prems obtain b' where
    b': "buf_consume n b = Some b'" "buf_inv b'" "buf_contents b' = drop n (buf_contents b)" by auto
  from Cons b' show ?case by auto
qed simp

text \<open>The channels the format asks for.\<close>

definition channels_ok :: "sample_format \<Rightarrow> dynamic_buffer list \<Rightarrow> bool" where
  "channels_ok fmt bufs \<longleftrightarrow> (\<forall>b \<in> set bufs. buf_inv b) \<and> (is_interleaved_format fmt \<longrightarrow> length bufs = 1)"

lemma consume_frame_bytes:
  "consume_frame fmt fs bufs = (if is_interleaved_format fmt
     then (case bufs of [] \<Rightarrow> Some []
           | b # bs \<Rightarrow> do { b' \<leftarrow> buf_consume (fs * bytes_per_sample fmt) b; Some (b' # bs) })
     else consume_all_channels (fs * bytes_per_sample fmt) bufs)"
  by (cases bufs) (simp_all add: consume_frame_def bytes_per_sample_def mult.commute mult.left_commute)

lemma consume_frame_ok:
  assumes "channels_ok fmt bufs" "\<forall>b \<in> set bufs. fs * bytes_per_sample fmt \<le> length (buf_contents b)"
  shows "\<exists>bufs'. consume_frame fmt fs bufs = Some bufs' \<and> channels_ok fmt bufs' \<and>
    map buf_contents bufs' = map (drop (fs * bytes_per_sample fmt) \<circ> buf_contents) bufs"
proof -
  from consume_all_channels_ok [of bufs "fs * bytes_per_sample fmt"] assms obtain bufs' where
    b: "consume_all_channels (fs * bytes_per_sample fmt) bufs = Some bufs'" "\<forall>b \<in> set bufs'. buf_inv b"
    "map buf_contents bufs' = map (drop (fs * bytes_per_sample fmt) \<circ> buf_contents) bufs"
    by (auto simp: channels_ok_def)
  have "length bufs' = length bufs" using b(3) by (metis length_map)
  then have ok: "channels_ok fmt bufs'" using assms(1) b(2) by (simp add: channels_ok_def)
  have "consume_frame fmt fs bufs = Some bufs'"
  proof (cases "is_interleaved_format fmt")
    case True
    then obtain c where "bufs = [c]" using assms(1) by (auto simp: channels_ok_def length_Suc_conv)
    then show ?thesis using True b(1) by (auto simp: consume_frame_bytes bind_eq_Some_conv)
  qed (use b(1) in \<open>simp add: consume_frame_bytes\<close>)
  with b ok show ?thesis by blast
qed

lemma copy_planes_ok:
  "\<forall>b \<in> set bufs. n \<le> length (buf_contents b) \<Longrightarrow>
   copy_planes n bufs = Some (map (take n \<circ> buf_contents) bufs)"
  by (induction bufs) auto

section \<open>The service between two dispatches\<close>

definition channels :: "audio_service \<Rightarrow> u8 list list" where
  "channels st = map buf_contents (channel_buffers (a_input st))"

definition holds_samples :: "nat \<Rightarrow> nat \<Rightarrow> u8 list list \<Rightarrow> bool" where
  "holds_samples n bps cs \<longleftrightarrow> (\<forall>c \<in> set cs. n * bps \<le> length c)"

lemma holds_samples_drop: "holds_samples n bps cs \<Longrightarrow> holds_samples (n - m) bps (map (drop (m * bps)) cs)"
  by (auto simp: holds_samples_def diff_mult_distrib intro: diff_le_mono)

text \<open>The buffers hold the samples counted, and maybe the bytes of an incomplete one.\<close>

definition audio_inv :: "audio_service \<Rightarrow> bool" where
  "audio_inv st \<longleftrightarrow> 0 < a_frame_size st \<and> channels_ok (a_format st) (channel_buffers (a_input st)) \<and>
     holds_samples (sample_count (a_input st)) (bytes_per_sample (a_format st)) (channels st)"

definition frame_bytes :: "audio_service \<Rightarrow> nat" where
  "frame_bytes st = a_frame_size st * bytes_per_sample (a_format st)"

text \<open>The state after \<open>n\<close> frames have been taken, as far as it matters.\<close>

definition taken :: "nat \<Rightarrow> audio_service \<Rightarrow> audio_service \<Rightarrow> bool" where
  "taken n st st' \<longleftrightarrow> audio_inv st' \<and> a_format st' = a_format st \<and> a_frame_size st' = a_frame_size st \<and>
     a_event st' = a_event st \<and>
     sample_count (a_input st') = sample_count (a_input st) - n * a_frame_size st \<and>
     channels st' = map (drop (n * frame_bytes st)) (channels st)"

lemma taken_refl: "audio_inv st \<Longrightarrow> taken 0 st st"
  by (simp add: taken_def)

lemma taken_Suc: "taken 1 st st1 \<Longrightarrow> taken n st1 st' \<Longrightarrow> taken (Suc n) st st'"
  by (simp add: taken_def frame_bytes_def add.commute comp_def)

lemma take_frame:
  assumes inv: "audio_inv st" and enough: "a_frame_size st \<le> sample_count (a_input st)"
  shows "\<exists>bufs. consume_frame (a_format st) (a_frame_size st) (channel_buffers (a_input st)) = Some bufs \<and>
    taken 1 st (st\<lparr>a_input := (a_input st)\<lparr>channel_buffers := bufs,
      sample_count := sample_count (a_input st) - a_frame_size st\<rparr>\<rparr>)"
proof -
  let ?bps = "bytes_per_sample (a_format st)"
  have len: "\<forall>b \<in> set (channel_buffers (a_input st)). a_frame_size st * ?bps \<le> length (buf_contents b)"
  proof
    fix b
    assume "b \<in> set (channel_buffers (a_input st))"
    then have "sample_count (a_input st) * ?bps \<le> length (buf_contents b)"
      using inv by (simp add: audio_inv_def channels_def holds_samples_def)
    with mult_le_mono1 [OF enough, of ?bps] show "a_frame_size st * ?bps \<le> length (buf_contents b)"
      by (rule order_trans)
  qed
  from consume_frame_ok [OF _ this] inv obtain bufs where
    b: "consume_frame (a_format st) (a_frame_size st) (channel_buffers (a_input st)) = Some bufs"
    "channels_ok (a_format st) bufs"
    "map buf_contents bufs = map (drop (a_frame_size st * ?bps) \<circ> buf_contents) (channel_buffers (a_input st))"
    by (auto simp: audio_inv_def)
  have ch: "map buf_contents bufs = map (drop (a_frame_size st * ?bps)) (channels st)"
    using b(3) by (simp add: channels_def)
  have "holds_samples (sample_count (a_input st) - a_frame_size st) ?bps (map buf_contents bufs)"
    unfolding ch using inv by (intro holds_samples_drop) (simp add: audio_inv_def)
  with b(1,2) ch inv show ?thesis
    by (intro exI [of _ bufs]) (simp add: taken_def audio_inv_def channels_def frame_bytes_def)
qed

text \<open>
  A relation between the service and its listener that holds again after each frame: then the
  loop returns and the relation holds at its end.
\<close>

lemma dispatch_loop_ok:
  assumes "audio_inv st" "n * a_frame_size st \<le> sample_count (a_input st)" "P st l"
    and listener: "\<And>s l s'. audio_inv s \<Longrightarrow> a_frame_size s \<le> sample_count (a_input s) \<Longrightarrow> P s l \<Longrightarrow>
      taken 1 s s' \<Longrightarrow> \<exists>l'. listener (a_input s) l = Ret l' \<and> P s' l'"
  shows "\<exists>st' l'. dispatch_loop listener n st l = Ret (st', l') \<and> taken n st st' \<and> P st' l'"
  using assms(1,2,3)
proof (induction n arbitrary: st l)
  case 0
  then show ?case by (auto intro: taken_refl)
next
  case (Suc n)
  have enough: "a_frame_size st \<le> sample_count (a_input st)" using Suc.prems(2) by simp
  from take_frame [OF Suc.prems(1) this] obtain bufs where
    bufs: "consume_frame (a_format st) (a_frame_size st) (channel_buffers (a_input st)) = Some bufs"
    "taken 1 st (st\<lparr>a_input := (a_input st)\<lparr>channel_buffers := bufs,
      sample_count := sample_count (a_input st) - a_frame_size st\<rparr>\<rparr>)" by blast
  let ?st = "st\<lparr>a_input := (a_input st)\<lparr>channel_buffers := bufs,
      sample_count := sample_count (a_input st) - a_frame_size st\<rparr>\<rparr>"
  obtain l1 where l1: "listener (a_input st) l = Ret l1" "P ?st l1"
    using listener [OF Suc.prems(1) enough Suc.prems(3) bufs(2)] by blast
  have "\<exists>st' l'. dispatch_loop listener n ?st l1 = Ret (st', l') \<and> taken n ?st st' \<and> P st' l'"
    using bufs(2) Suc.prems(2) l1(2) by (intro Suc.IH) (auto simp: taken_def)
  with enough bufs l1(1) taken_Suc [OF bufs(2)] show ?case by (auto simp: not_less)
qed

text \<open>Taking more frames than there are ends the process.\<close>

lemma dispatch_loop_too_many:
  assumes "0 < a_frame_size st" "sample_count (a_input st) < n * a_frame_size st"
    and listener: "\<And>c l. \<exists>l'. listener c l = Ret l'"
  shows "dispatch_loop listener n st l = Abort"
  using assms(1,2)
proof (induction n arbitrary: st l)
  case (Suc n)
  obtain l1 where l1: "listener (a_input st) l = Ret l1" using listener by blast
  show ?case
  proof (cases "sample_count (a_input st) < a_frame_size st")
    case False
    then have "dispatch_loop listener n (st\<lparr>a_input := (a_input st)\<lparr>channel_buffers := bufs,
        sample_count := sample_count (a_input st) - a_frame_size st\<rparr>\<rparr>) l1 = Abort" for bufs
      using Suc.prems by (intro Suc.IH) auto
    with l1 show ?thesis by (auto split: option.splits)
  qed simp
qed simp

lemma audio_inv_frame [simp]:
  "audio_inv (st\<lparr>a_event := e\<rparr>) = audio_inv st" "audio_inv (st\<lparr>a_held := h\<rparr>) = audio_inv st"
  "channels (st\<lparr>a_event := e\<rparr>) = channels st" "channels (st\<lparr>a_held := h\<rparr>) = channels st"
  by (simp_all add: audio_inv_def channels_def)

text \<open>A callback with good data: the samples are added and the frames announced.\<close>

definition good_data :: "nat \<Rightarrow> nat \<times> u8 list list \<Rightarrow> bool" where
  "good_data n b \<longleftrightarrow> length (snd b) = n \<and> (\<forall>d \<in> set (snd b). fst b \<le> length d) \<and>
     fst b < 2 ^ 32"

lemma on_process_ok:
  assumes inv: "audio_inv st" and good: "good_data (length (channels st)) (nb, ds)"
    and room: "a_event st + (sample_count (a_input st) + nb) < 2 ^ 64 - 1"
  shows "\<exists>st'. on_process (Buffer nb ds) st = Ret st' \<and> audio_inv st' \<and> a_format st' = a_format st \<and>
    a_frame_size st' = a_frame_size st \<and> a_held st' = a_held st \<and>
    channels st' = map2 (\<lambda>c d. c @ take nb d) (channels st) ds \<and>
    sample_count (a_input st') = sample_count (a_input st) + num_samples_of (a_format st) nb \<and>
    a_event st' = a_event st + sample_count (a_input st') div a_frame_size st"
proof -
  let ?bufs = "channel_buffers (a_input st)"
  have "length ds = length ?bufs" "\<forall>d \<in> set ds. nb \<le> length d" "\<forall>b \<in> set ?bufs. buf_inv b"
    using good inv by (simp_all add: good_data_def channels_def audio_inv_def channels_ok_def)
  from copy_channels_ok [OF this] obtain bufs where
    b: "copy_channels nb ds ?bufs = Some bufs" "\<forall>b \<in> set bufs. buf_inv b"
    "map buf_contents bufs = map2 (\<lambda>b d. buf_contents b @ take nb d) ?bufs ds" by blast
  let ?n = "num_samples_of (a_format st) nb"
  let ?st = "st\<lparr>a_input := (a_input st)\<lparr>channel_buffers := bufs, sample_count := sample_count (a_input st) + ?n\<rparr>\<rparr>"
  have len: "length bufs = length ?bufs"
    using arg_cong [OF b(3), of length] \<open>length ds = length ?bufs\<close> by simp
  have ch: "channels ?st = map2 (\<lambda>c d. c @ take nb d) (channels st) ds"
    using b(3) by (simp add: channels_def zip_map1 comp_def case_prod_beta')
  have "?n * bytes_per_sample (a_format st) \<le> nb"
    by (simp add: num_samples_of_div)
  then have "holds_samples (sample_count (a_input st) + ?n) (bytes_per_sample (a_format st)) (channels ?st)"
    using inv good unfolding ch
    by (fastforce simp: holds_samples_def audio_inv_def good_data_def add_mult_distrib in_set_zip
        dest: in_set_zipE)
  then have inv': "audio_inv ?st"
    using inv b(2) len by (simp add: audio_inv_def channels_ok_def)
  have n: "?n \<le> nb" by (simp add: num_samples_of_div)
  have q: "(sample_count (a_input st) + ?n) div a_frame_size st \<le> sample_count (a_input st) + nb"
    using n div_le_dividend order_trans add_left_mono by meson
  show ?thesis
  proof (cases "a_frame_size st \<le> sample_count (a_input st) + ?n")
    case True
    then have "on_process (Buffer nb ds) st =
        Ret (?st\<lparr>a_event := a_event st + (sample_count (a_input st) + ?n) div a_frame_size st\<rparr>)"
      using b(1) len \<open>length ds = length ?bufs\<close> inv q room
      by (simp add: on_process_def process_data_def requeue_def notify_def audio_inv_def Let_def)
    then show ?thesis using inv' ch by simp
  next
    case False
    then have "on_process (Buffer nb ds) st = Ret ?st"
      using b(1) len \<open>length ds = length ?bufs\<close> inv
      by (simp add: on_process_def process_data_def requeue_def audio_inv_def Let_def)
    then show ?thesis using inv' ch False by simp
  qed
qed

section \<open>From the device to the encoder\<close>

text \<open>
  One round: a callback, and the event loop's dispatch when the counter is not zero.
\<close>

definition audio_round ::
  "nat \<times> u8 list list \<Rightarrow> audio_service \<times> chunk_writer \<times> audio_frame list \<Rightarrow>
   (audio_service \<times> chunk_writer \<times> audio_frame list) outcome" where
  "audio_round b s = bind_out (on_process (Buffer (fst b) (snd b)) (fst s)) (\<lambda>st.
     if a_event st = 0 then Ret (st, snd s)
     else dispatch_chunks (Some (write_chunk (Ret ()))) st (snd s))"

fun audio_rounds ::
  "(nat \<times> u8 list list) list \<Rightarrow> audio_service \<times> chunk_writer \<times> audio_frame list \<Rightarrow>
   (audio_service \<times> chunk_writer \<times> audio_frame list) outcome" where
  "audio_rounds [] s = Ret s"
| "audio_rounds (b # bs) s = bind_out (audio_round b s) (audio_rounds bs)"

text \<open>
  What has been delivered: every byte captured on channel \<open>c\<close> is in the frames, in order, or
  still in the buffer, and the time stamps count samples from zero without gaps.
\<close>

definition delivered ::
  "u8 list list \<Rightarrow> audio_service \<Rightarrow> chunk_writer \<times> audio_frame list \<Rightarrow> bool" where
  "delivered captured st l \<longleftrightarrow>
     convert_from_libav_format (cw_sample_fmt (fst l)) = Ret (a_format st) \<and>
     cw_frame_size (fst l) = a_frame_size st \<and>
     total_samples_written (fst l) = length (snd l) * a_frame_size st \<and>
     map pts (snd l) = map (\<lambda>i. i * a_frame_size st) [0..<length (snd l)] \<and>
     (\<forall>f \<in> set (snd l). length (planes f) = length captured) \<and>
     length (channels st) = length captured \<and>
     (\<forall>c < length captured. concat (map (\<lambda>f. planes f ! c) (snd l)) @ channels st ! c = captured ! c)"

lemma write_chunk_delivers:
  assumes inv: "audio_inv s" and enough: "a_frame_size s \<le> sample_count (a_input s)"
    and del: "delivered captured s l" and tk: "taken 1 s s'"
  shows "\<exists>l'. write_chunk (Ret ()) (a_input s) l = Ret l' \<and> delivered captured s' l'"
proof -
  obtain cw fr where l: "l = (cw, fr)" by (cases l)
  let ?n = "frame_bytes s"
  have n: "(if is_interleaved_format (a_format s) then a_frame_size s * sample_format_size (a_format s) * 2
      else a_frame_size s * sample_format_size (a_format s)) = ?n"
    by (simp add: frame_bytes_def bytes_per_sample_def)
  have "\<forall>b \<in> set (channel_buffers (a_input s)). ?n \<le> length (buf_contents b)"
  proof
    fix b
    assume "b \<in> set (channel_buffers (a_input s))"
    then have "sample_count (a_input s) * bytes_per_sample (a_format s) \<le> length (buf_contents b)"
      using inv by (simp add: audio_inv_def holds_samples_def channels_def)
    with mult_le_mono1 [OF enough, of "bytes_per_sample (a_format s)"] show "?n \<le> length (buf_contents b)"
      unfolding frame_bytes_def by (rule order_trans)
  qed
  from copy_planes_ok [OF this] have cp: "copy_planes ?n (channel_buffers (a_input s)) = Some (map (take ?n) (channels s))"
    by (simp add: channels_def)
  let ?f = "\<lparr>nb_samples = a_frame_size s, pts = total_samples_written cw, planes = map (take ?n) (channels s)\<rparr>"
  let ?cw = "cw\<lparr>total_samples_written := total_samples_written cw + a_frame_size s\<rparr>"
  have w: "write_chunk (Ret ()) (a_input s) l = Ret (?cw, fr @ [?f])"
    using del enough cp n l
    by (simp add: write_chunk_def chunk_writer_call_def delivered_def Let_def del: if_split_asm split: if_splits)
  have "delivered captured s' (?cw, fr @ [?f])"
    using del tk l by (auto simp: delivered_def taken_def)
  with w show ?thesis by blast
qed

definition capture :: "u8 list list \<Rightarrow> nat \<times> u8 list list \<Rightarrow> u8 list list" where
  "capture captured b = map2 (\<lambda>c d. c @ take (fst b) d) captured (snd b)"

definition idle :: "audio_service \<Rightarrow> bool" where
  "idle st \<longleftrightarrow> audio_inv st \<and> a_event st = 0 \<and> sample_count (a_input st) < a_frame_size st \<and>
     a_frame_size st < 2 ^ 32"

lemma audio_round_ok:
  assumes idle: "idle st" and del: "delivered captured st l" and good: "good_data (length captured) b"
  shows "\<exists>st' l'. audio_round b (st, l) = Ret (st', l') \<and> idle st' \<and> delivered (capture captured b) st' l'"
proof -
  obtain nb ds where b: "b = (nb, ds)" by (cases b)
  have inv: "audio_inv st" and ev: "a_event st = 0" and fs: "sample_count (a_input st) < a_frame_size st"
    "a_frame_size st < 2 ^ 32" using idle by (simp_all add: idle_def)
  have len: "length (channels st) = length captured" using del by (simp add: delivered_def)
  have "a_event st + (sample_count (a_input st) + nb) < 2 ^ 64 - 1"
    using ev fs good b by (simp add: good_data_def)
  from on_process_ok [OF inv _ this, of ds] good b len obtain st1 where
    st1: "on_process (Buffer nb ds) st = Ret st1" "audio_inv st1" "a_format st1 = a_format st"
    "a_frame_size st1 = a_frame_size st"
    "channels st1 = map2 (\<lambda>c d. c @ take nb d) (channels st) ds"
    "a_event st1 = sample_count (a_input st1) div a_frame_size st1"
    using ev by auto
  have pos: "0 < a_frame_size st1" using st1(2) by (simp add: audio_inv_def)
  have del1: "delivered (capture captured b) st1 l"
    using del st1(3,4,5) len good b by (auto simp: delivered_def capture_def good_data_def)
  show ?thesis
  proof (cases "a_event st1 = 0")
    case True
    then have "sample_count (a_input st1) < a_frame_size st1" using st1(6) pos by (simp add: div_eq_0_iff)
    with True st1 del1 fs b show ?thesis by (auto simp: audio_round_def idle_def)
  next
    case False
    let ?k = "a_event st1" let ?st = "st1\<lparr>a_event := 0\<rparr>"
    have "delivered (capture captured b) ?st l" using del1 by (simp add: delivered_def)
    moreover have "?k * a_frame_size ?st \<le> sample_count (a_input ?st)" using st1(6) by simp
    ultimately obtain st' l' where
      l': "dispatch_loop (write_chunk (Ret ())) ?k ?st l = Ret (st', l')" "taken ?k ?st st'"
      "delivered (capture captured b) st' l'"
      using dispatch_loop_ok [of ?st ?k "delivered (capture captured b)" l "write_chunk (Ret ())"]
        write_chunk_delivers st1(2) by auto
    have "sample_count (a_input st') = sample_count (a_input st1) mod a_frame_size st1"
      using l'(2) st1(6) by (simp add: taken_def minus_div_mult_eq_mod)
    then have "sample_count (a_input st') < a_frame_size st1" using pos by simp
    moreover have "audio_inv st'" "a_event st' = 0" "a_frame_size st' = a_frame_size st1"
      using l'(2) by (simp_all add: taken_def)
    ultimately have "idle st'" using fs(2) st1(4) by (simp add: idle_def)
    with l' False st1(1) b show ?thesis by (auto simp: audio_round_def dispatch_chunks_def)
  qed
qed

lemma audio_rounds_ok:
  "idle st \<Longrightarrow> delivered captured st l \<Longrightarrow> list_all (good_data (length captured)) bs \<Longrightarrow>
   \<exists>st' l'. audio_rounds bs (st, l) = Ret (st', l') \<and> idle st' \<and> delivered (foldl capture captured bs) st' l'"
proof (induction bs arbitrary: st captured l)
  case (Cons b bs)
  have "good_data (length captured) b" using Cons.prems(3) by simp
  from audio_round_ok [OF Cons.prems(1,2) this] obtain st1 l1 where
    s1: "audio_round b (st, l) = Ret (st1, l1)" "idle st1" "delivered (capture captured b) st1 l1" by blast
  have "length (capture captured b) = length captured"
    using Cons.prems(3) by (simp add: capture_def good_data_def)
  with Cons.IH [OF s1(2,3)] Cons.prems(3) s1(1) show ?case by auto
qed auto

section \<open>Properties\<close>

text \<open>
  (C11) No sample is lost. When every callback is followed by a dispatch, starting from an idle
  service, nothing fails, and on every channel the bytes of the frames sent to the encoder,
  followed by what is left in the buffer, are exactly the bytes captured; less than one frame
  is left, and the time stamps count samples without gaps.
\<close>

theorem audio_is_lossless:
  assumes "idle st" "delivered captured st l" "list_all (good_data (length captured)) bs"
  shows "\<exists>st' l'. audio_rounds bs (st, l) = Ret (st', l') \<and>
    sample_count (a_input st') < a_frame_size st' \<and> delivered (foldl capture captured bs) st' l'"
  using audio_rounds_ok [OF assms] by (auto simp: idle_def)

definition demo_audio :: audio_service where
  "demo_audio = \<lparr>a_format = s16_planar, a_frame_size = 2,
     a_input = \<lparr>timestamp_ms = 0, sample_count = 0, channel_buffers = [empty_buffer, empty_buffer]\<rparr>,
     a_event = 0, a_held = 0\<rparr>"

definition demo_writer :: chunk_writer where
  "demo_writer = \<lparr>cw_sample_fmt = AV_SAMPLE_FMT_S16P, cw_frame_size = 2, total_samples_written = 0\<rparr>"

lemma demo_audio_idle: "idle demo_audio" "delivered [[], []] demo_audio (demo_writer, [])"
  by (simp_all add: idle_def audio_inv_def demo_audio_def demo_writer_def channels_ok_def channels_def
      holds_samples_def empty_buffer_def buf_inv_def buf_contents_def delivered_def less_Suc_eq)

theorem audio_is_lossless_witness:
  "\<exists>st' cw frames. audio_rounds [(6, [[1, 2, 3, 4, 5, 6], [7, 8, 9, 10, 11, 12]])]
      (demo_audio, demo_writer, []) = Ret (st', cw, frames) \<and>
    concat (map (\<lambda>f. planes f ! 0) frames) @ channels st' ! 0 = [1, 2, 3, 4, 5, 6]"
proof -
  have "list_all (good_data (length [[], []])) [(6, [[1, 2, 3, 4, 5, 6], [7, 8, 9, 10, 11, 12 :: u8]])]"
    by (simp add: good_data_def)
  from audio_is_lossless [OF demo_audio_idle this] show ?thesis
    by (auto simp: delivered_def capture_def)
qed

text \<open>
  Two callbacks before a dispatch end the process. The counter is cumulative, but each
  callback announces all the frames in the buffer, not the new ones: if a callback finds frames
  already announced and not yet dispatched, the next dispatch asks for more frames than there
  are, and the contract in it fails, whatever the listener does with them.
\<close>

lemma second_callback_overcounts:
  assumes "audio_inv st" "0 < a_event st" "good_data (length (channels st)) (nb, ds)"
    "a_event st + (sample_count (a_input st) + nb) < 2 ^ 64 - 1"
    and listener: "\<And>c l. \<exists>l'. listener c l = Ret l'"
  shows "\<exists>st'. on_process (Buffer nb ds) st = Ret st' \<and> dispatch_chunks (Some listener) st' l = Abort"
proof -
  from on_process_ok [OF assms(1,3,4)] obtain st' where
    st': "on_process (Buffer nb ds) st = Ret st'" "audio_inv st'"  "a_frame_size st' = a_frame_size st"
    "a_event st' = a_event st + sample_count (a_input st') div a_frame_size st" by blast
  have pos: "0 < a_frame_size st'" using st'(2) by (simp add: audio_inv_def)
  let ?sc = "sample_count (a_input st')" let ?fs = "a_frame_size st'"
  have "?sc < (?sc div ?fs + 1) * ?fs" using pos by (simp add: dividend_less_div_times)
  also have "\<dots> \<le> a_event st' * ?fs" using st'(3,4) assms(2) by (intro mult_le_mono1) simp
  finally have "dispatch_loop listener (a_event st') (st'\<lparr>a_event := 0\<rparr>) l = Abort"
    using pos by (intro dispatch_loop_too_many listener) simp_all
  with st' assms(2) show ?thesis by (auto simp: dispatch_chunks_def)
qed

lemma second_callback_overcounts_example:
  "\<exists>st st'. on_process (Buffer 6 [[1, 2, 3, 4, 5, 6], [7, 8, 9, 10, 11, 12]]) demo_audio = Ret st \<and>
     on_process (Buffer 2 [[1, 2], [3, 4]]) st = Ret st' \<and>
     dispatch_chunks (Some (\<lambda>c u. Ret u)) st' () = Abort"
proof -
  let ?ds = "[[1, 2, 3, 4, 5, 6], [7, 8, 9, 10, 11, 12 :: u8]]"
  have init: "audio_inv demo_audio" "a_event demo_audio = 0" "sample_count (a_input demo_audio) = 0"
    "length (channels demo_audio) = 2" "a_format demo_audio = s16_planar" "a_frame_size demo_audio = 2"
    using demo_audio_idle by (simp_all add: idle_def demo_audio_def channels_def)
  from on_process_ok [OF init(1), of 6 ?ds] init obtain st where
    st: "on_process (Buffer 6 ?ds) demo_audio = Ret st" "audio_inv st" "a_event st = 1"
    "sample_count (a_input st) = 3" "length (channels st) = 2"
    by (auto simp: good_data_def num_samples_of_def)
  from second_callback_overcounts [of st 2 "[[1, 2], [3, 4]]" "\<lambda>c u. Ret u" "()"] st
  show ?thesis by (auto simp: good_data_def)
qed

end
