(* ===== verification/Encoding.thy ===== *)
theory Encoding
  imports Effects Frame_Time
begin

text \<open>
  Encoding and writing: the encoder service with its queue of pending items
  (\<open>src/services/encoder_service.cpp\<close>), the handle its clients use (\<open>encoder.cpp\<close>) and the direct
  path of the end markers (\<open>src/av/frame.cpp\<close>, \<open>src/handlers/stream_finalizer.cpp\<close>). libav and the
  kernel are the world.

  The pending queue and the pool are used through the contracts that theories
  \<open>Intrusive_List\<close> and \<open>Pool\<close> prove for them: a queue is the list of its items, getting an item
  from the pool and returning it are single events. The loop over the packets of a codec has
  fuel, one unit for each request for a packet; a run that is cut there counts as not finished.
\<close>

section \<open>Events and answers\<close>

record stream_poll =
  sp_id :: nat
  sp_ctx :: nat
  sp_stream :: nat
  sp_frame :: "nat option"

datatype enc_call =
    EEventFd | ECloseFd int | ERegister int | EErrNo
  | WriteNotify int | ReadNotify int
  | ELock | EUnlock | PushPending nat | Splice
  | PoolFill nat | PoolGet | PoolClear | ReturnItem nat
  | SendFrame nat "nat option" | ReceivePacket nat | SetIndex nat | RescaleTs nat nat
  | WritePacket nat | UnrefPacket | ResetItem nat | AvStrError int

record enc_world =
  ew_eventfd :: "enc_call list \<Rightarrow> int"
  ew_send :: "enc_call list \<Rightarrow> int"
  ew_receive :: "enc_call list \<Rightarrow> int"
  ew_write :: "enc_call list \<Rightarrow> int"
  ew_pool_get :: "enc_call list \<Rightarrow> exn + nat"
  ew_pool_fill :: "enc_call list \<Rightarrow> exn option"
  ew_strerror :: "enc_call list \<Rightarrow> string"
  ew_frame_alloc :: "enc_call list \<Rightarrow> nat"

type_synonym 'a enc_prog = "(enc_world, enc_call, 'a) prog"

definition AVERROR_EAGAIN :: int where "AVERROR_EAGAIN = -11"
definition AVERROR_EOF :: int where "AVERROR_EOF = -541478725"

definition kInitialPoolSize :: nat where "kInitialPoolSize = 16"

definition or_throw :: "exn option \<Rightarrow> unit enc_prog" where
  "or_throw ex = (case ex of None \<Rightarrow> ret () | Some e \<Rightarrow> throw e)"

definition throw_write_error :: "int \<Rightarrow> 'a enc_prog" where
  "throw_write_error response = bindp (call ew_strerror (AvStrError response)) (\<lambda>m.
     throw (RuntimeError (''write packet error: '' @ m)))"

text \<open>A scope with the mutex held.\<close>

definition locked :: "'a enc_prog \<Rightarrow> 'a enc_prog" where
  "locked p = thenp (emit ELock) (guarded (emit EUnlock) p)"

section \<open>The encoder service\<close>

text \<open>
  A new item, and the \<open>construct\<close> of the pool, which replaces the frame that the constructor has
  allocated; the second component is the frame freed by this.
\<close>

definition new_stream_poll :: "nat \<Rightarrow> nat \<Rightarrow> stream_poll" where
  "new_stream_poll i new_frame = \<lparr>sp_id = i, sp_ctx = 0, sp_stream = 0, sp_frame = Some new_frame\<rparr>"

definition encoder_pool_construct :: "nat \<Rightarrow> nat \<Rightarrow> nat \<Rightarrow> stream_poll \<times> nat option" where
  "encoder_pool_construct i first second =
     (let item = new_stream_poll i first in (item\<lparr>sp_frame := Some second\<rparr>, sp_frame item))"

text \<open>\<open>StreamPoll::reset\<close>: a missing frame is allocated again, a present one is emptied.\<close>

definition stream_poll_reset :: "nat \<Rightarrow> stream_poll \<Rightarrow> stream_poll" where
  "stream_poll_reset new_frame it =
     it\<lparr>sp_ctx := 0, sp_stream := 0,
        sp_frame := (case sp_frame it of None \<Rightarrow> Some new_frame | Some f \<Rightarrow> Some f)\<rparr>"

text \<open>The result of \<open>avcodec_send_frame\<close> is ignored; the item joins the queue in any case.\<close>

definition write_frame :: "int \<Rightarrow> stream_poll \<Rightarrow> stream_poll list \<Rightarrow> stream_poll list enc_prog" where
  "write_frame notify_fd item pending =
     bindp (locked
         (bindp (call ew_send (SendFrame (sp_ctx item) (sp_frame item))) (\<lambda>_.
          thenp (emit (PushPending (sp_id item))) (ret (pending @ [item]))))) (\<lambda>pending'.
     thenp (emit (WriteNotify notify_fd)) (ret pending'))"

text \<open>An eventfd that cannot be opened is reported by throwing a pointer.\<close>

definition enc_on_init :: "int enc_prog" where
  "enc_on_init =
     bindp (call ew_eventfd EEventFd) (\<lambda>fd.
     if fd < 0 then bindp (call ew_strerror EErrNo) (\<lambda>m.
       throw (RuntimeErrorPtr (''EncoderService initialization failed: '' @ m)))
     else bindp (call ew_pool_fill (PoolFill kInitialPoolSize)) (\<lambda>ex.
       thenp (or_throw ex) (thenp (emit (ERegister fd)) (ret fd))))"

text \<open>
  The packets of one item: request one, stop when the codec has no more, otherwise rescale it
  to the stream and write it.
\<close>

fun drain :: "nat \<Rightarrow> stream_poll \<Rightarrow> unit enc_prog" where
  "drain 0 it = terminate"
| "drain (Suc fuel) it =
     bindp (locked (call ew_receive (ReceivePacket (sp_ctx it)))) (\<lambda>response.
     if response = AVERROR_EAGAIN \<or> response = AVERROR_EOF then ret ()
     else if response < 0 then throw (RuntimeError ''receive packet error'')
     else
       thenp (emit (RescaleTs (sp_ctx it) (sp_stream it)))
       (thenp (emit (SetIndex (sp_stream it)))
       (bindp (call ew_write (WritePacket (sp_stream it))) (\<lambda>response.
        if response < 0 then throw_write_error response
        else drain fuel it))))"

definition enc_dispatch :: "nat \<Rightarrow> int \<Rightarrow> stream_poll list \<Rightarrow> unit enc_prog" where
  "enc_dispatch fuel notify_fd pending =
     thenp (emit (ReadNotify notify_fd))
     (thenp (locked (emit Splice))
     (guarded (for_each (\<lambda>it. emit (ReturnItem (sp_id it))) pending)
       (for_each (drain fuel) pending)))"

text \<open>Shutting down: whatever is pending is drained, and every exception is dropped.\<close>

definition enc_on_uninit :: "nat \<Rightarrow> int \<Rightarrow> stream_poll list \<Rightarrow> unit enc_prog" where
  "enc_on_uninit fuel notify_fd pending = noexcept
     (thenp (emit (ECloseFd notify_fd))
     (catching (thenp (enc_dispatch fuel notify_fd pending) (emit PoolClear)) (\<lambda>e. Some (ret ()))))"

section \<open>The encoder handle\<close>

definition prepare_frame :: "nat \<Rightarrow> nat \<Rightarrow> (nat \<Rightarrow> stream_poll) \<Rightarrow> stream_poll enc_prog" where
  "prepare_frame codec_ctx stream store =
     bindp (call ew_pool_get PoolGet) (\<lambda>r. case r of
         Inl e \<Rightarrow> throw e
       | Inr i \<Rightarrow> bindp (call ew_frame_alloc (ResetItem i)) (\<lambda>f.
           ret ((stream_poll_reset f (store i))\<lparr>sp_ctx := codec_ctx, sp_stream := stream\<rparr>)))"

definition flush :: "int \<Rightarrow> nat \<Rightarrow> nat \<Rightarrow> (nat \<Rightarrow> stream_poll) \<Rightarrow> stream_poll list \<Rightarrow> stream_poll list enc_prog" where
  "flush notify_fd codec_ctx stream store pending =
     bindp (prepare_frame codec_ctx stream store) (\<lambda>item.
       write_frame notify_fd (item\<lparr>sp_frame := None\<rparr>) pending)"

text \<open>The constructor of the handle: the service must be in the registry.\<close>

definition encoder_handle :: "nat option \<Rightarrow> nat enc_prog" where
  "encoder_handle svc = (case svc of None \<Rightarrow> contract_check_failed | Some s \<Rightarrow> ret s)"

section \<open>Sending without the service\<close>

fun send_frame_loop :: "nat \<Rightarrow> nat \<Rightarrow> nat \<Rightarrow> int \<Rightarrow> unit enc_prog" where
  "send_frame_loop 0 ctx stream response = terminate"
| "send_frame_loop (Suc fuel) ctx stream response =
     (if response < 0 then ret ()
      else bindp (call ew_receive (ReceivePacket ctx)) (\<lambda>response.
        if response = AVERROR_EAGAIN \<or> response = AVERROR_EOF then ret ()
        else if response < 0 then throw (RuntimeError ''receive packet error'')
        else bindp (guarded (emit UnrefPacket)
            (thenp (emit (SetIndex stream))
            (thenp (emit (RescaleTs ctx stream))
            (bindp (locked (call ew_write (WritePacket stream))) (\<lambda>response.
             if response < 0 then throw_write_error response else ret response)))))
          (send_frame_loop fuel ctx stream)))"

definition send_frame :: "nat \<Rightarrow> nat option \<Rightarrow> nat \<Rightarrow> nat \<Rightarrow> unit enc_prog" where
  "send_frame fuel frame ctx stream =
     bindp (call ew_send (SendFrame ctx frame)) (send_frame_loop fuel ctx stream)"

definition stream_finalizer :: "nat \<Rightarrow> nat \<Rightarrow> nat \<Rightarrow> nat \<Rightarrow> nat \<Rightarrow> unit enc_prog" where
  "stream_finalizer fuel audio_ctx video_ctx audio_stream video_stream =
     thenp (send_frame fuel None audio_ctx audio_stream) (send_frame fuel None video_ctx video_stream)"

section \<open>Lemmas\<close>

text \<open>The events of one packet, and of the request that finds none.\<close>

definition request :: "stream_poll \<Rightarrow> enc_call list" where
  "request it = [ELock, ReceivePacket (sp_ctx it), EUnlock]"

definition packet :: "stream_poll \<Rightarrow> enc_call list" where
  "packet it = request it @
     [RescaleTs (sp_ctx it) (sp_stream it), SetIndex (sp_stream it), WritePacket (sp_stream it)]"

datatype ending = NoMore | Failed | WriteFailed int

fun drain_end :: "stream_poll \<Rightarrow> ending \<Rightarrow> enc_call list" where
  "drain_end it NoMore = request it"
| "drain_end it Failed = request it"
| "drain_end it (WriteFailed r) = packet it @ [AvStrError r]"

text \<open>
  A finished drain: packets, each written to the item's stream before the next is requested,
  and then the end, which is an exception unless the codec had no more.
\<close>

definition drained :: "stream_poll \<Rightarrow> unit outcome \<Rightarrow> enc_call list \<Rightarrow> bool" where
  "drained it r es \<longleftrightarrow> r = Abort \<or>
     (\<exists>k e. es = concat (replicate k (packet it)) @ drain_end it e \<and> (r = Ret ()) = (e = NoMore))"

lemma bindp_locked_call:
  "bindp (locked (call f c)) g w t = g (f w (t @ [ELock, c])) w (t @ [ELock, c, EUnlock])"
  by (rule bindp_run_simps(1))
    (simp add: locked_def bindp_emit_run guarded_run [of "emit EUnlock"] call_run emit_run)

lemma bindp_locked_emit:
  "bindp (locked (emit c)) g w t = g () w (t @ [ELock, c, EUnlock])"
  by (rule bindp_run_simps(1))
    (simp add: locked_def bindp_emit_run guarded_run [of "emit EUnlock"] emit_run)

lemma drained_more: "drained it r es \<Longrightarrow> drained it r (packet it @ es)"
  unfolding drained_def by (metis append.assoc concat.simps(2) replicate_Suc)

lemma drained_end: "(r = Ret ()) = (e = NoMore) \<Longrightarrow> drained it r (drain_end it e)"
  unfolding drained_def by (intro disjI2 exI [of _ 0] exI [of _ e]) simp

lemma drain_runs: "runs (drain fuel it) (drained it)"
proof (induction fuel)
  case 0
  show ?case unfolding drain.simps by (rule runs_terminate) (simp add: drained_def)
next
  case (Suc fuel)
  show ?case
  proof (rule runsI)
    fix w :: enc_world and t
    let ?t = "t @ request it" let ?r = "ew_receive w (t @ [ELock, ReceivePacket (sp_ctx it)])"
    show "\<exists>new. snd (drain (Suc fuel) it w t) = t @ new \<and> drained it (fst (drain (Suc fuel) it w t)) new"
    proof (cases "?r < 0")
      case True
      then show ?thesis
        unfolding drain.simps using drained_end [of _ NoMore it] drained_end [of _ Failed it]
        by (auto simp: bindp_locked_call request_def [symmetric] ret_run throw_run)
    next
      case False
      let ?p = "t @ packet it"
      have nz: "?r \<noteq> AVERROR_EAGAIN" "?r \<noteq> AVERROR_EOF"
        using False by (auto simp: AVERROR_EAGAIN_def AVERROR_EOF_def)
      have d: "drain (Suc fuel) it w t =
          (if ew_write w ?p < 0 then throw_write_error (ew_write w ?p) w ?p else drain fuel it w ?p)"
        unfolding drain.simps using False nz
        by (simp add: bindp_locked_call bindp_emit_run bindp_call_run packet_def request_def)
      from runsD [OF Suc.IH, of w ?p] obtain es where
        es: "snd (drain fuel it w ?p) = ?p @ es" "drained it (fst (drain fuel it w ?p)) es" by blast
      show ?thesis
        unfolding d using es drained_more [OF es(2)] drained_end [of _ "WriteFailed (ew_write w ?p)" it]
        by (auto simp: throw_write_error_def bindp_call_run throw_run)
    qed
  qed
qed

fun drained_all :: "stream_poll list \<Rightarrow> unit outcome \<Rightarrow> enc_call list \<Rightarrow> bool" where
  "drained_all [] r es \<longleftrightarrow> r = Ret () \<and> es = []"
| "drained_all (it # its) r es \<longleftrightarrow>
     (\<exists>es1 es2. es = es1 @ es2 \<and> drained it (Ret ()) es1 \<and> drained_all its r es2) \<or>
     (r \<noteq> Ret () \<and> drained it r es)"

lemma drain_all_runs: "runs (for_each (drain fuel) its) (drained_all its)"
proof (induction its)
  case (Cons it its)
  show ?case unfolding for_each.simps
  proof (rule runs_bindp [OF drain_runs], goal_cases)
    case (1 x es)
    then show ?case by (intro runs_weaken [OF Cons.IH]) auto
  qed auto
qed (auto intro: runs_ret)

lemma return_items_runs:
  "runs (for_each (\<lambda>it. emit (ReturnItem (sp_id it))) its)
     (\<lambda>r es. r = Ret () \<and> es = map (ReturnItem \<circ> sp_id) its)"
proof (induction its)
  case (Cons it its)
  show ?case unfolding for_each.simps
    by (rule runs_emit_bindp, rule runs_weaken [OF Cons.IH]) simp
qed (auto intro!: runs_ret)

lemma drain_scope_runs:
  "runs (guarded (for_each (\<lambda>it. emit (ReturnItem (sp_id it))) its) (for_each (drain fuel) its))
     (\<lambda>r es. r = Abort \<or> (\<exists>mid. drained_all its r mid \<and> es = mid @ map (ReturnItem \<circ> sp_id) its))"
  by (rule runs_guarded [OF _ return_items_runs]) (auto intro: runs_weaken [OF drain_all_runs])

text \<open>Codecs that run dry: after \<open>k\<close> requests a codec has no more packets, and nothing fails.\<close>

definition runs_dry :: "nat \<Rightarrow> enc_world \<Rightarrow> bool" where
  "runs_dry k w \<longleftrightarrow>
     (\<forall>t. 0 \<le> ew_write w t) \<and>
     (\<forall>t. 0 \<le> ew_receive w t \<or> ew_receive w t = AVERROR_EAGAIN) \<and>
     (\<forall>c t. k < count_list t (ReceivePacket c) \<longrightarrow> last t = ReceivePacket c \<longrightarrow> ew_receive w t = AVERROR_EAGAIN)"

lemma drain_returns:
  assumes dry: "runs_dry k w"
  shows "0 < fuel \<Longrightarrow> k < count_list t (ReceivePacket (sp_ctx it)) + fuel \<Longrightarrow>
    \<exists>es. drain fuel it w t = (Ret (), t @ es)"
proof (induction fuel arbitrary: t)
  case (Suc fuel)
  let ?c = "ReceivePacket (sp_ctx it)" let ?q = "t @ [ELock, ?c]" let ?r = "ew_receive w ?q"
  show ?case
  proof (cases "?r = AVERROR_EAGAIN")
    case True
    then show ?thesis by (simp add: bindp_locked_call ret_run)
  next
    case False
    then have c: "count_list t ?c + 1 \<le> k"
      using dry unfolding runs_dry_def by (force simp: not_less [symmetric])
    have r0: "0 \<le> ?r" using dry False unfolding runs_dry_def by blast
    then have r: "0 \<le> ?r" "?r \<noteq> AVERROR_EOF" by (auto simp: AVERROR_EOF_def)
    have "\<exists>es. drain fuel it w (t @ packet it) = (Ret (), (t @ packet it) @ es)"
      using c Suc.prems by (intro Suc.IH) (auto simp: packet_def request_def)
    moreover have "drain (Suc fuel) it w t = drain fuel it w (t @ packet it)"
      using False r dry unfolding runs_dry_def
      by (auto simp: bindp_locked_call bindp_emit_run bindp_call_run packet_def request_def not_less [symmetric])
    ultimately show ?thesis by auto
  qed
qed simp

lemma drain_all_returns: "runs_dry k w \<Longrightarrow> returns w (for_each (drain (Suc k)) its)"
  using drain_returns [of k w "Suc k"] by (intro returns_for_each) (simp add: returns_def)

lemma enc_dispatch_returns: "runs_dry k w \<Longrightarrow> returns w (enc_dispatch (Suc k) fd pending)"
  unfolding enc_dispatch_def locked_def
  by (intro returns_bindp returns_emit returns_guarded returns_for_each drain_all_returns)
    (simp add: drain_all_returns del: for_each.simps)

section \<open>Properties\<close>


text \<open>
  (C32) Dispatching ends. When each codec runs dry after at most \<open>k\<close> requests and writing
  succeeds, a round over any number of items returns; fuel for \<open>k + 1\<close> requests is enough.
\<close>

theorem encoder_dispatch_ends:
  assumes "runs_dry k w"
  shows "\<exists>es. enc_dispatch (Suc k) fd pending w t = (Ret (), t @ es)"
  using returnsD [OF enc_dispatch_returns [OF assms], of fd pending t] by auto

definition demo_codec :: enc_world where
  "demo_codec = \<lparr>ew_eventfd = (\<lambda>_. 3), ew_send = (\<lambda>_. 0),
     ew_receive = (\<lambda>t. if 2 < count_list t (last t) then AVERROR_EAGAIN else 0),
     ew_write = (\<lambda>_. 0), ew_pool_get = (\<lambda>_. Inr 0), ew_pool_fill = (\<lambda>_. None),
     ew_strerror = (\<lambda>_. []), ew_frame_alloc = (\<lambda>_. 1)\<rparr>"

theorem encoder_dispatch_ends_witness:
  "\<exists>es. enc_dispatch 3 5 [\<lparr>sp_id = 1, sp_ctx = 2, sp_stream = 0, sp_frame = None\<rparr>] demo_codec [] = (Ret (), es)"
proof -
  have "runs_dry 2 demo_codec" by (auto simp: runs_dry_def demo_codec_def)
  from encoder_dispatch_ends [OF this, of 5 _ "[]"] show ?thesis by (simp add: numeral_3_eq_3)
qed

end
