(* ===== verification/Io.thy ===== *)
theory Io
  imports Utils
begin

text \<open>
  Processes, sockets and messages: \<open>src/io/process.cpp\<close>, \<open>unix_socket.cpp\<close>, \<open>message_handler.hpp\<close>,
  \<open>message_sender.hpp\<close>, \<open>message_receiver.hpp\<close>, \<open>accept_handler.cpp\<close>, \<open>signals.cpp\<close>, and the
  messages between the main program and the helper that reads the display planes
  (\<open>src/drm/messaging.cpp\<close>, \<open>src/drm/planes.cpp\<close>). The kernel is the world. A control message
  carries descriptors: what the receiver gets is what the kernel makes of what was sent.
\<close>

section \<open>Events and answers\<close>

datatype direction = POLLIN | POLLOUT

datatype io_call =
    Socket | CloseFd int | BindTo int "u8 list" | ConnectTo int "u8 list" | Accept int | Listen int
  | Kill int | WaitPid int int | Fork | Exec "string list"
  | Poll int direction "(int \<times> int) option" | SendMsg int | SendFds int "int list" | RecvMsg int
  | SigAddSet int | SetMask "int list" | GetErrNo

section \<open>Plane descriptors\<close>

record plane_descriptor =
  pd_fd :: int
  pd_width :: u32
  pd_height :: u32
  pd_pitch :: u32
  pd_offset :: u32
  pd_pixel_format :: u32
  pd_modifier :: u64
  pd_connector_id :: u32
  pd_flags :: u32
  pd_x :: int
  pd_y :: int
  pd_src_w :: int
  pd_src_h :: int

definition IS_CURSOR :: u32 where "IS_CURSOR = 1"
definition IS_COMBINED :: u32 where "IS_COMBINED = 2"

definition set_flag :: "u32 \<Rightarrow> plane_descriptor \<Rightarrow> plane_descriptor" where
  "set_flag flag d = d\<lparr>pd_flags := pd_flags d OR flag\<rparr>"

definition is_flag_set :: "u32 \<Rightarrow> plane_descriptor \<Rightarrow> bool" where
  "is_flag_set flag d = (pd_flags d AND flag \<noteq> 0)"

definition empty_descriptor :: plane_descriptor where
  "empty_descriptor = \<lparr>pd_fd = 0, pd_width = 0, pd_height = 0, pd_pitch = 0, pd_offset = 0,
     pd_pixel_format = 0, pd_modifier = 0, pd_connector_id = 0, pd_flags = 0, pd_x = 0, pd_y = 0,
     pd_src_w = 0, pd_src_h = 0\<rparr>"

definition kMaxPlaneDescriptors :: nat where "kMaxPlaneDescriptors = 8"

definition kGetPlanes :: u32 where "kGetPlanes = 1"
definition kStop :: u32 where "kStop = 2"

text \<open>The array of descriptors has its full length, whatever \<open>num_fds\<close> says. The number is a 32-bit unsigned integer, read here as the natural number it is.\<close>

record drm_response =
  res_result :: u32
  res_num_fds :: nat
  res_descriptors :: "plane_descriptor list"

definition empty_response :: drm_response where
  "empty_response = \<lparr>res_result = 0, res_num_fds = 0,
     res_descriptors = replicate kMaxPlaneDescriptors empty_descriptor\<rparr>"

record io_world =
  io_int :: "io_call list \<Rightarrow> int"
  io_status :: "io_call list \<Rightarrow> int option"
  io_errno :: "io_call list \<Rightarrow> int"
  io_strerror :: "io_call list \<Rightarrow> string"
  io_recv :: "io_call list \<Rightarrow> int \<times> drm_response \<times> int list option"
  io_request :: "io_call list \<Rightarrow> u32"

type_synonym 'a io_prog = "(io_world, io_call, 'a) prog"

section \<open>Unix sockets\<close>

record unix_socket =
  sock_fd :: int

definition socket_none :: unix_socket where
  "socket_none = \<lparr>sock_fd = -1\<rparr>"

definition socket_move :: "unix_socket \<Rightarrow> unix_socket \<times> unix_socket" where
  "socket_move other = (\<lparr>sock_fd = sock_fd other\<rparr>, other\<lparr>sock_fd := -1\<rparr>)"

definition socket_swap :: "unix_socket \<Rightarrow> unix_socket \<Rightarrow> unix_socket \<times> unix_socket" where
  "socket_swap a b = (a\<lparr>sock_fd := sock_fd b\<rparr>, b\<lparr>sock_fd := sock_fd a\<rparr>)"

text \<open>
  \<open>close\<close> on the set of open descriptors. Closing a negative number has no effect; closing a
  number that is not open is an error here, because another part of the program may have been
  given it in the meantime. The object keeps the number.
\<close>

definition socket_close :: "unix_socket \<Rightarrow> int set \<Rightarrow> int set option" where
  "socket_close s R = (if sock_fd s < 0 then Some R else if sock_fd s \<in> R then Some (R - {sock_fd s}) else None)"

definition socket_destruct :: "unix_socket \<Rightarrow> int set \<Rightarrow> int set option" where
  "socket_destruct s R = socket_close s R"

definition socket_assign ::
  "nat \<Rightarrow> nat \<Rightarrow> (unix_socket, int) owners \<Rightarrow> (unix_socket, int) owners option" where
  "socket_assign = move_assign_with socket_move socket_swap socket_destruct"

definition socket_owned :: "unix_socket \<Rightarrow> int option" where
  "socket_owned s = (if sock_fd s < 0 then None else Some (sock_fd s))"

definition sun_path_size :: nat where "sun_path_size = 108"

text \<open>
  \<open>create_socket\<close>: the address is zero-initialised and only its family is set; what the caller
  passes on is as many bytes of it as the path has. The descriptor is closed when the callback
  throws.
\<close>

definition create_socket :: "string \<Rightarrow> (int \<Rightarrow> u8 list \<Rightarrow> unix_socket io_prog) \<Rightarrow> unix_socket io_prog" where
  "create_socket path on_create =
     bindp (call io_int Socket) (\<lambda>fd.
     if fd < 0 then bindp (call io_strerror GetErrNo) (\<lambda>m. throw (RuntimeError (''connect(): '' @ m)))
     else guarded_unless_ret (emit (CloseFd fd))
       (let sun_path = replicate sun_path_size 0
        in if length path > sun_path_size then throw (RuntimeError ''create_socket(): path too long'')
           else on_create fd sun_path))"

definition socket_bind :: "string \<Rightarrow> unix_socket io_prog" where
  "socket_bind path = create_socket path (\<lambda>fd sun_path.
     bindp (call io_int (BindTo fd (take (length path) sun_path))) (\<lambda>r.
     if r < 0 then bindp (call io_strerror GetErrNo) (\<lambda>m. throw (LogicError (''bind(): '' @ m)))
     else ret \<lparr>sock_fd = fd\<rparr>))"

definition socket_connect :: "string \<Rightarrow> unix_socket io_prog" where
  "socket_connect path = create_socket path (\<lambda>fd sun_path.
     bindp (call io_int (ConnectTo fd (take (length path) sun_path))) (\<lambda>r.
     if r < 0 then bindp (call io_strerror GetErrNo) (\<lambda>m. throw (LogicError (''connect(): '' @ m)))
     else ret \<lparr>sock_fd = fd\<rparr>))"

definition socket_accept :: "unix_socket \<Rightarrow> unix_socket io_prog" where
  "socket_accept s = bindp (call io_int (Accept (sock_fd s))) (\<lambda>fd.
     if fd < 0 then bindp (call io_strerror GetErrNo) (\<lambda>m. throw (RuntimeError (''UnixSocket::accept() '' @ m)))
     else ret \<lparr>sock_fd = fd\<rparr>)"

definition socket_listen :: "unix_socket \<Rightarrow> unit io_prog" where
  "socket_listen s = bindp (call io_int (Listen (sock_fd s))) (\<lambda>r.
     if r < 0 then bindp (call io_strerror GetErrNo) (\<lambda>m. throw (RuntimeError (''UnixSocket::listen() '' @ m)))
     else ret ())"

section \<open>Processes\<close>

record process =
  pid :: int

definition WEXITED :: int where "WEXITED = 4"

definition process_none :: process where
  "process_none = \<lparr>pid = -1\<rparr>"

definition process_move :: "process \<Rightarrow> process \<times> process" where
  "process_move other = (\<lparr>pid = pid other\<rparr>, other\<lparr>pid := -1\<rparr>)"

definition process_swap :: "process \<Rightarrow> process \<Rightarrow> process \<times> process" where
  "process_swap a b = (a\<lparr>pid := pid b\<rparr>, b\<lparr>pid := pid a\<rparr>)"

definition process_terminate :: "process \<Rightarrow> unit io_prog" where
  "process_terminate p = (if pid p \<le> 0 then ret () else emit (Kill (pid p)))"

definition WIFEXITED :: "int \<Rightarrow> bool" where
  "WIFEXITED s = (s AND 127 = 0)"

definition WEXITSTATUS :: "int \<Rightarrow> int" where
  "WEXITSTATUS s = drop_bit 8 s AND 255"

text \<open>
  \<open>wait\<close>: the scope guard resets the process id in every case. The kernel fills the status
  (\<open>Some\<close>) or fails and leaves it unset, and then it is read all the same (\<open>Abort\<close>).
\<close>

definition process_wait :: "process \<Rightarrow> (int \<times> process) io_prog" where
  "process_wait p =
     (if pid p \<le> 0 then ret (0, p\<lparr>pid := -1\<rparr>)
      else bindp (call io_status (WaitPid (pid p) WEXITED)) (\<lambda>st. case st of
          None \<Rightarrow> terminate
        | Some s \<Rightarrow> if \<not> WIFEXITED s then ret (1, p\<lparr>pid := -1\<rparr>) else ret (WEXITSTATUS s, p\<lparr>pid := -1\<rparr>)))"

definition terminate_and_wait :: "process \<Rightarrow> (int \<times> process) io_prog" where
  "terminate_and_wait p = thenp (process_terminate p) (process_wait p)"

definition process_destruct :: "process \<Rightarrow> unit io_prog" where
  "process_destruct p = bindp (terminate_and_wait p) (\<lambda>_. ret ())"

text \<open>The move assignment of process variables; the temporary that gets the old process is destroyed.\<close>

definition process_assign :: "nat \<Rightarrow> nat \<Rightarrow> (nat \<Rightarrow> process option) \<Rightarrow> (nat \<Rightarrow> process option) io_prog" where
  "process_assign x y vs = (case vs y of
       None \<Rightarrow> terminate
     | Some other \<Rightarrow> (case process_move other of (tmp, other') \<Rightarrow>
         (case (vs(y \<mapsto> other')) x of
            None \<Rightarrow> terminate
          | Some this \<Rightarrow> (case process_swap this tmp of (this', tmp') \<Rightarrow>
              thenp (process_destruct tmp') (ret (vs(y \<mapsto> other', x \<mapsto> this')))))))"

text \<open>In the child \<open>execvp\<close> returns only when it fails, and then the child goes on as well.\<close>

definition spawn_process :: "string list \<Rightarrow> process io_prog" where
  "spawn_process as = bindp (call io_int Fork) (\<lambda>p.
     if p < 0 then bindp (call io_strerror GetErrNo) (\<lambda>m. throw (RuntimeError (''spawn_process failed: '' @ m)))
     else thenp (if p = 0 then emit (Exec as) else ret ()) (ret \<lparr>pid = p\<rparr>))"

section \<open>Messages\<close>

definition kInfinite :: size_t where "kInfinite = - 1"

definition timeout_spec :: "size_t \<Rightarrow> (int \<times> int) option" where
  "timeout_spec timeout_ms =
     (if timeout_ms = kInfinite then None
      else Some (uint (timeout_ms div 1000), uint ((timeout_ms mod 1000) * 1000000)))"

text \<open>Wait for the descriptor, then let the handler do the transfer; a timeout is zero bytes.\<close>

definition message_handler :: "direction \<Rightarrow> size_t \<Rightarrow> (int \<Rightarrow> (int \<times> 'a) io_prog) \<Rightarrow> int \<Rightarrow> (int, nat \<times> 'a option) result io_prog" where
  "message_handler dir timeout_ms handler fd =
     bindp (call io_int (Poll fd dir (timeout_spec timeout_ms))) (\<lambda>poll_result.
     if poll_result < 0 then bindp (call io_errno GetErrNo) (\<lambda>e. ret (Inl e))
     else if poll_result = 0 then ret (Inr (0, None))
     else bindp (handler fd) (\<lambda>(n, payload).
       if n < 0 then bindp (call io_errno GetErrNo) (\<lambda>e. ret (Inl e))
       else ret (Inr (nat n, Some payload))))"

definition send_handler :: "int \<Rightarrow> (int \<times> unit) io_prog" where
  "send_handler fd = bindp (call io_int (SendMsg fd)) (\<lambda>n. ret (n, ()))"

definition receive_handler :: "(io_world \<Rightarrow> io_call list \<Rightarrow> 'a) \<Rightarrow> int \<Rightarrow> (int \<times> 'a) io_prog" where
  "receive_handler payload fd = bindp (call (\<lambda>w t. (io_int w t, payload w t)) (RecvMsg fd)) ret"

definition accept_handler :: "size_t \<Rightarrow> int \<Rightarrow> (int, int) result io_prog" where
  "accept_handler timeout_ms fd =
     bindp (call io_int (Poll fd POLLIN (timeout_spec timeout_ms))) (\<lambda>poll_result.
     if poll_result < 0 then bindp (call io_errno GetErrNo) (\<lambda>e. ret (Inl e))
     else if poll_result = 0 then ret (Inl 110)
     else bindp (call io_int (Accept fd)) (\<lambda>r.
       if r < 0 then bindp (call io_errno GetErrNo) (\<lambda>e. ret (Inl e)) else ret (Inr r)))"

definition sizeof_request :: nat where "sizeof_request = 4"
definition sizeof_response :: nat where "sizeof_response = 8 + 8 * 56"

text \<open>The descriptors of a response travel in the control message.\<close>

definition response_send_handler :: "drm_response \<Rightarrow> int \<Rightarrow> (int \<times> unit) io_prog" where
  "response_send_handler response fd =
     thenp (sc_expect (res_num_fds response \<le> kMaxPlaneDescriptors))
     (if res_num_fds response > 0
      then bindp (call io_int (SendFds fd (map pd_fd (take (res_num_fds response) (res_descriptors response))))) (\<lambda>n. ret (n, ()))
      else bindp (call io_int (SendMsg fd)) (\<lambda>n. ret (n, ())))"

text \<open>
  The received number of descriptors is used as it is: without a control message, or with a
  number beyond the array and the control buffer, memory outside them is accessed (\<open>Abort\<close>).
  The control buffer is zero-initialised and has room for \<open>kMaxPlaneDescriptors\<close> descriptors, so
  descriptors that were announced and not delivered are read as zero.
\<close>

definition control_buffer :: "int list \<Rightarrow> int list" where
  "control_buffer fds = take kMaxPlaneDescriptors fds @ replicate (kMaxPlaneDescriptors - length fds) 0"

fun set_fds :: "int list \<Rightarrow> nat \<Rightarrow> plane_descriptor list \<Rightarrow> plane_descriptor list" where
  "set_fds fds 0 ds = ds"
| "set_fds fds (Suc i) ds = set_fds fds i (ds[i := (ds ! i)\<lparr>pd_fd := fds ! i\<rparr>])"

definition response_receive_handler :: "int \<Rightarrow> (int \<times> drm_response) io_prog" where
  "response_receive_handler fd =
     bindp (call io_recv (RecvMsg fd)) (\<lambda>(r, response, control).
     if r \<le> 0 then ret (r, response)
     else if res_num_fds response > 0 then
       (case control of
          None \<Rightarrow> terminate
        | Some fds \<Rightarrow>
            if res_num_fds response > kMaxPlaneDescriptors then terminate
            else ret (r, response\<lparr>res_descriptors :=
                   set_fds (control_buffer fds) (res_num_fds response) (res_descriptors response)\<rparr>))
     else ret (r, response))"

text \<open>The sender and the receiver of responses wait for the same condition, writability.\<close>

definition drm_response_sender :: "drm_response \<Rightarrow> size_t \<Rightarrow> int \<Rightarrow> (int, nat \<times> unit option) result io_prog" where
  "drm_response_sender response timeout_ms = message_handler POLLOUT timeout_ms (response_send_handler response)"

definition drm_response_receiver :: "size_t \<Rightarrow> int \<Rightarrow> (int, nat \<times> drm_response option) result io_prog" where
  "drm_response_receiver timeout_ms = message_handler POLLOUT timeout_ms response_receive_handler"

section \<open>Signals\<close>

fun add_signals :: "int list \<Rightarrow> int list \<Rightarrow> int list io_prog" where
  "add_signals blocked [] = ret blocked"
| "add_signals blocked (s # ss) = bindp (call io_int (SigAddSet s)) (\<lambda>r.
     if r < 0 then bindp (call io_errno GetErrNo) (\<lambda>e. throw (SystemError e))
     else add_signals (blocked @ [s]) ss)"

definition block_signals :: "int list \<Rightarrow> unit io_prog" where
  "block_signals sigs = bindp (add_signals [] sigs) (\<lambda>blocked.
     bindp (call io_int (SetMask blocked)) (\<lambda>r.
     if r < 0 then bindp (call io_errno GetErrNo) (\<lambda>e. throw (SystemError e)) else ret ()))"

section \<open>Sockets own their descriptors\<close>

lemmas socket_defs = socket_none_def socket_move_def socket_swap_def socket_close_def
  socket_destruct_def socket_owned_def

interpretation sock: owning_handle socket_none "\<lambda>_. True" socket_owned socket_move socket_swap
  socket_destruct
  by unfold_locales (auto simp: socket_defs split: if_splits)

definition socket_step ::
  "(unix_socket, int) owner_op \<Rightarrow> (unix_socket, int) owners \<Rightarrow> (unix_socket, int) owners option" where
  "socket_step = owner_step socket_none socket_move socket_assign socket_destruct"

text \<open>
  The descriptors of sockets. In every program that adopts descriptors, moves sockets, assigns
  them (to themselves too) and destroys them, no descriptor is closed twice, each open one has
  exactly one socket, and when no socket is left every descriptor has been closed.
\<close>

lemma socket_closed_once:
  "\<exists>st. run_steps (checked (\<lambda>_. True) socket_owned socket_step) ops
      \<lparr>vars = Map.empty, live = {}\<rparr> = Some st \<and>
    held_once (holds socket_owned st) (live st) \<and>
    (vars st = Map.empty \<longrightarrow> live st = {})"
proof -
  from sock.never_released_twice [OF no_owners_inv, of ops] obtain st where
    st: "run_steps (checked (\<lambda>_. True) socket_owned socket_step) ops
      \<lparr>vars = Map.empty, live = {}\<rparr> = Some st" "owners_inv (\<lambda>_. True) socket_owned st"
    by (auto simp: socket_step_def socket_assign_def)
  from sock.nothing_lost [OF st(2)] sock.inv_heldD [OF st(2)] st(1) show ?thesis by auto
qed

lemma socket_closed_once_example:
  "\<exists>st. run_steps (checked (\<lambda>_. True) socket_owned socket_step)
      [Construct 1 \<lparr>sock_fd = 5\<rparr> 5, Construct 2 \<lparr>sock_fd = 6\<rparr> 6, MoveAssign 2 1, MoveAssign 2 2,
       Destruct 1, Destruct 2] \<lparr>vars = Map.empty, live = {}\<rparr> = Some st \<and> live st = {}"
proof -
  let ?ops = "[Construct 1 \<lparr>sock_fd = 5\<rparr> 5, Construct 2 \<lparr>sock_fd = 6\<rparr> 6, MoveAssign 2 1,
       MoveAssign 2 2, Destruct 1, Destruct 2]"
  from socket_closed_once [of ?ops] obtain st where
    st: "run_steps (checked (\<lambda>_. True) socket_owned socket_step) ?ops
      \<lparr>vars = Map.empty, live = {}\<rparr> = Some st" "vars st = Map.empty \<longrightarrow> live st = {}" by blast
  then have "vars st = Map.empty"
    by (auto simp: checked_def socket_step_def socket_assign_def move_assign_with_def socket_defs
        Let_def)
  with st show ?thesis by blast
qed

text \<open>An explicit \<open>close\<close> leaves the number in the object, so that the destructor closes it again.\<close>

lemma close_then_destruct:
  assumes "sock_fd s \<ge> 0" "sock_fd s \<in> R"
  shows "Option.bind (socket_close s R) (socket_destruct s) = None"
  using assms by (simp add: socket_defs)

section \<open>Processes own their children\<close>

definition process_owned :: "process \<Rightarrow> int option" where
  "process_owned p = (if pid p \<le> 0 then None else Some (pid p))"

definition process_release :: "process \<Rightarrow> int set \<Rightarrow> int set option" where
  "process_release p R =
     (if pid p \<le> 0 then Some R else if pid p \<in> R then Some (R - {pid p}) else None)"

lemmas process_defs = process_none_def process_move_def process_swap_def process_owned_def process_release_def

interpretation proc: owning_handle process_none "\<lambda>_. True" process_owned process_move process_swap process_release
  by unfold_locales (auto simp: process_defs split: if_splits)

definition reaping :: "process \<Rightarrow> io_call list" where
  "reaping p = (if pid p \<le> 0 then [] else [Kill (pid p), WaitPid (pid p) WEXITED])"

lemma process_destruct_reaps:
  "snd (process_destruct p w t) = t @ reaping p"
  "fst (process_destruct p w t) = Ret x \<Longrightarrow> process_destruct p w t = (Ret (), t @ reaping p)"
  by (auto simp: process_destruct_def terminate_and_wait_def process_terminate_def process_wait_def reaping_def
      bindp_run prog_run split: option.splits if_splits)

text \<open>A move assignment that returns has released, as the contract says, the process of the target.\<close>

lemma process_assign_refines:
  assumes st: "move_assign_with process_move process_swap process_release x y st = Some st'"
    and run: "process_assign x y (vars st) w t = (Ret vs, t')"
  shows "vars st' = vs \<and> t' = t @ concat (map (\<lambda>p. [Kill p, WaitPid p WEXITED]) (sorted_list_of_set (live st - live st')))"
proof -
  obtain other tmp other' this this' tmp' R where o: "vars st y = Some other" "process_move other = (tmp, other')"
      "((vars st)(y \<mapsto> other')) x = Some this" "process_swap this tmp = (this', tmp')"
      "process_release tmp' (live st) = Some R" "st' = st\<lparr>vars := (vars st)(y \<mapsto> other', x \<mapsto> this'), live := R\<rparr>"
    using st by (auto simp: move_assign_with_def Let_def simp del: fun_upd_apply split: prod.splits Option.bind_splits)
  then have "process_assign x y (vars st) w t = (thenp (process_destruct tmp') (ret (vars st'))) w t"
    by (simp add: process_assign_def)
  with run o(5) process_destruct_reaps [of tmp' w t] show ?thesis
    by (cases "fst (process_destruct tmp' w t)")
      (auto simp: bindp_run prog_run reaping_def process_release_def o(6) double_diff split: if_splits)
qed

text \<open>In every program over processes no child is waited for twice and none is forgotten.\<close>

lemma process_reaped_once:
  "\<exists>st. run_steps (checked (\<lambda>_. True) process_owned (owner_step process_none process_move
      (move_assign_with process_move process_swap process_release) process_release)) ops
      \<lparr>vars = Map.empty, live = {}\<rparr> = Some st \<and>
    held_once (holds process_owned st) (live st) \<and> (vars st = Map.empty \<longrightarrow> live st = {})"
proof -
  from proc.never_released_twice [OF no_owners_inv, of ops] obtain st where
    st: "run_steps (checked (\<lambda>_. True) process_owned (owner_step process_none process_move
      (move_assign_with process_move process_swap process_release) process_release)) ops
      \<lparr>vars = Map.empty, live = {}\<rparr> = Some st" "owners_inv (\<lambda>_. True) process_owned st"
    by auto
  from proc.nothing_lost [OF st(2)] proc.inv_heldD [OF st(2)] st(1) show ?thesis by auto
qed

section \<open>Creating sockets\<close>

text \<open>
  What creating a socket leaves: the descriptor goes to the returned object and is still open, or
  it is closed as the last thing before the exception reaches the caller.
\<close>

definition created_or_closed :: "int \<Rightarrow> unix_socket outcome \<Rightarrow> io_call list \<Rightarrow> bool" where
  "created_or_closed fd r es =
     (case r of
        Ret s \<Rightarrow> sock_fd s = fd \<and> 0 \<le> fd \<and> CloseFd fd \<notin> set es
      | Exc e \<Rightarrow> fd < 0 \<or> es \<noteq> [] \<and> last es = CloseFd fd \<and> CloseFd fd \<notin> set (butlast es)
      | Abort \<Rightarrow> False)"

lemma create_socket_created_or_closed:
  fixes w :: io_world
  assumes body: "\<And>fd addr t. \<exists>new. snd (f fd addr w t) = t @ new \<and> CloseFd fd \<notin> set new \<and>
      (case fst (f fd addr w t) of Ret s \<Rightarrow> sock_fd s = fd | Exc e \<Rightarrow> True | Abort \<Rightarrow> False)"
  shows "\<exists>new. snd (create_socket path f w t) = t @ Socket # new \<and>
    created_or_closed (io_int w (t @ [Socket])) (fst (create_socket path f w t)) new"
proof (cases "io_int w (t @ [Socket]) < 0")
  case True
  then show ?thesis
    by (simp add: create_socket_def bindp_call_run throw_run created_or_closed_def)
next
  case False
  define fd where "fd = io_int w (t @ [Socket])"
  define t1 where "t1 = t @ [Socket]"
  define body where "body = (if length path > sun_path_size
    then throw (RuntimeError ''create_socket(): path too long'') else f fd (replicate sun_path_size 0))"
  have run: "create_socket path f w t = guarded_unless_ret (emit (CloseFd fd)) body w t1"
    using False by (simp add: create_socket_def bindp_call_run fd_def t1_def body_def Let_def)
  obtain new where new: "snd (body w t1) = t1 @ new" "CloseFd fd \<notin> set new"
    "case fst (body w t1) of Ret s \<Rightarrow> sock_fd s = fd | Exc e \<Rightarrow> True | Abort \<Rightarrow> False"
  proof (cases "length path > sun_path_size")
    case True
    then show ?thesis using that [of "[]"] by (simp add: body_def throw_run)
  next
    case False
    then show ?thesis
      using that assms [of fd "replicate sun_path_size 0" t1] by (auto simp: body_def)
  qed
  have "create_socket path f w t = (case fst (body w t1) of
      Exc e \<Rightarrow> (Exc e, (t1 @ new) @ [CloseFd fd]) | _ \<Rightarrow> body w t1)"
    unfolding run by (rule guarded_unless_ret_run) (simp add: new(1) emit_run)
  then show ?thesis
    using new False by (auto simp: created_or_closed_def fd_def [symmetric] t1_def split: outcome.splits)
qed

text \<open>
  Opening a socket. Whatever the kernel answers, binding and connecting either return an object
  that holds the new, still open descriptor, or throw after closing it exactly once.
\<close>

lemma socket_opened_or_closed:
  fixes w :: io_world
  assumes "open_socket = socket_bind \<or> open_socket = socket_connect"
  shows "\<exists>new. snd (open_socket path w t) = t @ Socket # new \<and>
    created_or_closed (io_int w (t @ [Socket])) (fst (open_socket path w t)) new"
  using assms
proof
  assume "open_socket = socket_bind"
  then show ?thesis unfolding socket_bind_def
    by (auto intro!: create_socket_created_or_closed simp: bindp_call_run prog_run)
next
  assume "open_socket = socket_connect"
  then show ?thesis unfolding socket_connect_def
    by (auto intro!: create_socket_created_or_closed simp: bindp_call_run prog_run)
qed

definition demo_io_world :: "int \<Rightarrow> io_world" where
  "demo_io_world n = \<lparr>io_int = (\<lambda>t. case last t of Socket \<Rightarrow> 4 | _ \<Rightarrow> n), io_status = (\<lambda>_. Some 0),
     io_errno = (\<lambda>_. 2), io_strerror = (\<lambda>_. ''refused''),
     io_recv = (\<lambda>_. (600, empty_response\<lparr>res_num_fds := 2, res_descriptors :=
        [empty_descriptor\<lparr>pd_fd := 5\<rparr>, empty_descriptor\<lparr>pd_fd := 6\<rparr>] @ replicate 6 empty_descriptor\<rparr>,
        Some [15, 16])), io_request = (\<lambda>_. kStop)\<rparr>"

lemma socket_opened_or_closed_example:
  "\<exists>new. snd (socket_connect ''/tmp/s'' (demo_io_world (-1)) []) = Socket # new \<and>
    last new = CloseFd 4"
proof -
  let ?w = "demo_io_world (-1)"
  have fd: "io_int ?w ([] @ [Socket]) = 4" by (simp add: demo_io_world_def)
  have x: "fst (socket_connect ''/tmp/s'' ?w []) = Exc (LogicError ''connect(): refused'')"
    by (simp add: socket_connect_def create_socket_def bindp_call_run guarded_unless_ret_run prog_run
        demo_io_world_def sun_path_size_def Let_def)
  from socket_opened_or_closed [of socket_connect "''/tmp/s''" ?w "[]"] obtain new where
    "snd (socket_connect ''/tmp/s'' ?w []) = [] @ Socket # new"
    "created_or_closed 4 (fst (socket_connect ''/tmp/s'' ?w [])) new"
    unfolding fd by blast
  then show ?thesis unfolding x by (simp add: created_or_closed_def)
qed

text \<open>
  (C39) The address of a socket. The bytes of the path never reach the kernel: two paths of the same
  length bind to and connect to the same name, which is all zeros.
\<close>

theorem socket_address_ignores_path:
  assumes "length path = length path'"
  shows "socket_bind path = socket_bind path' \<and> socket_connect path = socket_connect path'"
  unfolding socket_bind_def socket_connect_def create_socket_def assms by simp

theorem socket_address_ignores_path_witness:
  "socket_bind ''/tmp/a.sock'' = socket_bind ''/run/others'' \<and>
   socket_connect ''/tmp/a.sock'' = socket_connect ''/run/others''"
  by (rule socket_address_ignores_path) simp

section \<open>Responses with descriptors\<close>

lemma set_fds_nth:
  "n \<le> length ds \<Longrightarrow> length (set_fds fds n ds) = length ds \<and>
   (\<forall>i < length ds. set_fds fds n ds ! i = (if i < n then (ds ! i)\<lparr>pd_fd := fds ! i\<rparr> else ds ! i))"
proof (induction n arbitrary: ds)
  case (Suc n)
  have "n \<le> length (ds[n := (ds ! n)\<lparr>pd_fd := fds ! n\<rparr>])" using Suc.prems by simp
  from Suc.IH [OF this] Suc.prems show ?case by (auto simp: nth_list_update less_Suc_eq)
qed simp

text \<open>The descriptor as the receiving process sees it, with the kernel's translation \<open>k\<close>.\<close>

definition translate :: "(int \<Rightarrow> int) \<Rightarrow> nat \<Rightarrow> plane_descriptor list \<Rightarrow> plane_descriptor list" where
  "translate k n ds = map (\<lambda>d. d\<lparr>pd_fd := k (pd_fd d)\<rparr>) (take n ds) @ drop n ds"

lemma set_fds_translate:
  assumes n: "n \<le> length ds" "length ds \<le> kMaxPlaneDescriptors"
  shows "set_fds (control_buffer (map k (map pd_fd (take n ds)))) n ds = translate k n ds"
proof (rule nth_equalityI)
  show "length (set_fds (control_buffer (map k (map pd_fd (take n ds)))) n ds) = length (translate k n ds)"
    using set_fds_nth [OF n(1)] n by (simp add: translate_def)
  fix i
  assume "i < length (set_fds (control_buffer (map k (map pd_fd (take n ds)))) n ds)"
  then have i: "i < length ds" using set_fds_nth [OF n(1)] by simp
  show "set_fds (control_buffer (map k (map pd_fd (take n ds)))) n ds ! i = translate k n ds ! i"
    using set_fds_nth [OF n(1), of "control_buffer (map k (map pd_fd (take n ds)))"] i n
    by (auto simp: translate_def nth_append control_buffer_def min_def)
qed

lemma sender_history:
  assumes "num = res_num_fds response" "0 < num" "num \<le> kMaxPlaneDescriptors"
    and "io_int w (t @ [Poll s POLLOUT (timeout_spec ms)]) > 0"
  shows "snd (drm_response_sender response ms s w t) =
    t @ [Poll s POLLOUT (timeout_spec ms), SendFds s (map pd_fd (take num (res_descriptors response)))] \<or>
    snd (drm_response_sender response ms s w t) =
    t @ [Poll s POLLOUT (timeout_spec ms), SendFds s (map pd_fd (take num (res_descriptors response))), GetErrNo]"
  using assms by (simp add: drm_response_sender_def message_handler_def response_send_handler_def
      bindp_call_run bindp_run prog_run)

text \<open>
  (C18) Responses. A response with descriptors is sent with exactly the descriptors of its first
  \<open>num_fds\<close> planes in the control message. When the kernel delivers the payload and its
  translation of those descriptors, the receiver returns the response with every one of these
  planes carrying the translated descriptor, in order, and everything else unchanged.
\<close>

theorem drm_response_round_trip:
  fixes w w' :: io_world
  assumes "0 < res_num_fds response" "res_num_fds response \<le> kMaxPlaneDescriptors"
    and "length (res_descriptors response) = kMaxPlaneDescriptors"
    and "io_int w (t @ [Poll s POLLOUT (timeout_spec ms)]) > 0"
    and "io_int w' (t' @ [Poll s' POLLOUT (timeout_spec ms')]) > 0"
    and delivered: "\<And>fds. SendFds s fds \<in> set (drop (length t) (snd (drm_response_sender response ms s w t))) \<Longrightarrow>
      io_recv w' (t' @ [Poll s' POLLOUT (timeout_spec ms'), RecvMsg s']) = (n, response, Some (map k fds))"
    and "0 < n"
  shows "drm_response_receiver ms' s' w' t' =
    (Ret (Inr (nat n, Some (response\<lparr>res_descriptors :=
       translate k (res_num_fds response) (res_descriptors response)\<rparr>))),
     t' @ [Poll s' POLLOUT (timeout_spec ms'), RecvMsg s'])"
proof -
  let ?num = "res_num_fds response" and ?ds = "res_descriptors response"
  have "io_recv w' (t' @ [Poll s' POLLOUT (timeout_spec ms'), RecvMsg s']) =
      (n, response, Some (map k (map pd_fd (take ?num ?ds))))"
    using sender_history [OF refl assms(1,2,4)] by (intro delivered) auto
  moreover have "set_fds (control_buffer (map k (map pd_fd (take ?num ?ds)))) ?num ?ds = translate k ?num ?ds"
    using assms(2,3) by (intro set_fds_translate) simp_all
  ultimately show ?thesis
    using assms(1,2,5,7)
    by (simp add: drm_response_receiver_def message_handler_def response_receive_handler_def
        bindp_call_run bindp_run prog_run)
qed

definition demo_response :: drm_response where
  "demo_response = empty_response\<lparr>res_num_fds := 2, res_descriptors :=
     [empty_descriptor\<lparr>pd_fd := 5\<rparr>, empty_descriptor\<lparr>pd_fd := 6\<rparr>] @ replicate 6 empty_descriptor\<rparr>"

theorem drm_response_round_trip_witness:
  "fst (drm_response_receiver kInfinite 9 (demo_io_world 600) []) =
     Ret (Inr (600, Some (demo_response\<lparr>res_descriptors := translate (\<lambda>fd. fd + 10) 2 (res_descriptors demo_response)\<rparr>)))"
proof -
  have n: "res_num_fds demo_response = 2" "length (res_descriptors demo_response) = kMaxPlaneDescriptors"
    by (simp_all add: demo_response_def kMaxPlaneDescriptors_def)
  have "drm_response_receiver kInfinite 9 (demo_io_world 600) [] =
    (Ret (Inr (nat 600, Some (demo_response\<lparr>res_descriptors :=
       translate (\<lambda>fd. fd + 10) (res_num_fds demo_response) (res_descriptors demo_response)\<rparr>))),
     [] @ [Poll 9 POLLOUT (timeout_spec kInfinite), RecvMsg 9])"
  proof (rule drm_response_round_trip [where w = "demo_io_world 600" and s = 8 and t = "[]" and ms = kInfinite])
    fix fds
    assume "SendFds 8 fds \<in> set (drop (length []) (snd (drm_response_sender demo_response kInfinite 8 (demo_io_world 600) [])))"
    then have "fds = [5, 6]"
      by (simp add: drm_response_sender_def message_handler_def response_send_handler_def bindp_call_run
          bindp_run prog_run demo_io_world_def demo_response_def kMaxPlaneDescriptors_def)
    then show "io_recv (demo_io_world 600) ([] @ [Poll 9 POLLOUT (timeout_spec kInfinite), RecvMsg 9]) =
        (600, demo_response, Some (map (\<lambda>fd. fd + 10) fds))"
      by (simp add: demo_io_world_def demo_response_def)
  qed (use n in \<open>simp_all add: demo_io_world_def kMaxPlaneDescriptors_def\<close>)
  then show ?thesis using n by simp
qed

end
