(* ===== verification/Resources.thy ===== *)
theory Resources
  imports Effects "HOL-Library.Multiset"
begin

text \<open>
  What a program holds. A call acquires or releases something depending on its answer; \<open>delta\<close>
  says what the last event of a history does to the multiset of things held, and fails when
  something is released that is not held. \<open>held_by\<close> is a Hoare triple over programs: from
  the given holdings, however the world answers, nothing is released that is not held, and the
  outcome and the new holdings satisfy the postcondition. The rules follow the structure of the
  code, with scope guards as the rule for releases.
\<close>

type_synonym ('w, 'c, 'r) delta = "'w \<Rightarrow> 'c list \<Rightarrow> 'c \<Rightarrow> 'r multiset \<Rightarrow> 'r multiset option"

fun track :: "('w, 'c, 'r) delta \<Rightarrow> 'w \<Rightarrow> 'c list \<Rightarrow> 'c list \<Rightarrow> 'r multiset \<Rightarrow> 'r multiset option" where
  "track d w t [] H = Some H"
| "track d w t (c # cs) H = Option.bind (d w (t @ [c]) c H) (track d w (t @ [c]) cs)"

lemma track_append:
  "track d w t (cs @ cs') H = Option.bind (track d w t cs H) (track d w (t @ cs) cs')"
  by (induction cs arbitrary: t H) (auto split: Option.bind_split)

definition release :: "'r \<Rightarrow> 'r multiset \<Rightarrow> 'r multiset option" where
  "release r H = (if r \<in># H then Some (H - {#r#}) else None)"

definition acquire :: "bool \<Rightarrow> 'r \<Rightarrow> 'r multiset \<Rightarrow> 'r multiset option" where
  "acquire b r H = Some (if b then add_mset r H else H)"

definition held_by ::
  "('w, 'c, 'r) delta \<Rightarrow> 'r multiset \<Rightarrow> ('w, 'c, 'a) prog \<Rightarrow> ('a outcome \<Rightarrow> 'r multiset \<Rightarrow> bool) \<Rightarrow> bool" where
  "held_by d H p Q \<longleftrightarrow>
     (\<forall>w t. \<exists>new H'. snd (p w t) = t @ new \<and> track d w t new H = Some H' \<and> Q (fst (p w t)) H')"

lemma held_byD:
  assumes "held_by d H p Q"
  obtains new H' where "snd (p w t) = t @ new" "track d w t new H = Some H'" "Q (fst (p w t)) H'"
  using assms unfolding held_by_def by meson

lemma held_byI:
  assumes "\<And>w t. \<exists>new H'. p w t = (r w t, t @ new) \<and> track d w t new H = Some H' \<and> Q (r w t) H'"
  shows "held_by d H p Q"
  unfolding held_by_def using assms by (metis fst_conv snd_conv)

lemma held_by_weaken: "held_by d H p Q \<Longrightarrow> (\<And>r H'. Q r H' \<Longrightarrow> Q' r H') \<Longrightarrow> held_by d H p Q'"
  unfolding held_by_def by meson

lemma held_by_ret: "Q (Ret x) H \<Longrightarrow> held_by d H (ret x) Q"
  by (simp add: held_by_def prog_run)

lemma held_by_throw: "Q (Exc e) H \<Longrightarrow> held_by d H (throw e) Q"
  by (simp add: held_by_def prog_run)

lemma held_by_terminate: "Q Abort H \<Longrightarrow> held_by d H terminate Q"
  by (simp add: held_by_def prog_run)

lemma held_by_call:
  assumes "\<And>w t. \<exists>H'. d w (t @ [c]) c H = Some H' \<and> Q (Ret (f w (t @ [c]))) H'"
  shows "held_by d H (call f c) Q"
  unfolding held_by_def
proof (intro allI)
  fix w t
  from assms [of w t] obtain H' where "d w (t @ [c]) c H = Some H'" "Q (Ret (f w (t @ [c]))) H'" by blast
  then show "\<exists>new H'. snd (call f c w t) = t @ new \<and> track d w t new H = Some H' \<and> Q (fst (call f c w t)) H'"
    by (intro exI [of _ "[c]"]) (simp add: prog_run)
qed

lemma held_by_emit:
  assumes "\<And>w t. d w (t @ [c]) c H = Some H'" "Q (Ret ()) H'"
  shows "held_by d H (emit c) Q"
  using held_by_call [of d c H Q "\<lambda>_ _. ()"] assms by (simp add: call_def emit_def)

lemma held_by_bindp:
  assumes p: "held_by d H p R"
    and ret: "\<And>x H'. R (Ret x) H' \<Longrightarrow> held_by d H' (f x) Q"
    and exc: "\<And>e H'. R (Exc e) H' \<Longrightarrow> Q (Exc e) H'"
    and abt: "\<And>H'. R Abort H' \<Longrightarrow> Q Abort H'"
  shows "held_by d H (bindp p f) Q"
  unfolding held_by_def
proof (intro allI)
  fix w t
  from p obtain new H' where p': "snd (p w t) = t @ new" "track d w t new H = Some H'" "R (fst (p w t)) H'"
    by (rule held_byD)
  show "\<exists>new H'. snd (bindp p f w t) = t @ new \<and> track d w t new H = Some H' \<and> Q (fst (bindp p f w t)) H'"
  proof (cases "fst (p w t)")
    case (Ret x)
    with p'(3) have "held_by d H' (f x) Q" by (simp add: ret)
    then obtain new' H'' where "snd (f x w (t @ new)) = (t @ new) @ new'"
      "track d w (t @ new) new' H' = Some H''" "Q (fst (f x w (t @ new))) H''" by (rule held_byD)
    then show ?thesis using Ret p'
      by (intro exI [of _ "new @ new'"] exI [of _ H'']) (simp add: bindp_run track_append)
  qed (use p' exc abt in \<open>auto simp: bindp_run\<close>)
qed

lemma held_by_call_bindp:
  assumes "\<And>w t. \<exists>H'. d w (t @ [c]) c H = Some H' \<and> held_by d H' (f (g w (t @ [c]))) Q"
  shows "held_by d H (bindp (call g c) f) Q"
  by (rule held_by_bindp [where R = "\<lambda>r H'. \<exists>x. r = Ret x \<and> held_by d H' (f x) Q"])
    (use assms in \<open>auto intro!: held_by_call\<close>)

text \<open>
  A scope guard: the body's outcome decides nothing about whether the guard runs, only the
  process may end before it.
\<close>

lemma held_by_guarded:
  assumes p: "held_by d H p R"
    and fin: "\<And>r H'. R r H' \<Longrightarrow> r \<noteq> Abort \<Longrightarrow> held_by d H' f (\<lambda>u H''. u = Ret () \<and> Q r H'')"
    and abt: "\<And>H'. R Abort H' \<Longrightarrow> Q Abort H'"
  shows "held_by d H (guarded f p) Q"
  unfolding held_by_def
proof (intro allI)
  fix w t
  from p obtain new H' where p': "snd (p w t) = t @ new" "track d w t new H = Some H'" "R (fst (p w t)) H'"
    by (rule held_byD)
  show "\<exists>new H'. snd (guarded f p w t) = t @ new \<and> track d w t new H = Some H' \<and> Q (fst (guarded f p w t)) H'"
  proof (cases "fst (p w t) = Abort")
    case True
    then have "guarded f p w t = (Abort, t @ new)"
      using p'(1) by (cases "p w t") (simp add: guarded_def finishing_def)
    with True p' abt show ?thesis by auto
  next
    case False
    from fin [OF p'(3) False] obtain new' H'' where f: "snd (f w (t @ new)) = (t @ new) @ new'"
      "track d w (t @ new) new' H' = Some H''" "fst (f w (t @ new)) = Ret ()" "Q (fst (p w t)) H''"
      by (rule held_byD [where w = w and t = "t @ new"]) auto
    have "f w (snd (p w t)) = (Ret (), t @ new @ new')"
      using f p'(1) by (metis append.assoc prod.collapse)
    from guarded_run [of f w p t, OF this] False f p' show ?thesis
      by (intro exI [of _ "new @ new'"] exI [of _ H'']) (simp add: track_append)
  qed
qed

section \<open>Programs of a part inside a program of the whole\<close>

text \<open>
  A part has its own calls and its own world. Inside the whole its calls are events of the
  whole, and its world is what the whole world makes of the history so far.
\<close>

definition inside ::
  "('w \<Rightarrow> 'c list \<Rightarrow> 'v) \<Rightarrow> ('d \<Rightarrow> 'c) \<Rightarrow> ('v, 'd, 'a) prog \<Rightarrow> ('w, 'c, 'a) prog" where
  "inside view ev p = (\<lambda>w t. case p (view w t) [] of (r, new) \<Rightarrow> (r, t @ map ev new))"

lemma runs_inside:
  assumes "runs p P"
  shows "runs (inside view ev p) (\<lambda>r es. \<exists>es'. es = map ev es' \<and> P r es')"
proof (rule runsI)
  fix w t
  from runsD [OF assms, of "view w t" "[]"]
  show "\<exists>new. snd (inside view ev p w t) = t @ new \<and>
      (\<exists>es'. new = map ev es' \<and> P (fst (inside view ev p w t)) es')"
    by (auto simp: inside_def split: prod.splits)
qed

text \<open>Events of a part that neither acquire nor release.\<close>

lemma track_neutral: "(\<And>w t c H. c \<in> set cs \<Longrightarrow> d w t c H = Some H) \<Longrightarrow> track d w t cs H = Some H"
  by (induction cs arbitrary: t) auto

lemma held_by_inside:
  assumes "\<And>w t c H. d w t (ev c) H = Some H" and "\<And>x. Q x H"
  shows "held_by d H (inside view ev p) Q"
  unfolding held_by_def
proof (intro allI)
  fix w t
  obtain r new where p: "p (view w t) [] = (r, new)" by (cases "p (view w t) []")
  have "track d w t (map ev new) H = Some H" by (rule track_neutral) (auto simp: assms(1))
  then show "\<exists>new H'. snd (inside view ev p w t) = t @ new \<and> track d w t new H = Some H' \<and>
      Q (fst (inside view ev p w t)) H'"
    using p assms(2) by (auto simp: inside_def)
qed

section \<open>What a program adds to the holdings\<close>

text \<open>
  \<open>gains d p G\<close>: unless the process ends, \<open>p\<close> leaves what was held before it, and what it adds
  satisfies \<open>G\<close> together with its outcome.
\<close>

definition gains :: "('w, 'c, 'r) delta \<Rightarrow> ('w, 'c, 'a) prog \<Rightarrow> ('a outcome \<Rightarrow> 'r multiset \<Rightarrow> bool) \<Rightarrow> bool" where
  "gains d p G \<longleftrightarrow> (\<forall>H. held_by d H p (\<lambda>r H'. r \<noteq> Abort \<longrightarrow> (\<exists>L. H' = H + L \<and> G r L)))"

abbreviation neutral :: "('w, 'c, 'r) delta \<Rightarrow> ('w, 'c, 'a) prog \<Rightarrow> bool" where
  "neutral d p \<equiv> gains d p (\<lambda>_ L. L = {#})"

lemma gainsD: "gains d p G \<Longrightarrow> held_by d H p (\<lambda>r H'. r \<noteq> Abort \<longrightarrow> (\<exists>L. H' = H + L \<and> G r L))"
  by (simp add: gains_def)

lemma gains_run:
  assumes "gains d p G"
  obtains new L where "snd (p w t) = t @ new" "track d w t new {#} = Some L" "fst (p w t) \<noteq> Abort \<Longrightarrow> G (fst (p w t)) L"
  by (rule held_byD [OF gainsD [OF assms, of "{#}"], of w t]) auto

lemma gains_weaken: "gains d p G \<Longrightarrow> (\<And>r L. r \<noteq> Abort \<Longrightarrow> G r L \<Longrightarrow> G' r L) \<Longrightarrow> gains d p G'"
  unfolding gains_def by (blast intro: held_by_weaken)

lemma gains_ret: "G (Ret x) {#} \<Longrightarrow> gains d (ret x) G"
  by (auto simp: gains_def intro: held_by_ret)

lemma gains_throw: "G (Exc e) {#} \<Longrightarrow> gains d (throw e) G"
  by (auto simp: gains_def intro: held_by_throw)

lemma gains_terminate: "gains d terminate G"
  by (auto simp: gains_def intro: held_by_terminate)

lemma gains_call_bindp:
  assumes "\<And>w t H. d w (t @ [c]) c H = Some H" "\<And>x. gains d (f x) G"
  shows "gains d (bindp (call g c) f) G"
  unfolding gains_def
  by (intro allI held_by_call_bindp) (use assms in \<open>auto simp: gains_def\<close>)

lemma gains_emit: "(\<And>w t H. d w (t @ [c]) c H = Some H) \<Longrightarrow> neutral d (emit c)"
  by (auto simp: gains_def intro: held_by_emit)

lemma gains_inside: "(\<And>w t c H. d w t (ev c) H = Some H) \<Longrightarrow> (\<And>r. G r {#}) \<Longrightarrow> gains d (inside view ev p) G"
  by (auto simp: gains_def intro: held_by_inside)

text \<open>
  \<open>scoped d R p G\<close>: \<open>p\<close> starts with \<open>R\<close> in addition and gives it back on every way out. A call
  that acquires is followed by such a program, usually one under the guard that releases.
\<close>

definition scoped ::
  "('w, 'c, 'r) delta \<Rightarrow> 'r multiset \<Rightarrow> ('w, 'c, 'a) prog \<Rightarrow> ('a outcome \<Rightarrow> 'r multiset \<Rightarrow> bool) \<Rightarrow> bool" where
  "scoped d R p G \<longleftrightarrow> (\<forall>H. held_by d (H + R) p (\<lambda>r H'. r \<noteq> Abort \<longrightarrow> (\<exists>L. H' = H + L \<and> G r L)))"

lemma scoped_nothing: "scoped d {#} p G = gains d p G"
  by (simp add: scoped_def gains_def)

lemma scopedD: "scoped d R p G \<Longrightarrow> held_by d (H + R) p (\<lambda>r H'. r \<noteq> Abort \<longrightarrow> (\<exists>L. H' = H + L \<and> G r L))"
  by (simp add: scoped_def)

lemma scoped_keep:
  assumes "gains d p (\<lambda>r L. G r (R + L))"
  shows "scoped d R p G"
  unfolding scoped_def
  by (intro allI held_by_weaken [OF gainsD [OF assms]]) (auto simp: add.assoc)

lemma scoped_guarded_all:
  assumes p: "gains d p G" and f: "\<And>H. held_by d (H + R) f (\<lambda>u H'. u = Ret () \<and> H' = H)"
  shows "scoped d R (guarded f p) G"
  unfolding scoped_def
proof (intro allI held_by_guarded [OF gainsD [OF p]])
  fix H x H'
  assume "x \<noteq> Abort \<longrightarrow> (\<exists>L. H' = H + R + L \<and> G x L)" "x \<noteq> Abort"
  then obtain L where L: "H' = (H + L) + R" "G x L" by (auto simp: ac_simps)
  show "held_by d H' f (\<lambda>u H''. u = Ret () \<and> (x \<noteq> Abort \<longrightarrow> (\<exists>L. H'' = H + L \<and> G x L)))"
    unfolding L(1) by (rule held_by_weaken [OF f]) (use L(2) in auto)
qed simp

lemma scoped_guarded:
  assumes "gains d p G" "\<And>w t H. d w (t @ [c]) c H = release r H"
  shows "scoped d {#r#} (guarded (emit c) p) G"
  using assms(1) by (rule scoped_guarded_all) (auto simp: assms(2) release_def intro!: held_by_emit)

lemma scoped_bindp:
  assumes p: "scoped d R p G1"
    and ret: "\<And>x L. G1 (Ret x) L \<Longrightarrow> gains d (f x) (\<lambda>r L'. G r (L + L'))"
    and exc: "\<And>e L. G1 (Exc e) L \<Longrightarrow> G (Exc e) L"
  shows "scoped d R (bindp p f) G"
  unfolding scoped_def
proof (intro allI held_by_bindp [OF scopedD [OF p]])
  fix H x H'
  assume "Ret x \<noteq> Abort \<longrightarrow> (\<exists>L. H' = H + L \<and> G1 (Ret x) L)"
  then obtain L where L: "H' = H + L" "G1 (Ret x) L" by auto
  show "held_by d H' (f x) (\<lambda>r H''. r \<noteq> Abort \<longrightarrow> (\<exists>L. H'' = H + L \<and> G r L))"
    by (rule held_by_weaken [OF gainsD [OF ret [OF L(2)]]]) (use L(1) in \<open>auto simp: add.assoc\<close>)
qed (use exc in auto)

lemma scoped_neutral_bindp:
  "scoped d R p (\<lambda>_ L. L = {#}) \<Longrightarrow> (\<And>x. gains d (f x) G) \<Longrightarrow> (\<And>e. G (Exc e) {#}) \<Longrightarrow> scoped d R (bindp p f) G"
  by (rule scoped_bindp [where ?G1.0 = "\<lambda>_ L. L = {#}"]) auto

lemma gains_bindp:
  assumes "gains d p G1" and "\<And>x L. G1 (Ret x) L \<Longrightarrow> gains d (f x) (\<lambda>r L'. G r (L + L'))"
    and "\<And>e L. G1 (Exc e) L \<Longrightarrow> G (Exc e) L"
  shows "gains d (bindp p f) G"
  using scoped_bindp [of d "{#}" p G1 f G] assms by (simp add: scoped_nothing)

lemma neutral_bindp:
  "neutral d p \<Longrightarrow> (\<And>x. gains d (f x) G) \<Longrightarrow> (\<And>e. G (Exc e) {#}) \<Longrightarrow> gains d (bindp p f) G"
  by (rule gains_bindp [where ?G1.0 = "\<lambda>_ L. L = {#}"]) auto

lemma neutral_for_each: "(\<And>x. neutral d (f x)) \<Longrightarrow> neutral d (for_each f xs)"
  by (induction xs) (auto intro: gains_ret neutral_bindp)

lemma gains_acquire:
  assumes "\<And>w t. d w (t @ [c]) c = acquire (b (g w (t @ [c]))) (r (g w (t @ [c])))"
    and "\<And>x. \<not> b x \<Longrightarrow> gains d (f x) G" "\<And>x. b x \<Longrightarrow> scoped d {#r x#} (f x) G"
  shows "gains d (bindp (call g c) f) G"
  unfolding gains_def
proof (intro allI held_by_call_bindp)
  fix H w t
  show "\<exists>H'. d w (t @ [c]) c H = Some H' \<and>
    held_by d H' (f (g w (t @ [c]))) (\<lambda>r H''. r \<noteq> Abort \<longrightarrow> (\<exists>L. H'' = H + L \<and> G r L))"
    using assms(2) [of "g w (t @ [c])"] assms(3) [of "g w (t @ [c])"]
    by (cases "b (g w (t @ [c]))") (auto simp: assms(1) acquire_def scoped_def gains_def)
qed

text \<open>Sequences of a program that pass what they hold from one to the next.\<close>

lemma scoped_weaken: "scoped d R p G \<Longrightarrow> (\<And>r L. r \<noteq> Abort \<Longrightarrow> G r L \<Longrightarrow> G' r L) \<Longrightarrow> scoped d R p G'"
  unfolding scoped_def by (blast intro: held_by_weaken)

lemma scoped_ret: "G (Ret x) R \<Longrightarrow> scoped d R (ret x) G"
  by (auto simp: scoped_def intro: held_by_ret)

lemma scoped_throw: "G (Exc e) R \<Longrightarrow> scoped d R (throw e) G"
  by (auto simp: scoped_def intro: held_by_throw)

lemma scoped_terminate: "scoped d R terminate G"
  by (auto simp: scoped_def intro: held_by_terminate)

lemma scoped_seq:
  assumes p: "scoped d R p G1" and ret: "\<And>x L. G1 (Ret x) L \<Longrightarrow> scoped d L (f x) G"
    and exc: "\<And>e L. G1 (Exc e) L \<Longrightarrow> G (Exc e) L"
  shows "scoped d R (bindp p f) G"
  unfolding scoped_def
proof (intro allI held_by_bindp [OF scopedD [OF p]])
  fix H x H'
  assume "Ret x \<noteq> Abort \<longrightarrow> (\<exists>L. H' = H + L \<and> G1 (Ret x) L)"
  then obtain L where L: "H' = H + L" "G1 (Ret x) L" by auto
  show "held_by d H' (f x) (\<lambda>r H''. r \<noteq> Abort \<longrightarrow> (\<exists>L. H'' = H + L \<and> G r L))"
    unfolding L(1) by (rule scopedD [OF ret [OF L(2)]])
qed (use exc in auto)

lemma scoped_neutral_call:
  assumes "\<And>w t H. d w (t @ [c]) c H = Some H" "\<And>x. scoped d R (f x) G"
  shows "scoped d R (bindp (call g c) f) G"
  unfolding scoped_def
  by (intro allI held_by_call_bindp) (use assms in \<open>auto simp: scoped_def\<close>)

lemma scoped_acquire:
  assumes "\<And>w t. d w (t @ [c]) c = acquire (b (g w (t @ [c]))) (r (g w (t @ [c])))"
    and "\<And>x. \<not> b x \<Longrightarrow> scoped d R (f x) G" "\<And>x. b x \<Longrightarrow> scoped d (add_mset (r x) R) (f x) G"
  shows "scoped d R (bindp (call g c) f) G"
  unfolding scoped_def
proof (intro allI held_by_call_bindp)
  fix H w t
  show "\<exists>H'. d w (t @ [c]) c (H + R) = Some H' \<and>
    held_by d H' (f (g w (t @ [c]))) (\<lambda>r H''. r \<noteq> Abort \<longrightarrow> (\<exists>L. H'' = H + L \<and> G r L))"
    using assms(2) [of "g w (t @ [c])"] assms(3) [of "g w (t @ [c])"]
    by (cases "b (g w (t @ [c]))") (auto simp: assms(1) acquire_def scoped_def)
qed

lemma bindp_emit: "bindp (emit c) f = bindp (call (\<lambda>_ _. ()) c) f"
  by (rule ext, rule ext) (simp add: bindp_call_run bindp_emit_run)

lemma scoped_neutral_emit:
  "(\<And>w t H. d w (t @ [c]) c H = Some H) \<Longrightarrow> scoped d R (f ()) G \<Longrightarrow> scoped d R (bindp (emit c) f) G"
  unfolding bindp_emit by (rule scoped_neutral_call) auto

lemma scoped_release:
  assumes "\<And>w t H. d w (t @ [c]) c H = release r H" "r \<in># R" "scoped d (R - {#r#}) (f ()) G"
  shows "scoped d R (bindp (emit c) f) G"
  unfolding scoped_def bindp_emit
  by (intro allI held_by_call_bindp) (use assms in \<open>auto simp: release_def scoped_def\<close>)

lemma scoped_release_call:
  assumes "\<And>w t H. d w (t @ [c]) c H = release r H" "r \<in># R" "\<And>x. scoped d (R - {#r#}) (f x) G"
  shows "scoped d R (bindp (call g c) f) G"
  unfolding scoped_def
  by (intro allI held_by_call_bindp) (use assms in \<open>auto simp: release_def scoped_def\<close>)

text \<open>A guard whose function may fail, which ends the process.\<close>

lemma guarded_fails:
  assumes "fst (f w (snd (p w t))) \<noteq> Ret ()" "fst (p w t) \<noteq> Abort"
  shows "guarded f p w t = (Abort, snd (f w (snd (p w t))))"
  using assms by (cases "p w t"; cases "f w (snd (p w t))")
    (auto simp: guarded_def finishing_def destroy_guard_def scope_guard_def noexcept_def split: outcome.splits)

lemma scoped_guard:
  assumes p: "scoped d R p G" and f: "scoped d R' f (\<lambda>r L. r = Ret () \<longrightarrow> L = {#})"
  shows "scoped d (R + R') (guarded f p) G"
  unfolding scoped_def held_by_def
proof (intro allI)
  fix H w t
  let ?g = "guarded f p"
  from scopedD [OF p, of "H + R'"] obtain new H' where p': "snd (p w t) = t @ new"
    "track d w t new (H + (R + R')) = Some H'"
    "fst (p w t) \<noteq> Abort \<longrightarrow> (\<exists>L. H' = (H + L) + R' \<and> G (fst (p w t)) L)"
    by (rule held_byD [where w = w and t = t]) (auto simp: ac_simps)
  show "\<exists>new H'. snd (?g w t) = t @ new \<and> track d w t new (H + (R + R')) = Some H' \<and>
    (fst (?g w t) \<noteq> Abort \<longrightarrow> (\<exists>L. H' = H + L \<and> G (fst (?g w t)) L))"
  proof (cases "fst (p w t) = Abort")
    case True
    then have "?g w t = p w t" by (cases "p w t") (simp add: guarded_def finishing_def)
    with True p' show ?thesis by auto
  next
    case False
    with p' obtain L where L: "H' = (H + L) + R'" "G (fst (p w t)) L" by auto
    have "held_by d ((H + L) + R') f (\<lambda>r H''. r = Ret () \<longrightarrow> H'' = H + L)"
      by (rule held_by_weaken [OF scopedD [OF f]]) auto
    then obtain new' H'' where fw: "snd (f w (t @ new)) = (t @ new) @ new'"
      "track d w (t @ new) new' H' = Some H''" "fst (f w (t @ new)) = Ret () \<longrightarrow> H'' = H + L"
      unfolding L(1) by (rule held_byD [where w = w and t = "t @ new"])
    show ?thesis
    proof (cases "fst (f w (t @ new)) = Ret ()")
      case True
      then have "f w (snd (p w t)) = (Ret (), t @ new @ new')" using fw p'(1) by (metis append.assoc prod.collapse)
      from guarded_run [of f w p t, OF this] False True fw L p' show ?thesis
        by (intro exI [of _ "new @ new'"] exI [of _ "H + L"]) (auto simp: track_append)
    next
      case bad: False
      from guarded_fails [of f w p t] bad False p'(1) fw show ?thesis
        by (intro exI [of _ "new @ new'"] exI [of _ H'']) (simp add: track_append p')
    qed
  qed
qed

lemma scoped_cleanup:
  "gains d p G \<Longrightarrow> scoped d R f (\<lambda>r L. r = Ret () \<longrightarrow> L = {#}) \<Longrightarrow> scoped d R (guarded f p) G"
  using scoped_guard [of d "{#}" p G R f] by (simp add: scoped_nothing)

text \<open>A guard that the body deactivates by returning.\<close>

lemma guarded_unless_ret_fails:
  assumes "fst (f w (snd (p w t))) \<noteq> Ret ()" "fst (p w t) = Exc e"
  shows "guarded_unless_ret f p w t = (Abort, snd (f w (snd (p w t))))"
  using assms by (cases "p w t"; cases "f w (snd (p w t))")
    (auto simp: guarded_unless_ret_def finishing_def destroy_guard_def scope_guard_def noexcept_def split: outcome.splits)

lemma scoped_guarded_unless_ret:
  assumes p: "gains d p (\<lambda>r L. case r of Ret x \<Rightarrow> G r (R + L) | Exc e \<Rightarrow> G r L | Abort \<Rightarrow> True)"
    and f: "scoped d R f (\<lambda>r L. r = Ret () \<longrightarrow> L = {#})"
  shows "scoped d R (guarded_unless_ret f p) G"
  unfolding scoped_def held_by_def
proof (intro allI)
  fix H w t
  from gainsD [OF p] obtain new H' where p': "snd (p w t) = t @ new" "track d w t new (H + R) = Some H'"
    "fst (p w t) \<noteq> Abort \<longrightarrow> (\<exists>L. H' = (H + R) + L \<and>
      (case fst (p w t) of Ret x \<Rightarrow> G (fst (p w t)) (R + L) | Exc e \<Rightarrow> G (fst (p w t)) L | Abort \<Rightarrow> True))"
    by (rule held_byD [where w = w and t = t])
  let ?g = "guarded_unless_ret f p"
  show "\<exists>new H'. snd (?g w t) = t @ new \<and> track d w t new (H + R) = Some H' \<and>
    (fst (?g w t) \<noteq> Abort \<longrightarrow> (\<exists>L. H' = H + L \<and> G (fst (?g w t)) L))"
  proof (cases "fst (p w t)")
    case (Exc e)
    with p' obtain L where L: "H' = (H + L) + R" "G (Exc e) L" by (auto simp: ac_simps)
    have "held_by d ((H + L) + R) f (\<lambda>r H''. r = Ret () \<longrightarrow> H'' = H + L)"
      by (rule held_by_weaken [OF scopedD [OF f]]) auto
    then obtain new' H'' where fw: "snd (f w (t @ new)) = (t @ new) @ new'"
      "track d w (t @ new) new' H' = Some H''" "fst (f w (t @ new)) = Ret () \<longrightarrow> H'' = H + L"
      unfolding L(1) by (rule held_byD [where w = w and t = "t @ new"])
    show ?thesis
    proof (cases "fst (f w (t @ new)) = Ret ()")
      case True
      then have "f w (snd (p w t)) = (Ret (), t @ new @ new')" using fw p'(1) by (metis append.assoc prod.collapse)
      from guarded_unless_ret_run [of f w p t, OF this] Exc True fw L p' show ?thesis
        by (intro exI [of _ "new @ new'"] exI [of _ "H + L"]) (auto simp: track_append)
    next
      case False
      from guarded_unless_ret_fails [of f w p t] False Exc p'(1) fw show ?thesis
        by (intro exI [of _ "new @ new'"] exI [of _ H'']) (simp add: track_append p')
    qed
  next
    case (Ret x)
    then have "?g w t = p w t"
      by (cases "p w t") (auto simp: guarded_unless_ret_Ret)
    with Ret p' show ?thesis by (auto simp: add.assoc intro!: exI [of _ new])
  next
    case Abort
    then have "?g w t = p w t"
      by (cases "p w t") (auto simp: guarded_unless_ret_def finishing_def)
    with Abort p' show ?thesis by auto
  qed
qed

lemma scoped_returned:
  assumes "gains d p (\<lambda>r L. case r of Ret x \<Rightarrow> G r (add_mset h L) | Exc e \<Rightarrow> G r L | Abort \<Rightarrow> True)"
    and "\<And>w t H. d w (t @ [c]) c H = release h H"
  shows "scoped d {#h#} (guarded_unless_ret (emit c) p) G"
  by (rule scoped_guarded_unless_ret)
    (use assms in \<open>auto simp: release_def scoped_def cong: outcome.case_cong intro!: held_by_emit\<close>)

text \<open>A program whose gains are released by the guard around what follows.\<close>

lemma gains_bindp_release:
  assumes p: "gains d p (\<lambda>r L. case r of Ret x \<Rightarrow> L = R x | Exc e \<Rightarrow> G (Exc e) L | Abort \<Rightarrow> True)"
    and b: "\<And>x. scoped d (R x) (b x) G"
  shows "gains d (bindp p b) G"
  unfolding gains_def
proof
  fix H
  show "held_by d H (bindp p b) (\<lambda>r H'. r \<noteq> Abort \<longrightarrow> (\<exists>L. H' = H + L \<and> G r L))"
    by (rule held_by_bindp [OF gainsD [OF p]]) (auto intro: scopedD [OF b])
qed

text \<open>A handler, and the end of a \<open>noexcept\<close> function.\<close>

lemma scoped_catching:
  assumes p: "scoped d R p G1" and ret: "\<And>x L. G1 (Ret x) L \<Longrightarrow> G (Ret x) L"
    and none: "\<And>e L. G1 (Exc e) L \<Longrightarrow> h e = None \<Longrightarrow> G (Exc e) L"
    and some: "\<And>e L q. G1 (Exc e) L \<Longrightarrow> h e = Some q \<Longrightarrow> scoped d L q G"
  shows "scoped d R (catching p h) G"
  unfolding scoped_def held_by_def
proof (intro allI)
  fix H w t
  let ?c = "catching p h"
  from scopedD [OF p, of H] obtain new H' where p': "snd (p w t) = t @ new" "track d w t new (H + R) = Some H'"
    "fst (p w t) \<noteq> Abort \<longrightarrow> (\<exists>L. H' = H + L \<and> G1 (fst (p w t)) L)" by (rule held_byD [where w = w and t = t])
  show "\<exists>new H'. snd (?c w t) = t @ new \<and> track d w t new (H + R) = Some H' \<and>
    (fst (?c w t) \<noteq> Abort \<longrightarrow> (\<exists>L. H' = H + L \<and> G (fst (?c w t)) L))"
  proof (cases "\<exists>e q. fst (p w t) = Exc e \<and> h e = Some q")
    case True
    then obtain e q where e: "fst (p w t) = Exc e" "h e = Some q" by blast
    with p' obtain L where L: "H' = H + L" "G1 (Exc e) L" by auto
    from scopedD [OF some [OF L(2) e(2)], of H] obtain new' H'' where
      "snd (q w (t @ new)) = (t @ new) @ new'" "track d w (t @ new) new' (H + L) = Some H''"
      "fst (q w (t @ new)) \<noteq> Abort \<longrightarrow> (\<exists>L. H'' = H + L \<and> G (fst (q w (t @ new))) L)"
      by (rule held_byD [where w = w and t = "t @ new"])
    moreover have "?c w t = q w (t @ new)"
      using e p'(1) by (cases "p w t") (simp add: catching_def)
    ultimately show ?thesis using p'(2) L(1)
      by (intro exI [of _ "new @ new'"] exI [of _ H'']) (simp add: track_append)
  next
    case False
    then have "?c w t = p w t" by (cases "p w t") (auto simp: catching_def split: outcome.split option.split)
    with False p' ret none show ?thesis
      by (cases "fst (p w t)") (auto intro!: exI [of _ new])
  qed
qed

lemma scoped_noexcept:
  assumes "scoped d R p G1" and "\<And>x L. G1 (Ret x) L \<Longrightarrow> G (Ret x) L"
  shows "scoped d R (noexcept p) G"
proof -
  have "noexcept p = catching p (\<lambda>e. Some terminate)"
    by (intro ext) (auto simp: noexcept_def catching_def terminate_def split: prod.split outcome.split)
  then show ?thesis using scoped_catching [OF assms(1), of G "\<lambda>e. Some terminate"] assms(2)
    by (simp add: scoped_terminate)
qed

text \<open>A part whose calls acquire and release, where this depends on the calls alone.\<close>

lemma track_inside:
  assumes "\<And>w t v s c H. d w t (ev c) H = d' v s c H"
  shows "track d w t (map ev cs) H = track d' v s cs H"
proof (induction cs arbitrary: t s H)
  case (Cons c cs)
  have "track d w (t @ [ev c]) (map ev cs) = track d' v (s @ [c]) cs" by (rule ext) (rule Cons.IH)
  moreover have "d w (t @ [ev c]) (ev c) H = d' v (s @ [c]) c H" by (rule assms)
  ultimately show ?case by simp
qed simp

lemma scoped_inside:
  assumes p: "scoped d' R p G" and ev: "\<And>w t v s c H. d w t (ev c) H = d' v s c H"
  shows "scoped d R (inside view ev p) G"
  unfolding scoped_def held_by_def
proof (intro allI)
  fix H w t
  from scopedD [OF p, of H] obtain new H' where p': "snd (p (view w t) []) = new"
    "track d' (view w t) [] new (H + R) = Some H'"
    "fst (p (view w t) []) \<noteq> Abort \<longrightarrow> (\<exists>L. H' = H + L \<and> G (fst (p (view w t) [])) L)"
    by (rule held_byD [where w = "view w t" and t = "[]"]) auto
  have run: "inside view ev p w t = (fst (p (view w t) []), t @ map ev new)"
    using p'(1) by (cases "p (view w t) []") (simp add: inside_def)
  have "track d w t (map ev new) (H + R) = track d' (view w t) [] new (H + R)"
    by (rule track_inside) (rule ev)
  with p' show "\<exists>new H'. snd (inside view ev p w t) = t @ new \<and> track d w t new (H + R) = Some H' \<and>
    (fst (inside view ev p w t) \<noteq> Abort \<longrightarrow> (\<exists>L. H' = H + L \<and> G (fst (inside view ev p w t)) L))"
    unfolding run by auto
qed

lemma guarded_nothing: "guarded (ret ()) p = p"
  by (rule ext, rule ext) (auto simp: guarded_def finishing_def destroy_guard_def scope_guard_def
      noexcept_def ret_def split: prod.splits outcome.splits)

end
