(* ===== verification/Kms.thy ===== *)
theory Kms
  imports Io Resources
begin

text \<open>
  The helper process that reads the display planes (\<open>src/kms.cpp\<close>). Its calls to libdrm are
  events; the structures libdrm returns are the fields the helper reads, and \<open>None\<close> is a null
  pointer. A structure is named by the argument it was asked for with. The flag constants and
  the device names of libdrm are fields of the world. Logging is compiled out by
  \<open>kEnableLogging = false\<close>. The loop over requests has fuel, one unit for each request; a run
  whose fuel is used up is cut there.
\<close>

section \<open>What libdrm returns\<close>

record drm_plane =
  plane_id :: u32
  fb_id :: u32

record drm_fb =
  fb_width :: u32
  fb_height :: u32
  fb_pixel_format :: u32
  fb_modifier :: u64
  fb_handles :: "u32 \<times> u32 \<times> u32 \<times> u32"
  fb_pitch :: u32
  fb_offset :: u32

record drm_property =
  prop_name :: string
  prop_flags :: u32
  prop_enums :: "(u64 \<times> string) list"

record drm_flags =
  PROP_LEGACY_TYPE :: u32
  PROP_EXTENDED_TYPE :: u32
  PROP_SIGNED_RANGE :: u32
  PROP_RANGE :: u32
  PROP_ENUM :: u32

datatype cap = UNIVERSAL_PLANES | ATOMIC

datatype kms_call =
    IoEvent io_call
  | OpenDev string | Close int
  | GetVersion int | FreeVersion int
  | GetResources int | FreeResources int
  | SetClientCap int cap
  | GetPlaneResources int | FreePlaneResources int
  | GetPlane int u32 | FreePlane u32
  | GetFB2 int u32 | FreeFB2 u32
  | PrimeHandleToFD int u32 | CloseBufferHandle int u32
  | ObjectGetProperties int u32 | FreeObjectProperties u32
  | GetProperty int u32 | FreeProperty u32
  | GetConnectorCurrent int u32 | FreeConnector u32
  | SigAction

record kms_world =
  k_io :: "kms_call list \<Rightarrow> io_world"
  k_dev_name :: "nat \<Rightarrow> string option"
  k_flags :: drm_flags
  k_int :: "kms_call list \<Rightarrow> int"
  k_version :: "kms_call list \<Rightarrow> bool"
  k_resources :: "kms_call list \<Rightarrow> u32 list option"
  k_plane_resources :: "kms_call list \<Rightarrow> u32 list option"
  k_plane :: "kms_call list \<Rightarrow> drm_plane option"
  k_fb :: "kms_call list \<Rightarrow> drm_fb option"
  k_prime :: "kms_call list \<Rightarrow> int \<times> int"
  k_object_properties :: "kms_call list \<Rightarrow> (u32 \<times> u64) list option"
  k_property :: "kms_call list \<Rightarrow> drm_property option"
  k_connector :: "kms_call list \<Rightarrow> u32 list option"

type_synonym 'a kms_prog = "(kms_world, kms_call, 'a) prog"

definition io :: "'a io_prog \<Rightarrow> 'a kms_prog" where
  "io p = inside k_io IoEvent p"

section \<open>Finding the device\<close>

fun plane_has_fb :: "int \<Rightarrow> u32 list \<Rightarrow> bool kms_prog" where
  "plane_has_fb drm_fd [] = ret False"
| "plane_has_fb drm_fd (p # ps) = bindp (call k_plane (GetPlane drm_fd p)) (\<lambda>plane.
     case plane of
       None \<Rightarrow> plane_has_fb drm_fd ps
     | Some pl \<Rightarrow> bindp (guarded (emit (FreePlane p)) (ret (fb_id pl \<noteq> 0))) (\<lambda>found.
         if found then ret True else plane_has_fb drm_fd ps))"

definition try_planes :: "int \<Rightarrow> bool kms_prog" where
  "try_planes drm_fd =
     thenp (call k_int (SetClientCap drm_fd UNIVERSAL_PLANES))
     (bindp (call k_plane_resources (GetPlaneResources drm_fd)) (\<lambda>planes. case planes of
        None \<Rightarrow> ret False
      | Some ps \<Rightarrow> guarded (emit (FreePlaneResources drm_fd)) (plane_has_fb drm_fd ps)))"

definition try_resources :: "int \<Rightarrow> bool kms_prog" where
  "try_resources drm_fd =
     bindp (call k_resources (GetResources drm_fd)) (\<lambda>resources. case resources of
        None \<Rightarrow> ret False
      | Some _ \<Rightarrow> guarded (emit (FreeResources drm_fd)) (try_planes drm_fd))"

definition try_device :: "string \<Rightarrow> bool kms_prog" where
  "try_device path =
     bindp (call k_int (OpenDev path)) (\<lambda>drm_fd.
     if drm_fd < 0 then ret False
     else guarded (emit (Close drm_fd))
       (bindp (call k_version (GetVersion drm_fd)) (\<lambda>ver.
        if \<not> ver then ret False
        else guarded (emit (FreeVersion drm_fd)) (try_resources drm_fd))))"

definition max_devices :: nat where "max_devices = 10"

fun check_devices :: "nat list \<Rightarrow> string kms_prog" where
  "check_devices [] = throw (RuntimeError ''Failed to find a valid DRM device path'')"
| "check_devices (i # is) = bindp (\<lambda>w t. (Ret (k_dev_name w i), t)) (\<lambda>path. case path of
     None \<Rightarrow> throw (RuntimeError ''Failed to construct DRM device path'')
   | Some path \<Rightarrow> bindp (try_device path) (\<lambda>found. if found then ret path else check_devices is))"

definition get_drm_device_path :: "string kms_prog" where
  "get_drm_device_path = check_devices [0..<max_devices]"

section \<open>Connectors\<close>

definition list_property :: "int \<Rightarrow> u32 \<Rightarrow> unit kms_prog" where
  "list_property drm_fd p = bindp (call k_property (GetProperty drm_fd p)) (\<lambda>prop. case prop of
     None \<Rightarrow> ret ()
   | Some _ \<Rightarrow> guarded (emit (FreeProperty p)) (ret ()))"

definition list_connector :: "int \<Rightarrow> u32 \<Rightarrow> unit kms_prog" where
  "list_connector drm_fd c = bindp (call k_connector (GetConnectorCurrent drm_fd c)) (\<lambda>connector.
     case connector of
       None \<Rightarrow> ret ()
     | Some props \<Rightarrow> guarded (emit (FreeConnector c)) (for_each (list_property drm_fd) props))"

definition get_connectors :: "int \<Rightarrow> unit kms_prog" where
  "get_connectors drm_fd = bindp (call k_resources (GetResources drm_fd)) (\<lambda>resources.
     case resources of
       None \<Rightarrow> throw (RuntimeError ''drmModeGetResources failed'')
     | Some connectors \<Rightarrow>
         guarded (emit (FreeResources drm_fd)) (for_each (list_connector drm_fd) connectors))"

section \<open>Properties of a plane\<close>

text \<open>A 64-bit value converted to \<open>int\<close>.\<close>

definition to_int :: "u64 \<Rightarrow> int" where
  "to_int v = sint (ucast v :: u32)"

record position =
  pos_x :: int
  pos_y :: int

fun enum_is_cursor :: "u64 \<Rightarrow> (u64 \<times> string) list \<Rightarrow> bool" where
  "enum_is_cursor v [] = False"
| "enum_is_cursor v ((ev, name) # es) = (if ev = v \<and> name = ''Cursor'' then True else enum_is_cursor v es)"

definition apply_property ::
  "drm_flags \<Rightarrow> drm_property \<Rightarrow> u64 \<Rightarrow> position \<times> plane_descriptor \<Rightarrow> position \<times> plane_descriptor" where
  "apply_property fl prop v = (\<lambda>(pos, d).
     let type = prop_flags prop AND (PROP_LEGACY_TYPE fl OR PROP_EXTENDED_TYPE fl)
     in if type AND PROP_SIGNED_RANGE fl \<noteq> 0 \<and> prop_name prop = ''CRTC_X'' then (pos\<lparr>pos_x := to_int v\<rparr>, d)
        else if type AND PROP_SIGNED_RANGE fl \<noteq> 0 \<and> prop_name prop = ''CRTC_Y'' then (pos\<lparr>pos_y := to_int v\<rparr>, d)
        else if type AND PROP_RANGE fl \<noteq> 0 \<and> prop_name prop = ''SRC_X'' then (pos, d\<lparr>pd_x := to_int (drop_bit 16 v)\<rparr>)
        else if type AND PROP_RANGE fl \<noteq> 0 \<and> prop_name prop = ''SRC_Y'' then (pos, d\<lparr>pd_y := to_int (drop_bit 16 v)\<rparr>)
        else if type AND PROP_RANGE fl \<noteq> 0 \<and> prop_name prop = ''SRC_W'' then (pos, d\<lparr>pd_src_w := to_int (drop_bit 16 v)\<rparr>)
        else if type AND PROP_RANGE fl \<noteq> 0 \<and> prop_name prop = ''SRC_H'' then (pos, d\<lparr>pd_src_h := to_int (drop_bit 16 v)\<rparr>)
        else if type AND PROP_ENUM fl \<noteq> 0 \<and> prop_name prop = ''type'' then
          (pos, if enum_is_cursor v (prop_enums prop) then set_flag IS_CURSOR d else d)
        else (pos, d))"

fun read_properties ::
  "int \<Rightarrow> (u32 \<times> u64) list \<Rightarrow> position \<times> plane_descriptor \<Rightarrow> (position \<times> plane_descriptor) kms_prog" where
  "read_properties drm_fd [] s = ret s"
| "read_properties drm_fd ((p, v) # ps) s =
     bindp (call (\<lambda>w t. (k_flags w, k_property w t)) (GetProperty drm_fd p)) (\<lambda>(fl, prop). case prop of
       None \<Rightarrow> read_properties drm_fd ps s
     | Some pr \<Rightarrow> bindp (guarded (emit (FreeProperty p)) (ret (apply_property fl pr v s)))
                    (\<lambda>s'. read_properties drm_fd ps s'))"

text \<open>The position of a cursor is that of its controller, not that of its source.\<close>

definition cursor_position :: "position \<times> plane_descriptor \<Rightarrow> plane_descriptor" where
  "cursor_position = (\<lambda>(pos, d).
     if is_flag_set IS_CURSOR d then d\<lparr>pd_x := pos_x pos, pd_y := pos_y pos\<rparr> else d)"

definition get_plane_properties :: "int \<Rightarrow> u32 \<Rightarrow> plane_descriptor \<Rightarrow> plane_descriptor kms_prog" where
  "get_plane_properties drm_fd plane d =
     bindp (call k_object_properties (ObjectGetProperties drm_fd plane)) (\<lambda>props. case props of
       None \<Rightarrow> throw (RuntimeError ''drmModeObjectGetProperties failed'')
     | Some ps \<Rightarrow> guarded (emit (FreeObjectProperties plane))
         (bindp (read_properties drm_fd ps (\<lparr>pos_x = 0, pos_y = 0\<rparr>, d)) (\<lambda>s. ret (cursor_position s))))"

section \<open>Planes with a frame buffer\<close>

definition close_handles :: "int \<Rightarrow> drm_fb \<Rightarrow> unit kms_prog" where
  "close_handles drm_fd fb = (case fb_handles fb of (h0, h1, h2, h3) \<Rightarrow>
     for_each (\<lambda>h. if h = 0 then ret () else emit (CloseBufferHandle drm_fd h)) [h0, h1, h2, h3])"

definition fb_descriptor :: "drm_fb \<Rightarrow> int \<Rightarrow> plane_descriptor \<Rightarrow> plane_descriptor" where
  "fb_descriptor fb fb_fd d = d\<lparr>pd_fd := fb_fd, pd_width := fb_width fb, pd_height := fb_height fb,
     pd_pitch := fb_pitch fb, pd_offset := fb_offset fb, pd_pixel_format := fb_pixel_format fb,
     pd_modifier := fb_modifier fb\<rparr>"

definition add_descriptor :: "drm_response \<Rightarrow> plane_descriptor \<Rightarrow> drm_response" where
  "add_descriptor msg d = msg\<lparr>res_descriptors := (res_descriptors msg)[res_num_fds msg := d],
     res_num_fds := res_num_fds msg + 1\<rparr>"

definition export_fb :: "int \<Rightarrow> drm_plane \<Rightarrow> drm_fb \<Rightarrow> drm_response \<Rightarrow> drm_response kms_prog" where
  "export_fb drm_fd pl fb msg =
     bindp (call k_prime (PrimeHandleToFD drm_fd (fst (fb_handles fb)))) (\<lambda>(result, fb_fd).
     if result \<noteq> 0 \<or> fb_fd = -1 then throw (RuntimeError ''drmPrimeHandleToFD failed'')
     else guarded (close_handles drm_fd fb)
       (bindp (get_plane_properties drm_fd (plane_id pl)
                 (fb_descriptor fb fb_fd (res_descriptors msg ! res_num_fds msg)))
          (\<lambda>d. ret (add_descriptor msg d))))"

definition get_fb_of_plane :: "int \<Rightarrow> u32 \<Rightarrow> drm_response \<Rightarrow> drm_response kms_prog" where
  "get_fb_of_plane drm_fd p msg =
     bindp (call k_plane (GetPlane drm_fd p)) (\<lambda>plane.
     guarded (if plane = None then ret () else emit (FreePlane p))
     (case plane of
        None \<Rightarrow> ret msg
      | Some pl \<Rightarrow>
          if fb_id pl = 0 then ret msg
          else bindp (call k_fb (GetFB2 drm_fd (fb_id pl))) (\<lambda>fb.
            guarded (if fb = None then ret () else emit (FreeFB2 (fb_id pl)))
            (case fb of
               None \<Rightarrow> throw (RuntimeError ''drmModeGetFB2 failed'')
             | Some b \<Rightarrow> if fst (fb_handles b) = 0 then throw (RuntimeError ''drmModeGetFB2 failed'')
                          else export_fb drm_fd pl b msg))))"

fun get_fb_loop :: "int \<Rightarrow> u32 list \<Rightarrow> drm_response \<Rightarrow> drm_response kms_prog" where
  "get_fb_loop drm_fd [] msg = ret msg"
| "get_fb_loop drm_fd (p # ps) msg =
     (if res_num_fds msg < kMaxPlaneDescriptors
      then bindp (get_fb_of_plane drm_fd p msg) (get_fb_loop drm_fd ps)
      else ret msg)"

definition get_fb :: "int \<Rightarrow> drm_response kms_prog" where
  "get_fb drm_fd =
     bindp (call k_plane_resources (GetPlaneResources drm_fd)) (\<lambda>resources. case resources of
       None \<Rightarrow> throw (RuntimeError ''drmModeGetPlaneResources failed'')
     | Some ps \<Rightarrow> guarded (emit (FreePlaneResources drm_fd)) (get_fb_loop drm_fd ps empty_response))"

definition get_plane_descriptors :: "int \<Rightarrow> drm_response kms_prog" where
  "get_plane_descriptors drm_fd = get_fb drm_fd"

section \<open>The request loop\<close>

definition SIGINT :: int where "SIGINT = 2"
definition EINTR :: int where "EINTR = 4"

definition response_fds :: "drm_response \<Rightarrow> int list" where
  "response_fds r = map pd_fd (take (res_num_fds r) (res_descriptors r))"

text \<open>One request. The result says whether the loop goes on.\<close>

definition answer_request :: "int \<Rightarrow> int \<Rightarrow> bool kms_prog" where
  "answer_request drm_fd socket =
     bindp (get_plane_descriptors drm_fd) (\<lambda>response.
     guarded (for_each (\<lambda>fd. emit (Close fd)) (response_fds response))
     (bindp (io (drm_response_sender response kInfinite socket)) (\<lambda>send_result. case send_result of
        Inl e \<Rightarrow> if e = EINTR then ret False else throw (SystemError e)
      | Inr (n, _) \<Rightarrow> ret (\<not> n < sizeof_response))))"

definition serve_request :: "int \<Rightarrow> int \<Rightarrow> bool kms_prog" where
  "serve_request drm_fd socket =
     bindp (io (message_handler POLLIN kInfinite (receive_handler io_request) socket)) (\<lambda>receive_result.
     case receive_result of
       Inl e \<Rightarrow> if e = EINTR then ret False else throw (SystemError e)
     | Inr (n, req) \<Rightarrow>
         if n < sizeof_request then ret False
         else (case req of
            None \<Rightarrow> terminate
          | Some type \<Rightarrow>
              if type = kStop then ret False
              else if type \<noteq> kGetPlanes then ret True
              else answer_request drm_fd socket))"

fun serve :: "nat \<Rightarrow> int \<Rightarrow> int \<Rightarrow> unit kms_prog" where
  "serve 0 drm_fd socket = terminate"
| "serve (Suc fuel) drm_fd socket =
     bindp (serve_request drm_fd socket) (\<lambda>go_on. if go_on then serve fuel drm_fd socket else ret ())"

definition set_caps :: "int \<Rightarrow> unit kms_prog" where
  "set_caps drm_fd =
     bindp (call k_int (SetClientCap drm_fd UNIVERSAL_PLANES)) (\<lambda>r.
     if r \<noteq> 0 then throw (RuntimeError ''drmSetClientCap failed'')
     else bindp (call k_int (SetClientCap drm_fd ATOMIC)) (\<lambda>r.
     if r \<noteq> 0 then throw (RuntimeError ''drmSetClientCap failed'') else ret ()))"

definition app :: "nat \<Rightarrow> string \<Rightarrow> unit kms_prog" where
  "app fuel socket_path =
     thenp (io (block_signals [SIGINT]))
     (bindp get_drm_device_path (\<lambda>device_path.
      bindp (call k_int (OpenDev device_path)) (\<lambda>drm_fd.
      if drm_fd < 0 then throw (RuntimeError ''Failed to open DRM device'')
      else guarded (emit (Close drm_fd))
        (thenp (set_caps drm_fd)
        (thenp (emit SigAction)
        (bindp (io (socket_connect socket_path)) (\<lambda>socket.
          guarded (emit (IoEvent (CloseFd (sock_fd socket)))) (serve fuel drm_fd (sock_fd socket)))))))))"

text \<open>\<open>main\<close>, with the arguments after the program name.\<close>

definition kms_main :: "nat \<Rightarrow> string list \<Rightarrow> int kms_prog" where
  "kms_main fuel as = catching
     (case as of
        [] \<Rightarrow> throw (RuntimeError ''Missing argument: socket path'')
      | a # _ \<Rightarrow> thenp (app fuel a) (ret 0))
     (\<lambda>e. if is_std_exception e then Some (ret 1) else None)"

section \<open>What the helper holds\<close>

text \<open>
  File descriptors and the structures of libdrm. Buffer handles are left out: a frame buffer may
  name the same handle several times. The socket is an object of its own.
\<close>

datatype kms_handle =
    Fd int | Version int | Resources int | PlaneResources int | Plane u32 | FB u32
  | ObjectProperties u32 | Property u32 | Connector u32

fun kms_delta :: "(kms_world, kms_call, kms_handle) delta" where
  "kms_delta w t (OpenDev p) = acquire (k_int w t \<ge> 0) (Fd (k_int w t))"
| "kms_delta w t (PrimeHandleToFD fd h) = acquire (fst (k_prime w t) = 0 \<and> snd (k_prime w t) \<noteq> -1) (Fd (snd (k_prime w t)))"
| "kms_delta w t (Close fd) = release (Fd fd)"
| "kms_delta w t (GetVersion fd) = acquire (k_version w t) (Version fd)"
| "kms_delta w t (FreeVersion fd) = release (Version fd)"
| "kms_delta w t (GetResources fd) = acquire (k_resources w t \<noteq> None) (Resources fd)"
| "kms_delta w t (FreeResources fd) = release (Resources fd)"
| "kms_delta w t (GetPlaneResources fd) = acquire (k_plane_resources w t \<noteq> None) (PlaneResources fd)"
| "kms_delta w t (FreePlaneResources fd) = release (PlaneResources fd)"
| "kms_delta w t (GetPlane fd p) = acquire (k_plane w t \<noteq> None) (Plane p)"
| "kms_delta w t (FreePlane p) = release (Plane p)"
| "kms_delta w t (GetFB2 fd b) = acquire (k_fb w t \<noteq> None) (FB b)"
| "kms_delta w t (FreeFB2 b) = release (FB b)"
| "kms_delta w t (ObjectGetProperties fd p) = acquire (k_object_properties w t \<noteq> None) (ObjectProperties p)"
| "kms_delta w t (FreeObjectProperties p) = release (ObjectProperties p)"
| "kms_delta w t (GetProperty fd p) = acquire (k_property w t \<noteq> None) (Property p)"
| "kms_delta w t (FreeProperty p) = release (Property p)"
| "kms_delta w t (GetConnectorCurrent fd c) = acquire (k_connector w t \<noteq> None) (Connector c)"
| "kms_delta w t (FreeConnector c) = release (Connector c)"
| "kms_delta w t _ = Some"

lemma io_neutral: "(\<And>r. G r {#}) \<Longrightarrow> gains kms_delta (io p) G"
  unfolding io_def by (rule gains_inside) auto

text \<open>A call whose answer is a pointer: what follows is guarded when it is not null.\<close>

lemma kms_scope:
  assumes "\<And>w t. kms_delta w (t @ [c]) c = acquire (g w (t @ [c]) \<noteq> None) r"
    and "gains kms_delta n G" and "\<And>x. scoped kms_delta {#r#} (b x) G"
  shows "gains kms_delta (bindp (call g c) (\<lambda>o'. case o' of None \<Rightarrow> n | Some x \<Rightarrow> b x)) G"
  by (rule gains_acquire [where b = "\<lambda>x. x \<noteq> None" and r = "\<lambda>_. r"])
    (use assms in \<open>auto split: option.split\<close>)

lemmas kms_rules = gains_ret gains_throw gains_terminate kms_scope scoped_guarded scoped_neutral_bindp

lemma plane_has_fb_neutral: "neutral kms_delta (plane_has_fb fd ps)"
  by (induction ps) (auto intro!: kms_rules)

lemma try_planes_neutral: "neutral kms_delta (try_planes fd)"
  unfolding try_planes_def
  by (intro gains_call_bindp kms_rules plane_has_fb_neutral) auto

lemma try_resources_neutral: "neutral kms_delta (try_resources fd)"
  unfolding try_resources_def by (intro kms_rules try_planes_neutral) auto

lemma try_version_neutral:
  "neutral kms_delta (bindp (call k_version (GetVersion fd)) (\<lambda>ver.
     if \<not> ver then ret False else guarded (emit (FreeVersion fd)) (try_resources fd)))"
  by (rule gains_acquire [where b = "\<lambda>v. v" and r = "\<lambda>_. Version fd"])
    (auto intro!: kms_rules try_resources_neutral)

lemma try_device_neutral: "neutral kms_delta (try_device path)"
  unfolding try_device_def
  by (rule gains_acquire [where b = "\<lambda>fd. 0 \<le> fd" and r = Fd])
    (auto intro!: kms_rules try_version_neutral)

lemma kms_constant_neutral: "(\<And>x. gains d (f x) G) \<Longrightarrow> gains d (bindp (\<lambda>w t. (Ret (g w), t)) f) G"
  unfolding gains_def
  by (intro allI held_by_bindp [where R = "\<lambda>r H'. \<exists>x. r = Ret x \<and> H' = _"]) (auto simp: held_by_def)

lemma get_drm_device_path_neutral: "neutral kms_delta get_drm_device_path"
proof -
  have "neutral kms_delta (check_devices is)" for "is"
    by (induction "is")
      (auto intro!: gains_throw kms_constant_neutral neutral_bindp try_device_neutral gains_ret split: option.split)
  then show ?thesis by (simp add: get_drm_device_path_def)
qed

lemma get_connectors_neutral: "neutral kms_delta (get_connectors fd)"
  unfolding get_connectors_def list_connector_def list_property_def
  by (intro kms_rules neutral_for_each) auto

section \<open>The descriptors of a response\<close>

definition only_fds :: "kms_handle multiset \<Rightarrow> bool" where
  "only_fds L \<longleftrightarrow> (\<forall>h \<in># L. \<exists>fd. h = Fd fd)"

definition response_handles :: "drm_response \<Rightarrow> kms_handle multiset" where
  "response_handles r = image_mset Fd (mset (response_fds r))"

definition response_wf :: "drm_response \<Rightarrow> bool" where
  "response_wf r \<longleftrightarrow> length (res_descriptors r) = kMaxPlaneDescriptors \<and> res_num_fds r \<le> kMaxPlaneDescriptors"

lemma only_fds_simps [simp]:
  "only_fds {#}" "only_fds (add_mset h L) \<longleftrightarrow> (\<exists>fd. h = Fd fd) \<and> only_fds L"
  "only_fds (L + M) \<longleftrightarrow> only_fds L \<and> only_fds M" "only_fds (response_handles r)"
  by (auto simp: only_fds_def response_handles_def)

lemma empty_response_handles [simp]: "response_handles empty_response = {#}" "response_wf empty_response"
  by (simp_all add: response_handles_def response_fds_def empty_response_def response_wf_def)

lemma add_descriptor_handles:
  assumes "response_wf r" "res_num_fds r < kMaxPlaneDescriptors"
  shows "response_wf (add_descriptor r d) \<and>
    response_handles (add_descriptor r d) = add_mset (Fd (pd_fd d)) (response_handles r)"
  using assms
  by (simp add: response_wf_def response_handles_def response_fds_def add_descriptor_def take_Suc_conv_app_nth)

text \<open>What an export adds: the new descriptors of the response, or on failure descriptors only.\<close>

definition exports :: "drm_response \<Rightarrow> drm_response outcome \<Rightarrow> kms_handle multiset \<Rightarrow> bool" where
  "exports msg r L =
     (case r of
        Ret msg' \<Rightarrow> response_wf msg' \<and> response_handles msg' = response_handles msg + L
      | Exc e \<Rightarrow> only_fds L
      | Abort \<Rightarrow> True)"

lemma exports_Ret_only_fds:
  assumes "exports msg (Ret msg') L"
  shows "only_fds L"
proof -
  from assms have "response_handles msg + L = response_handles msg'" by (simp add: exports_def)
  then have "only_fds (response_handles msg + L)" by (simp only: only_fds_simps(4))
  then show ?thesis by simp
qed

lemma apply_property_fd: "pd_fd (snd (apply_property fl pr v s)) = pd_fd (snd s)"
  by (cases s) (simp add: apply_property_def Let_def set_flag_def)

lemma read_properties_fd:
  "gains kms_delta (read_properties fd ps s) (\<lambda>r L. L = {#} \<and> (\<forall>s'. r = Ret s' \<longrightarrow> pd_fd (snd s') = pd_fd (snd s)))"
proof (induction ps arbitrary: s)
  case Nil
  show ?case by (auto intro: gains_ret)
next
  case (Cons pv ps)
  obtain p v where pv: "pv = (p, v)" by (cases pv)
  have step: "scoped kms_delta {#Property p#} (bindp (guarded (emit (FreeProperty p)) (ret (apply_property fl pr v s)))
      (read_properties fd ps)) (\<lambda>r L. L = {#} \<and> (\<forall>s'. r = Ret s' \<longrightarrow> pd_fd (snd s') = pd_fd (snd s)))" for fl pr
    by (rule scoped_bindp [where ?G1.0 = "\<lambda>r L. r = Ret (apply_property fl pr v s) \<and> L = {#}"])
      (auto intro!: scoped_guarded gains_ret gains_weaken [OF Cons.IH] simp: apply_property_fd)
  show ?case unfolding pv read_properties.simps
    by (rule gains_acquire [where b = "\<lambda>x. snd x \<noteq> None" and r = "\<lambda>_. Property p"])
      (use step Cons.IH [of s] in \<open>auto split: option.split\<close>)
qed

lemma get_plane_properties_fd:
  "gains kms_delta (get_plane_properties fd p d) (\<lambda>r L. L = {#} \<and> (\<forall>d'. r = Ret d' \<longrightarrow> pd_fd d' = pd_fd d))"
proof -
  have "gains kms_delta (bindp (read_properties fd ps (\<lparr>pos_x = 0, pos_y = 0\<rparr>, d)) (\<lambda>s. ret (cursor_position s)))
      (\<lambda>r L. L = {#} \<and> (\<forall>d'. r = Ret d' \<longrightarrow> pd_fd d' = pd_fd d))" for ps
    by (rule gains_bindp [OF read_properties_fd]) (auto intro!: gains_ret simp: cursor_position_def)
  then show ?thesis unfolding get_plane_properties_def by (intro kms_rules) auto
qed

lemma close_handles_neutral:
  "held_by kms_delta H (close_handles fd fb) (\<lambda>u H'. u = Ret () \<and> H' = H)"
  by (auto simp: close_handles_def split: prod.split
      intro!: held_by_bindp [where R = "\<lambda>u H'. u = Ret () \<and> H' = H"] held_by_ret held_by_emit)

lemma export_fb_exports:
  assumes "response_wf msg" "res_num_fds msg < kMaxPlaneDescriptors"
  shows "gains kms_delta (export_fb fd pl fb msg) (exports msg)"
proof -
  have d: "pd_fd (fb_descriptor fb f d) = f" for f d by (simp add: fb_descriptor_def)
  have body: "gains kms_delta (bindp (get_plane_properties fd (plane_id pl) (fb_descriptor fb f d)) (\<lambda>d. ret (add_descriptor msg d)))
      (\<lambda>r L. exports msg r ({#Fd f#} + L))" for f d
    by (rule gains_bindp [OF get_plane_properties_fd])
      (auto intro!: gains_ret simp: exports_def d add_descriptor_handles [OF assms])
  show ?thesis unfolding export_fb_def
    by (rule gains_acquire [where b = "\<lambda>x. fst x = 0 \<and> snd x \<noteq> -1" and r = "\<lambda>x. Fd (snd x)"])
      (use body in \<open>auto intro!: gains_throw scoped_keep scoped_guarded_all [where R = "{#}", unfolded scoped_nothing]
          simp: exports_def close_handles_neutral\<close>)
qed

lemma get_fb_of_plane_exports:
  assumes "response_wf msg" "res_num_fds msg < kMaxPlaneDescriptors"
  shows "gains kms_delta (get_fb_of_plane fd p msg) (exports msg)"
proof -
  have none: "exports msg (Ret msg) {#}" "exports msg (Exc e) {#}" for e
    using assms by (simp_all add: exports_def)
  have fb: "gains kms_delta (bindp (call k_fb (GetFB2 fd (fb_id pl))) (\<lambda>fb.
       guarded (if fb = None then ret () else emit (FreeFB2 (fb_id pl)))
       (case fb of None \<Rightarrow> throw (RuntimeError ''drmModeGetFB2 failed'')
        | Some b \<Rightarrow> if fst (fb_handles b) = 0 then throw (RuntimeError ''drmModeGetFB2 failed'')
                    else export_fb fd pl b msg))) (exports msg)" for pl
    by (rule gains_acquire [where b = "\<lambda>x. x \<noteq> None" and r = "\<lambda>_. FB (fb_id pl)"])
      (auto intro!: kms_rules export_fb_exports [OF assms] simp: none guarded_nothing)
  show ?thesis unfolding get_fb_of_plane_def
    by (rule gains_acquire [where b = "\<lambda>x. x \<noteq> None" and r = "\<lambda>_. Plane p"])
      (use fb in \<open>auto intro!: kms_rules simp: none guarded_nothing\<close>)
qed

lemma get_fb_loop_exports:
  "response_wf msg \<Longrightarrow> gains kms_delta (get_fb_loop fd ps msg) (exports msg)"
proof (induction ps arbitrary: msg)
  case Nil
  then show ?case by (auto intro: gains_ret simp: exports_def)
next
  case (Cons p ps)
  show ?case
  proof (cases "res_num_fds msg < kMaxPlaneDescriptors")
    case True
    have next_exports: "gains kms_delta (get_fb_loop fd ps msg') (\<lambda>r L'. exports msg r (L + L'))"
      if "exports msg (Ret msg') L" for msg' L
    proof (rule gains_weaken [OF Cons.IH])
      show "response_wf msg'" using that by (simp add: exports_def)
      show "exports msg r (L + L')" if "exports msg' r L'" for r L'
        using that \<open>exports msg (Ret msg') L\<close> exports_Ret_only_fds [of msg msg' L]
        by (auto simp: exports_def add.assoc split: outcome.splits)
    qed
    then have "gains kms_delta (bindp (get_fb_of_plane fd p msg) (get_fb_loop fd ps)) (exports msg)"
      by (intro gains_bindp [OF get_fb_of_plane_exports [OF Cons.prems True]] next_exports) (simp_all add: exports_def)
    then show ?thesis using True by simp
  qed (use Cons.prems in \<open>auto intro: gains_ret simp: exports_def\<close>)
qed

lemma get_plane_descriptors_exports: "gains kms_delta (get_plane_descriptors fd) (exports empty_response)"
  unfolding get_plane_descriptors_def get_fb_def
  by (intro kms_rules get_fb_loop_exports) (auto simp: exports_def)

text \<open>
  Reading the planes. However libdrm answers, every structure it hands out is freed exactly
  once, on return and on every exception. On return the helper holds one descriptor for each of
  the at most eight planes of the response and nothing else; on an exception it holds at most
  descriptors.
\<close>

lemma plane_descriptors_exported:
  "\<exists>new L. snd (get_plane_descriptors fd w t) = t @ new \<and> track kms_delta w t new {#} = Some L \<and>
    (case fst (get_plane_descriptors fd w t) of
       Ret msg \<Rightarrow> L = image_mset Fd (mset (response_fds msg)) \<and> length (response_fds msg) \<le> kMaxPlaneDescriptors
     | Exc e \<Rightarrow> only_fds L
     | Abort \<Rightarrow> True)"
proof -
  from gains_run [OF get_plane_descriptors_exports, of fd w t] obtain new L where
    "snd (get_plane_descriptors fd w t) = t @ new" "track kms_delta w t new {#} = Some L"
    "fst (get_plane_descriptors fd w t) \<noteq> Abort \<Longrightarrow> exports empty_response (fst (get_plane_descriptors fd w t)) L"
    by blast
  moreover have "length (response_fds msg) \<le> kMaxPlaneDescriptors" if "response_wf msg" for msg
    using that by (simp add: response_wf_def response_fds_def)
  ultimately show ?thesis
    by (intro exI [of _ new] exI [of _ L])
      (auto simp: exports_def response_handles_def [of "_ :: drm_response", symmetric] split: outcome.splits)
qed

section \<open>The whole helper\<close>

text \<open>What a part of the loop may leave: nothing, or descriptors when it throws.\<close>

definition leaks_only_fds :: "'a outcome \<Rightarrow> kms_handle multiset \<Rightarrow> bool" where
  "leaks_only_fds r L = (case r of Ret _ \<Rightarrow> L = {#} | Exc _ \<Rightarrow> only_fds L | Abort \<Rightarrow> True)"

lemma close_fds_releases:
  "held_by kms_delta (H + image_mset Fd (mset fds)) (for_each (\<lambda>fd. emit (Close fd)) fds)
    (\<lambda>u H'. u = Ret () \<and> H' = H)"
proof (induction fds)
  case (Cons fd fds)
  have "held_by kms_delta (H + image_mset Fd (mset (fd # fds))) (emit (Close fd))
      (\<lambda>u H'. u = Ret () \<and> H' = H + image_mset Fd (mset fds))"
    by (rule held_by_emit [where H' = "H + image_mset Fd (mset fds)"]) (auto simp: release_def)
  then show ?case unfolding for_each.simps by (rule held_by_bindp) (use Cons.IH in auto)
qed (auto intro: held_by_ret)

lemma answer_request_leaks: "gains kms_delta (answer_request fd s) leaks_only_fds"
  unfolding answer_request_def
proof (rule gains_bindp_release [where R = response_handles])
  show "gains kms_delta (get_plane_descriptors fd)
      (\<lambda>r L. case r of Ret x \<Rightarrow> L = response_handles x | Exc e \<Rightarrow> leaks_only_fds (Exc e) L | Abort \<Rightarrow> True)"
    by (rule gains_weaken [OF get_plane_descriptors_exports])
      (auto simp: exports_def leaks_only_fds_def split: outcome.splits)
  show "scoped kms_delta (response_handles x) (guarded (for_each (\<lambda>fd. emit (Close fd)) (response_fds x))
      (bindp (io (drm_response_sender x kInfinite s)) (\<lambda>send_result. case send_result of
          Inl e \<Rightarrow> if e = EINTR then ret False else throw (SystemError e)
        | Inr (n, _) \<Rightarrow> ret (\<not> n < sizeof_response)))) leaks_only_fds" for x
    unfolding response_handles_def
    by (intro scoped_guarded_all close_fds_releases neutral_bindp io_neutral)
      (auto split: sum.split intro!: gains_ret gains_throw simp: leaks_only_fds_def)
qed

lemma serve_request_leaks: "gains kms_delta (serve_request fd s) leaks_only_fds"
  unfolding serve_request_def
  by (intro neutral_bindp io_neutral)
    (auto split: sum.split option.split intro!: gains_ret gains_throw gains_terminate answer_request_leaks
      simp: leaks_only_fds_def)

lemma serve_leaks: "gains kms_delta (serve fuel fd s) leaks_only_fds"
proof (induction fuel)
  case (Suc fuel)
  show ?case unfolding serve.simps
    by (rule gains_bindp [OF serve_request_leaks])
      (auto simp: leaks_only_fds_def intro!: gains_ret gains_weaken [OF Suc.IH])
qed (simp add: gains_terminate)

lemma set_caps_neutral: "neutral kms_delta (set_caps fd)"
  unfolding set_caps_def by (auto intro!: gains_call_bindp gains_ret gains_throw)

lemma app_leaks: "gains kms_delta (app fuel path) leaks_only_fds"
proof -
  have inner: "gains kms_delta (guarded (emit (IoEvent (CloseFd (sock_fd s)))) (serve fuel fd (sock_fd s)))
      leaks_only_fds" for s fd
    by (rule scoped_guarded_all [OF serve_leaks, of "{#}", unfolded scoped_nothing])
      (auto intro!: held_by_emit)
  have opened: "gains kms_delta (bindp (call k_int (OpenDev p)) (\<lambda>drm_fd.
      if drm_fd < 0 then throw (RuntimeError ''Failed to open DRM device'')
      else guarded (emit (Close drm_fd))
        (thenp (set_caps drm_fd) (thenp (emit SigAction)
        (bindp (io (socket_connect path)) (\<lambda>socket.
          guarded (emit (IoEvent (CloseFd (sock_fd socket)))) (serve fuel drm_fd (sock_fd socket)))))))) leaks_only_fds" for p
    by (rule gains_acquire [where b = "\<lambda>fd. 0 \<le> fd" and r = Fd])
      (auto intro!: kms_rules neutral_bindp set_caps_neutral gains_emit io_neutral inner simp: leaks_only_fds_def)
  show ?thesis unfolding app_def
    by (intro neutral_bindp [OF io_neutral] neutral_bindp [OF get_drm_device_path_neutral] opened)
      (auto simp: leaks_only_fds_def)
qed

lemma catching_all_run:
  "catching p (\<lambda>e. if c e then Some (ret x) else None) w t =
     (case fst (p w t) of Exc e \<Rightarrow> if c e then Ret x else Exc e | r \<Rightarrow> r, snd (p w t))"
  by (cases "p w t") (auto simp: catching_def ret_run split: outcome.splits)

text \<open>
  (C14) What the helper leaves behind. However the kernel and libdrm answer and whatever is
  requested, nothing is released that is not held. When the helper ends with success it has
  closed the device and every exported descriptor and freed every structure; when it ends with
  failure only descriptors can be left.
\<close>

theorem helper_releases_all:
  "\<exists>new L. snd (kms_main fuel as w t) = t @ new \<and> track kms_delta w t new {#} = Some L \<and>
    (case fst (kms_main fuel as w t) of
       Ret code \<Rightarrow> if code = 0 then L = {#} else only_fds L
     | Exc e \<Rightarrow> only_fds L
     | Abort \<Rightarrow> True)"
proof -
  define p :: "int kms_prog" where "p = (case as of
        [] \<Rightarrow> throw (RuntimeError ''Missing argument: socket path'')
      | a # _ \<Rightarrow> thenp (app fuel a) (ret 0))"
  have "gains kms_delta p (\<lambda>r L. leaks_only_fds r L \<and> (\<forall>x. r = Ret x \<longrightarrow> x = 0))"
    unfolding p_def
    by (auto split: list.split intro!: gains_throw gains_bindp [OF app_leaks] gains_ret simp: leaks_only_fds_def)
  from gains_run [OF this, of w t] obtain new L where
    "snd (p w t) = t @ new" "track kms_delta w t new {#} = Some L"
    "fst (p w t) \<noteq> Abort \<Longrightarrow> leaks_only_fds (fst (p w t)) L \<and> (\<forall>x. fst (p w t) = Ret x \<longrightarrow> x = 0)" by blast
  moreover have "kms_main fuel as w t =
      (case fst (p w t) of Exc e \<Rightarrow> if is_std_exception e then Ret 1 else Exc e | r \<Rightarrow> r, snd (p w t))"
    unfolding kms_main_def p_def by (rule catching_all_run)
  ultimately show ?thesis by (auto simp: leaks_only_fds_def split: outcome.splits)
qed

text \<open>
  Descriptors are left when a later plane fails: the ones exported before it are not closed.
\<close>

definition leak_world :: kms_world where
  "leak_world = \<lparr>k_io = (\<lambda>_. demo_io_world 0), k_dev_name = (\<lambda>_. Some ''card''),
     k_flags = \<lparr>PROP_LEGACY_TYPE = 58, PROP_EXTENDED_TYPE = 65472, PROP_SIGNED_RANGE = 128, PROP_RANGE = 2, PROP_ENUM = 8\<rparr>,
     k_int = (\<lambda>_. 3), k_version = (\<lambda>_. True), k_resources = (\<lambda>_. Some []), k_plane_resources = (\<lambda>_. Some [1, 2]),
     k_plane = (\<lambda>t. case last t of GetPlane _ p \<Rightarrow> Some \<lparr>plane_id = p, fb_id = p\<rparr> | _ \<Rightarrow> None),
     k_fb = (\<lambda>t. case last t of GetFB2 _ b \<Rightarrow> if b = 1 then Some \<lparr>fb_width = 1, fb_height = 1, fb_pixel_format = 0,
        fb_modifier = 0, fb_handles = (5, 0, 0, 0), fb_pitch = 4, fb_offset = 0\<rparr> else None | _ \<Rightarrow> None),
     k_prime = (\<lambda>_. (0, 7)), k_object_properties = (\<lambda>_. Some []), k_property = (\<lambda>_. None), k_connector = (\<lambda>_. None)\<rparr>"

lemma descriptors_leak:
  "fst (get_plane_descriptors 3 leak_world []) = Exc (RuntimeError ''drmModeGetFB2 failed'')"
  "track kms_delta leak_world [] (snd (get_plane_descriptors 3 leak_world [])) {#} = Some {#Fd 7#}"
  by code_simp+

section \<open>The helper stops\<close>

lemma io_safe:
  assumes "\<And>v. safe v p G"
  shows "safe w (io p) G"
  unfolding safe_def
proof
  fix t
  show "well_ended G (fst (io p w t))"
    using safeD [OF assms, of "k_io w t" "[]"] by (auto simp: io_def inside_def split: prod.splits)
qed

lemma plane_has_fb_safe: "safe w (plane_has_fb fd ps) always"
  by (induction ps)
    (auto intro!: safe_rules safe_bindp [where ?G1.0 = always] safe_guarded simp: fst_emit split: option.split)

lemma try_device_safe: "safe w (try_device path) always"
  unfolding try_device_def try_resources_def try_planes_def
  by (auto intro!: safe_rules safe_guarded plane_has_fb_safe simp: fst_emit split: option.split)

lemma get_drm_device_path_safe: "safe w get_drm_device_path always"
proof -
  have const: "safe w (\<lambda>w t. (Ret (g w), t)) always" for g :: "kms_world \<Rightarrow> string option"
    by (simp add: safe_def)
  have "safe w (check_devices is) always" for "is"
    by (induction "is")
      (auto intro!: safe_rules safe_bindp [OF const] safe_bindp [OF try_device_safe] split: option.split)
  then show ?thesis by (simp add: get_drm_device_path_def)
qed

lemma get_plane_properties_safe: "safe w (get_plane_properties fd p d) always"
proof -
  have "safe w (read_properties fd ps s) always" for ps s
    by (induction ps arbitrary: s)
      (auto intro!: safe_rules safe_bindp [where ?G1.0 = always] safe_guarded simp: fst_emit split: option.split)
  then show ?thesis unfolding get_plane_properties_def
    by (auto intro!: safe_rules safe_guarded safe_bindp [where ?G1.0 = always] simp: fst_emit split: option.split)
qed

lemma close_handles_Ret: "fst (close_handles fd fb w t) = Ret ()"
  unfolding close_handles_def by (auto split: prod.split simp: bindp_run ret_run emit_run)

lemma export_fb_safe:
  assumes "response_wf msg" "res_num_fds msg < kMaxPlaneDescriptors"
  shows "safe w (export_fb fd pl fb msg) response_wf"
  unfolding export_fb_def
  by (auto intro!: safe_rules safe_guarded safe_bindp [OF get_plane_properties_safe] close_handles_Ret
      simp: add_descriptor_handles [OF assms])

lemma get_fb_of_plane_safe:
  assumes "response_wf msg" "res_num_fds msg < kMaxPlaneDescriptors"
  shows "safe w (get_fb_of_plane fd p msg) response_wf"
  unfolding get_fb_of_plane_def
  by (auto intro!: safe_rules safe_guarded export_fb_safe [OF assms] simp: assms(1) fst_emit ret_run split: option.split)

lemma get_plane_descriptors_safe: "safe w (get_plane_descriptors fd) response_wf"
proof -
  have "response_wf msg \<Longrightarrow> safe w (get_fb_loop fd ps msg) response_wf" for ps msg
    by (induction ps arbitrary: msg) (auto intro!: safe_ret safe_bindp [OF get_fb_of_plane_safe])
  then show ?thesis unfolding get_plane_descriptors_def get_fb_def
    by (auto intro!: safe_rules safe_guarded simp: fst_emit split: option.split)
qed

text \<open>The contract of the sender holds for every response that was read.\<close>

lemma sender_safe: "response_wf r \<Longrightarrow> safe w (drm_response_sender r ms s) always"
  unfolding drm_response_sender_def message_handler_def response_send_handler_def
  by (auto intro!: safe_rules safe_bindp [where ?G1.0 = always] simp: sc_expect_def response_wf_def)

lemma answer_request_safe: "safe w (answer_request fd s) always"
  unfolding answer_request_def
  by (auto intro!: safe_rules safe_bindp [OF get_plane_descriptors_safe] safe_guarded fst_for_each_Ret
      safe_bindp [where ?G1.0 = always] io_safe sender_safe simp: fst_emit split: sum.split)

text \<open>Requests received so far, and the answers to a receive that end the loop.\<close>

fun is_receive :: "kms_call \<Rightarrow> bool" where
  "is_receive (IoEvent (Poll s POLLIN ts)) = True"
| "is_receive _ = False"

definition receives :: "kms_call list \<Rightarrow> nat" where
  "receives t = length (filter is_receive t)"

definition receive :: "int \<Rightarrow> (int, nat \<times> u32 option) result kms_prog" where
  "receive socket = io (message_handler POLLIN kInfinite (receive_handler io_request) socket)"

fun ends_loop :: "(int, nat \<times> u32 option) result outcome \<Rightarrow> bool" where
  "ends_loop (Ret (Inl e)) = True"
| "ends_loop (Ret (Inr (n, req))) = (n < sizeof_request \<or> req = Some kStop)"
| "ends_loop _ = False"

lemma receive_safe: "safe w (receive s) (\<lambda>r. \<forall>n. r = Inr (n, None) \<longrightarrow> n = 0)"
  unfolding receive_def message_handler_def receive_handler_def
  by (intro io_safe) (auto intro!: safe_rules safe_bindp [where ?G1.0 = always] split: prod.split)

lemma serve_request_safe: "safe w (serve_request fd s) always"
  unfolding serve_request_def receive_def [symmetric]
  by (auto intro!: safe_bindp [OF receive_safe] safe_rules answer_request_safe
      simp: sizeof_request_def split: sum.split option.split)

lemma receive_counts: "receives (snd (receive s w t)) = Suc (receives t)"
  unfolding receive_def io_def inside_def message_handler_def receive_handler_def
  by (auto simp: bindp_call_run bindp_run prog_run receives_def split: prod.splits if_splits)

text \<open>The history only grows.\<close>

lemma history_grows: "gains kms_delta p G \<Longrightarrow> receives t \<le> receives (snd (p w t))"
  by (rule gains_run [of kms_delta p G w t]) (auto simp: receives_def)

lemma serve_request_counts: "Suc (receives t) \<le> receives (snd (serve_request fd s w t))"
proof -
  have "receives t' \<le> receives (snd (answer_request fd s w t'))" for t'
    by (rule history_grows [OF answer_request_leaks])
  then show ?thesis
    using receive_counts [of s w t]
    by (auto simp: serve_request_def receive_def [symmetric] bindp_run prog_run split: outcome.split sum.split option.split)
      (metis Suc_leD le_refl)+
qed

lemma serve_request_ends:
  assumes "ends_loop (fst (receive s w t))"
  shows "fst (serve_request fd s w t) = Ret False \<or> (\<exists>e. fst (serve_request fd s w t) = Exc e)"
  using assms
  by (cases "fst (receive s w t)" rule: ends_loop.cases)
    (auto simp: serve_request_def receive_def [symmetric] bindp_run prog_run split: option.split)

lemma serve_ends:
  assumes "\<And>t. n \<le> receives t \<Longrightarrow> ends_loop (fst (receive s w t))"
    and "n \<le> receives t + k"
  shows "well_ended always (fst (serve (Suc k) fd s w t))"
  using assms(2)
proof (induction k arbitrary: t)
  case 0
  have "well_ended always (fst (serve_request fd s w t))" by (rule safeD [OF serve_request_safe])
  with 0 serve_request_ends [of s w t fd] assms(1) show ?case
    by (auto simp: bindp_run prog_run split: outcome.splits)
next
  case (Suc k)
  have "n \<le> receives (snd (serve_request fd s w t)) + k"
    using serve_request_counts [of t fd s w] Suc.prems by simp
  moreover have "well_ended always (fst (serve_request fd s w t))" by (rule safeD [OF serve_request_safe])
  ultimately show ?case using Suc.IH
    unfolding serve.simps(2) [of "Suc k"] by (auto simp: bindp_run prog_run split: outcome.split)
qed

lemma socket_connect_safe: "safe w (socket_connect path) always"
  unfolding socket_connect_def create_socket_def Let_def
  by (auto intro!: safe_rules safe_guarded_unless_ret simp: fst_emit)

lemma block_signals_safe: "safe w (block_signals sigs) always"
proof -
  have "safe w (add_signals b ss) always" for b ss
    by (induction b ss rule: add_signals.induct) (auto intro!: safe_rules)
  then show ?thesis unfolding block_signals_def
    by (auto intro!: safe_rules safe_bindp [where ?G1.0 = always])
qed

text \<open>
  (C33) The helper stops. When every receive after the first n reports an interruption, an
  error, the end of the stream or a stop request, the helper ends after at most n + 1 requests
  with exit code 0 or 1: no contract of the program fails, and every exception is caught.
\<close>

theorem helper_stops:
  assumes "\<And>s t. n \<le> receives t \<Longrightarrow> ends_loop (fst (receive s w t))"
  shows "fst (kms_main (Suc n) as w t) = Ret 0 \<or> fst (kms_main (Suc n) as w t) = Ret 1"
proof -
  have serve: "safe w (serve (Suc n) fd s) always" for fd s
    unfolding safe_def by (intro allI serve_ends [of n]) (use assms in auto)
  have app: "safe w (app (Suc n) path) always" for path
    unfolding app_def set_caps_def
    by (auto intro!: safe_rules safe_bindp [OF io_safe [OF block_signals_safe]]
        safe_bindp [OF get_drm_device_path_safe] safe_guarded safe_bindp [where ?G1.0 = always]
        io_safe [OF socket_connect_safe] serve simp: fst_emit simp del: serve.simps)
  have "safe w (case as of [] \<Rightarrow> throw (RuntimeError ''Missing argument: socket path'')
      | a # _ \<Rightarrow> thenp (app (Suc n) a) (ret (0 :: int))) (\<lambda>x. x = 0)"
    by (auto split: list.split intro!: safe_rules safe_bindp [OF app])
  from safeD [OF this, of t] show ?thesis
    unfolding kms_main_def catching_all_run by (auto split: outcome.splits)
qed

definition stopping_world :: kms_world where
  "stopping_world = leak_world\<lparr>k_io := (\<lambda>_. demo_io_world 4)\<rparr>"

theorem helper_stops_witness:
  "fst (kms_main 1 [''socket''] stopping_world []) = Ret 0 \<or>
   fst (kms_main 1 [''socket''] stopping_world []) = Ret 1"
proof -
  have "ends_loop (fst (receive s stopping_world t))" for s t
    by (simp add: receive_def io_def inside_def message_handler_def receive_handler_def bindp_call_run bindp_run
        prog_run stopping_world_def demo_io_world_def)
  from helper_stops [of 0 stopping_world "[''socket'']" "[]", OF this] show ?thesis by simp
qed

end
