(* ===== verification/Shutdown.thy ===== *)
theory Shutdown
  imports Effects "HOL-Library.Multiset"
begin

text \<open>
  The three threads of a recording: \<open>run_loop\<close> of \<open>src/main.cpp\<close>. The main thread starts a
  thread for the media context and one for the audio context, runs the main context itself,
  and shuts down. The bodies of the three are the same code: run the context, keep the first
  exception, and ask the main and the audio context to stop. The steps of the threads
  interleave in any order. A run of a context is one state of its thread: it returns once its
  stop flag is set (\<open>Context.context_run_stops\<close>) and may throw at any time.
\<close>

section \<open>States\<close>

datatype ctx = CMain | CMedia | CAudio

text \<open>\<open>SignalMain\<close> and \<open>SignalAudio\<close>: the main context dispatches the handler of SIGINT.\<close>

datatype run_pc =
    Idle | Running | SignalMain | SignalAudio | Threw exn | StopMainNext | StopAudioNext | Ended

datatype main_pc =
    SpawnMedia | SpawnAudio | InRun | JoinAudio | FlushVideo | FlushAudio | FlushThrew exn
  | StopMedia | JoinMedia | Finished "exn option"

text \<open>
  What happened. A stop request sets the flag and writes to the event descriptor of the
  context; the event says whether that context is still running, which is when the descriptor
  is its own.
\<close>

datatype shut_event =
    RunReturned ctx | RunThrew ctx exn | FlushFailed exn | Caught exn
  | StopRequested ctx bool | FlushedVideo | FlushedAudio

record shutdown =
  mpc :: main_pc
  pc :: "ctx \<Rightarrow> run_pc"
  stop :: "ctx \<Rightarrow> bool"
  caught :: "exn option"
  events :: "shut_event list"

definition start :: shutdown where
  "start = \<lparr>mpc = SpawnMedia, pc = (\<lambda>_. Idle), stop = (\<lambda>_. False), caught = None, events = []\<rparr>"

section \<open>Operations\<close>

definition goto :: "ctx \<Rightarrow> run_pc \<Rightarrow> shutdown \<Rightarrow> shutdown" where
  "goto c p s = s\<lparr>pc := (pc s)(c := p)\<rparr>"

definition record_event :: "shut_event \<Rightarrow> shutdown \<Rightarrow> shutdown" where
  "record_event e s = s\<lparr>events := events s @ [e]\<rparr>"

definition in_run :: "shutdown \<Rightarrow> ctx \<Rightarrow> bool" where
  "in_run s c \<longleftrightarrow> pc s c \<in> {Running, SignalMain, SignalAudio}"

definition request_stop_of :: "ctx \<Rightarrow> shutdown \<Rightarrow> shutdown" where
  "request_stop_of c s = record_event (StopRequested c (in_run s c)) (s\<lparr>stop := (stop s)(c := True)\<rparr>)"

text \<open>The handler that keeps the first exception, under its mutex.\<close>

definition keep_exception :: "exn \<Rightarrow> shutdown \<Rightarrow> shutdown" where
  "keep_exception e s = record_event (Caught e)
     (s\<lparr>caught := (case caught s of None \<Rightarrow> Some e | Some e' \<Rightarrow> Some e')\<rparr>)"

section \<open>Steps\<close>

text \<open>What the threads do by themselves.\<close>

inductive sys_step :: "shutdown \<Rightarrow> shutdown \<Rightarrow> bool" where
  run_returns: "pc s c = Running \<Longrightarrow> stop s c \<Longrightarrow>
    sys_step s (goto c StopMainNext (record_event (RunReturned c) (s\<lparr>stop := (stop s)(c := False)\<rparr>)))"
| run_caught: "pc s c = Threw e \<Longrightarrow> sys_step s (goto c StopMainNext (keep_exception e s))"
| stop_main: "pc s c = StopMainNext \<Longrightarrow> sys_step s (goto c StopAudioNext (request_stop_of CMain s))"
| stop_audio: "pc s c = StopAudioNext \<Longrightarrow> sys_step s (goto c Ended (request_stop_of CAudio s))"
| signal_main: "pc s CMain = SignalMain \<Longrightarrow> sys_step s (goto CMain SignalAudio (request_stop_of CMain s))"
| signal_audio: "pc s CMain = SignalAudio \<Longrightarrow> sys_step s (goto CMain Running (request_stop_of CAudio s))"
| spawn_media: "mpc s = SpawnMedia \<Longrightarrow> sys_step s (goto CMedia Running (s\<lparr>mpc := SpawnAudio\<rparr>))"
| spawn_audio: "mpc s = SpawnAudio \<Longrightarrow> sys_step s (goto CAudio Running (goto CMain Running (s\<lparr>mpc := InRun\<rparr>)))"
| main_ended: "mpc s = InRun \<Longrightarrow> pc s CMain = Ended \<Longrightarrow> sys_step s (s\<lparr>mpc := JoinAudio\<rparr>)"
| join_audio: "mpc s = JoinAudio \<Longrightarrow> pc s CAudio = Ended \<Longrightarrow> sys_step s (s\<lparr>mpc := FlushVideo\<rparr>)"
| flush_video: "mpc s = FlushVideo \<Longrightarrow> sys_step s (record_event FlushedVideo (s\<lparr>mpc := FlushAudio\<rparr>))"
| flush_audio: "mpc s = FlushAudio \<Longrightarrow> sys_step s (record_event FlushedAudio (s\<lparr>mpc := StopMedia\<rparr>))"
| flush_caught: "mpc s = FlushThrew e \<Longrightarrow> sys_step s (keep_exception e (s\<lparr>mpc := StopMedia\<rparr>))"
| stop_media: "mpc s = StopMedia \<Longrightarrow> sys_step s (request_stop_of CMedia (s\<lparr>mpc := JoinMedia\<rparr>))"
| join_media: "mpc s = JoinMedia \<Longrightarrow> pc s CMedia = Ended \<Longrightarrow> sys_step s (s\<lparr>mpc := Finished (caught s)\<rparr>)"

text \<open>What the outside makes them do: a run throws, a flush throws, SIGINT arrives.\<close>

inductive env_step :: "shutdown \<Rightarrow> shutdown \<Rightarrow> bool" where
  run_throws: "pc s c = Running \<Longrightarrow> env_step s (goto c (Threw e) (record_event (RunThrew c e) s))"
| signal: "pc s CMain = Running \<Longrightarrow> env_step s (goto CMain SignalMain s)"
| flush_throws: "mpc s \<in> {FlushVideo, FlushAudio} \<Longrightarrow>
    env_step s (record_event (FlushFailed e) (s\<lparr>mpc := FlushThrew e\<rparr>))"

inductive reachable :: "shutdown \<Rightarrow> bool" where
  initially: "reachable start"
| sys: "reachable s \<Longrightarrow> sys_step s s' \<Longrightarrow> reachable s'"
| env: "reachable s \<Longrightarrow> env_step s s' \<Longrightarrow> reachable s'"

section \<open>Reading the events\<close>

definition run_ended :: "ctx \<Rightarrow> shut_event list \<Rightarrow> bool" where
  "run_ended c es \<longleftrightarrow> (\<exists>x \<in> set es. x = RunReturned c \<or> (\<exists>e. x = RunThrew c e))"

fun thrown :: "shut_event list \<Rightarrow> exn multiset" where
  "thrown [] = {#}"
| "thrown (RunThrew c e # es) = add_mset e (thrown es)"
| "thrown (FlushFailed e # es) = add_mset e (thrown es)"
| "thrown (_ # es) = thrown es"

fun caught_list :: "shut_event list \<Rightarrow> exn list" where
  "caught_list [] = []"
| "caught_list (Caught e # es) = e # caught_list es"
| "caught_list (_ # es) = caught_list es"

definition first_caught :: "shut_event list \<Rightarrow> exn option" where
  "first_caught es = (case caught_list es of [] \<Rightarrow> None | e # _ \<Rightarrow> Some e)"

text \<open>Every event that satisfies \<open>X\<close> comes after a history that satisfies \<open>P\<close>.\<close>

definition only_after :: "(shut_event \<Rightarrow> bool) \<Rightarrow> (shut_event list \<Rightarrow> bool) \<Rightarrow> shut_event list \<Rightarrow> bool" where
  "only_after X P es \<longleftrightarrow> (\<forall>pre x post. es = pre @ x # post \<longrightarrow> X x \<longrightarrow> P pre)"

definition flushing_over :: "shut_event list \<Rightarrow> bool" where
  "flushing_over es \<longleftrightarrow> FlushedAudio \<in> set es \<or> (\<exists>e. FlushFailed e \<in> set es)"

lemma run_ended_append [simp]: "run_ended c (es @ es') \<longleftrightarrow> run_ended c es \<or> run_ended c es'"
  by (auto simp: run_ended_def)

lemma run_ended_simps [simp]:
  "\<not> run_ended c []" "run_ended c [RunReturned d] \<longleftrightarrow> c = d" "run_ended c [RunThrew d e] \<longleftrightarrow> c = d"
  "\<not> run_ended c [FlushFailed e]" "\<not> run_ended c [Caught e]" "\<not> run_ended c [StopRequested d b]"
  "\<not> run_ended c [FlushedVideo]" "\<not> run_ended c [FlushedAudio]"
  by (auto simp: run_ended_def)

lemma thrown_append [simp]: "thrown (es @ es') = thrown es + thrown es'"
  by (induction es rule: thrown.induct) auto

lemma caught_list_append [simp]: "caught_list (es @ es') = caught_list es @ caught_list es'"
  by (induction es rule: caught_list.induct) auto

lemma flushing_over_append [simp]: "flushing_over (es @ es') \<longleftrightarrow> flushing_over es \<or> flushing_over es'"
  by (auto simp: flushing_over_def)

lemma flushing_over_simps [simp]:
  "flushing_over [FlushedAudio]" "flushing_over [FlushFailed e]" "\<not> flushing_over []"
  by (auto simp: flushing_over_def)

lemma only_after_Nil [simp]: "only_after X P []"
  by (simp add: only_after_def)

lemma only_after_snoc [simp]: "only_after X P (es @ [x]) \<longleftrightarrow> only_after X P es \<and> (X x \<longrightarrow> P es)"
proof
  assume h: "only_after X P (es @ [x])"
  have "P pre" if "es = pre @ y # post" "X y" for pre y post
    using h that unfolding only_after_def by (metis append.assoc append_Cons)
  moreover have "X x \<longrightarrow> P es" using h unfolding only_after_def by blast
  ultimately show "only_after X P es \<and> (X x \<longrightarrow> P es)" unfolding only_after_def by blast
next
  assume h: "only_after X P es \<and> (X x \<longrightarrow> P es)"
  show "only_after X P (es @ [x])"
    unfolding only_after_def
  proof (intro allI impI)
    fix pre y post
    assume "es @ [x] = pre @ y # post" "X y"
    then show "P pre" using h unfolding only_after_def
      by (cases post rule: rev_cases) auto
  qed
qed

section \<open>Invariants\<close>

lemmas shutdown_ops = goto_def record_event_def request_stop_of_def keep_exception_def in_run_def

fun stage :: "main_pc \<Rightarrow> nat" where
  "stage SpawnMedia = 0"
| "stage SpawnAudio = 1"
| "stage InRun = 2"
| "stage JoinAudio = 3"
| "stage FlushVideo = 4"
| "stage FlushAudio = 5"
| "stage (FlushThrew e) = 6"
| "stage StopMedia = 7"
| "stage JoinMedia = 8"
| "stage (Finished r) = 9"

fun over :: "run_pc \<Rightarrow> bool" where
  "over (Threw e) = True"
| "over StopMainNext = True"
| "over StopAudioNext = True"
| "over Ended = True"
| "over _ = False"

text \<open>Where the main thread is says where the others are.\<close>

definition ended_inv :: "shutdown \<Rightarrow> bool" where
  "ended_inv s \<longleftrightarrow> (\<forall>c. run_ended c (events s) = over (pc s c))"

definition spawn_inv :: "shutdown \<Rightarrow> bool" where
  "spawn_inv s \<longleftrightarrow>
     (pc s CMedia = Idle) = (stage (mpc s) = 0) \<and> (pc s CMain = Idle) = (stage (mpc s) \<le> 1) \<and>
     (pc s CAudio = Idle) = (stage (mpc s) \<le> 1)"

definition joined_inv :: "shutdown \<Rightarrow> bool" where
  "joined_inv s \<longleftrightarrow>
     (stage (mpc s) \<ge> 3 \<longrightarrow> pc s CMain = Ended) \<and> (stage (mpc s) \<ge> 4 \<longrightarrow> pc s CAudio = Ended) \<and>
     (stage (mpc s) \<ge> 9 \<longrightarrow> pc s CMedia = Ended)"

definition flushed_inv :: "shutdown \<Rightarrow> bool" where
  "flushed_inv s \<longleftrightarrow>
     (stage (mpc s) = 5 \<longrightarrow> FlushedVideo \<in> set (events s)) \<and>
     (stage (mpc s) \<ge> 6 \<longrightarrow> flushing_over (events s))"

definition signal_inv :: "shutdown \<Rightarrow> bool" where
  "signal_inv s \<longleftrightarrow> (\<forall>c. pc s c \<in> {SignalMain, SignalAudio} \<longrightarrow> c = CMain)"

definition control_inv :: "shutdown \<Rightarrow> bool" where
  "control_inv s \<longleftrightarrow> ended_inv s \<and> spawn_inv s \<and> joined_inv s \<and> flushed_inv s \<and> signal_inv s"

lemma all_ctx: "(\<forall>c. P c) \<longleftrightarrow> P CMain \<and> P CMedia \<and> P CAudio"
  by (metis ctx.exhaust)

lemma control_start: "control_inv start"
  by (simp add: control_inv_def ended_inv_def spawn_inv_def joined_inv_def flushed_inv_def signal_inv_def start_def)

lemma ended_sys: "sys_step s s' \<Longrightarrow> spawn_inv s \<Longrightarrow> ended_inv s \<Longrightarrow> ended_inv s'"
  by (induction rule: sys_step.induct) (simp_all add: ended_inv_def spawn_inv_def shutdown_ops)

lemma ended_env: "env_step s s' \<Longrightarrow> ended_inv s \<Longrightarrow> ended_inv s'"
  by (induction rule: env_step.induct) (auto simp: ended_inv_def shutdown_ops)

lemma spawn_sys: "sys_step s s' \<Longrightarrow> spawn_inv s \<Longrightarrow> spawn_inv s'"
  by (induction rule: sys_step.induct) (auto simp: spawn_inv_def shutdown_ops)

lemma spawn_env: "env_step s s' \<Longrightarrow> spawn_inv s \<Longrightarrow> spawn_inv s'"
  by (induction rule: env_step.induct) (auto simp: spawn_inv_def shutdown_ops)

lemma joined_sys: "sys_step s s' \<Longrightarrow> joined_inv s \<Longrightarrow> joined_inv s'"
  by (induction rule: sys_step.induct) (auto simp: joined_inv_def shutdown_ops)

lemma joined_env: "env_step s s' \<Longrightarrow> joined_inv s \<Longrightarrow> joined_inv s'"
  by (induction rule: env_step.induct) (auto simp: joined_inv_def shutdown_ops)

lemma flushed_sys: "sys_step s s' \<Longrightarrow> flushed_inv s \<Longrightarrow> flushed_inv s'"
  by (induction rule: sys_step.induct) (auto simp: flushed_inv_def shutdown_ops)

lemma flushed_env: "env_step s s' \<Longrightarrow> flushed_inv s \<Longrightarrow> flushed_inv s'"
  by (induction rule: env_step.induct) (auto simp: flushed_inv_def shutdown_ops)

lemma signal_sys: "sys_step s s' \<Longrightarrow> signal_inv s \<Longrightarrow> signal_inv s'"
  by (induction rule: sys_step.induct) (auto simp: signal_inv_def shutdown_ops)

lemma signal_env: "env_step s s' \<Longrightarrow> signal_inv s \<Longrightarrow> signal_inv s'"
  by (induction rule: env_step.induct) (auto simp: signal_inv_def shutdown_ops)

lemma control_reachable: "reachable s \<Longrightarrow> control_inv s"
  by (induction rule: reachable.induct)
    (simp_all add: control_start, (metis control_inv_def ended_sys ended_env spawn_sys spawn_env joined_sys joined_env
       flushed_sys flushed_env signal_sys signal_env)+)

text \<open>No exception is lost between being thrown and being kept.\<close>

fun pending_of :: "run_pc \<Rightarrow> exn multiset" where
  "pending_of (Threw e) = {#e#}"
| "pending_of _ = {#}"

fun pending_flush :: "main_pc \<Rightarrow> exn multiset" where
  "pending_flush (FlushThrew e) = {#e#}"
| "pending_flush _ = {#}"

definition pending :: "shutdown \<Rightarrow> exn multiset" where
  "pending s = pending_of (pc s CMain) + pending_of (pc s CMedia) + pending_of (pc s CAudio) + pending_flush (mpc s)"

definition exception_inv :: "shutdown \<Rightarrow> bool" where
  "exception_inv s \<longleftrightarrow> caught s = first_caught (events s) \<and>
     thrown (events s) = mset (caught_list (events s)) + pending s \<and>
     (\<forall>r. mpc s = Finished r \<longrightarrow> r = caught s)"

lemma first_caught_append:
  "first_caught (es @ es') = (case first_caught es of None \<Rightarrow> first_caught es' | Some e \<Rightarrow> Some e)"
  by (auto simp: first_caught_def split: list.splits)

lemma first_caught_simps [simp]:
  "first_caught [] = None" "first_caught [Caught e] = Some e" "first_caught [RunReturned c] = None"
  "first_caught [RunThrew c e] = None" "first_caught [FlushFailed e] = None"
  "first_caught [StopRequested c b] = None" "first_caught [FlushedVideo] = None" "first_caught [FlushedAudio] = None"
  by (simp_all add: first_caught_def)

lemma exception_start: "exception_inv start"
  by (simp add: exception_inv_def start_def pending_def)

text \<open>When the main thread is done no exception is pending, and it does not catch another one.\<close>

lemma finished_quiet: "control_inv s \<Longrightarrow> mpc s = Finished r \<Longrightarrow> pc s c = Ended"
  by (cases c) (simp_all add: control_inv_def joined_inv_def)

lemma exception_sys: "sys_step s s' \<Longrightarrow> control_inv s \<Longrightarrow> exception_inv s \<Longrightarrow> exception_inv s'"
proof (induction rule: sys_step.induct)
  case (run_returns s c)
  then show ?case
    by (cases c) (auto simp: exception_inv_def pending_def shutdown_ops first_caught_append split: option.split)
next
  case (run_caught s c e)
  then have "mpc s \<noteq> Finished r" for r using finished_quiet [of s r c] by auto
  with run_caught show ?case
    by (cases c) (auto simp: exception_inv_def pending_def shutdown_ops first_caught_append split: option.split)
next
  case (stop_main s c)
  then show ?case
    by (cases c) (auto simp: exception_inv_def pending_def shutdown_ops first_caught_append split: option.split)
next
  case (stop_audio s c)
  then show ?case
    by (cases c) (auto simp: exception_inv_def pending_def shutdown_ops first_caught_append split: option.split)
next
  case (spawn_media s)
  then show ?case by (auto simp: exception_inv_def control_inv_def spawn_inv_def pending_def shutdown_ops)
next
  case (spawn_audio s)
  then show ?case by (auto simp: exception_inv_def control_inv_def spawn_inv_def pending_def shutdown_ops)
qed (auto simp: exception_inv_def pending_def shutdown_ops first_caught_append split: option.split)

lemma exception_env: "env_step s s' \<Longrightarrow> exception_inv s \<Longrightarrow> exception_inv s'"
proof (induction rule: env_step.induct)
  case (run_throws s c e)
  then show ?case
    by (cases c) (auto simp: exception_inv_def pending_def shutdown_ops first_caught_append split: option.split)
qed (auto simp: exception_inv_def pending_def shutdown_ops first_caught_append split: option.split)

text \<open>The order of the events.\<close>

definition producers_over :: "shut_event list \<Rightarrow> bool" where
  "producers_over es \<longleftrightarrow> run_ended CMain es \<and> run_ended CAudio es"

definition order_inv :: "shut_event list \<Rightarrow> bool" where
  "order_inv es \<longleftrightarrow>
     only_after (\<lambda>x. x = FlushedVideo) producers_over es \<and>
     only_after (\<lambda>x. x = FlushedAudio) (\<lambda>pre. FlushedVideo \<in> set pre) es \<and>
     only_after (\<lambda>x. \<exists>b. x = StopRequested CMedia b) flushing_over es"

lemma control_producers_over:
  "control_inv s \<Longrightarrow> stage (mpc s) \<ge> 4 \<Longrightarrow> producers_over (events s)"
  by (simp add: control_inv_def ended_inv_def joined_inv_def producers_over_def)

lemma order_sys: "sys_step s s' \<Longrightarrow> control_inv s \<Longrightarrow> order_inv (events s) \<Longrightarrow> order_inv (events s')"
proof (induction rule: sys_step.induct)
  case (flush_video s)
  then show ?case using control_producers_over [of s] by (simp add: order_inv_def shutdown_ops)
next
  case (flush_audio s)
  then show ?case by (simp add: order_inv_def shutdown_ops control_inv_def flushed_inv_def)
next
  case (stop_media s)
  then show ?case by (simp add: order_inv_def shutdown_ops control_inv_def flushed_inv_def)
qed (simp_all add: order_inv_def shutdown_ops)

lemma order_env: "env_step s s' \<Longrightarrow> order_inv (events s) \<Longrightarrow> order_inv (events s')"
  by (induction rule: env_step.induct) (simp_all add: order_inv_def shutdown_ops)

definition shutdown_inv :: "shutdown \<Rightarrow> bool" where
  "shutdown_inv s \<longleftrightarrow> control_inv s \<and> exception_inv s \<and> order_inv (events s)"

lemma shutdown_reachable: "reachable s \<Longrightarrow> shutdown_inv s"
proof (induction rule: reachable.induct)
  case initially
  show ?case using control_start exception_start by (simp add: shutdown_inv_def order_inv_def start_def)
next
  case (sys s s')
  then show ?case
    using control_reachable [OF reachable.sys] exception_sys order_sys by (auto simp: shutdown_inv_def)
next
  case (env s s')
  then show ?case
    using control_reachable [OF reachable.env] exception_env order_env by (auto simp: shutdown_inv_def)
qed

lemma finished_outcome:
  assumes "shutdown_inv s" "mpc s = Finished r"
  shows "r = first_caught (events s) \<and> (r = None) = (thrown (events s) = {#}) \<and> run_ended c (events s)"
proof -
  have q: "pc s c = Ended" for c using assms finished_quiet by (auto simp: shutdown_inv_def)
  have "pending s = {#}" using q assms(2) by (simp add: pending_def)
  then have t: "thrown (events s) = mset (caught_list (events s))" "r = first_caught (events s)"
    using assms by (auto simp: shutdown_inv_def exception_inv_def)
  have "run_ended c (events s) = over (pc s c)"
    using assms(1) by (simp add: shutdown_inv_def control_inv_def ended_inv_def)
  then have "run_ended c (events s)" using q by simp
  then show ?thesis using t by (auto simp: first_caught_def split: list.splits)
qed

text \<open>
  (C6) Shutting down. In whatever order the threads proceed and whatever throws: the encoders are
  flushed only after the main and the audio context, which produce the frames, have ended, the
  video before the audio; the media context, which writes them, is asked to stop only after
  that. At the end all three contexts have ended, and the exception that leaves the loop is the
  first one that was kept; there is none exactly when nothing threw.
\<close>

theorem shutdown_order:
  assumes "reachable s"
  shows "only_after (\<lambda>x. x = FlushedVideo) producers_over (events s) \<and>
    only_after (\<lambda>x. x = FlushedAudio) (\<lambda>pre. FlushedVideo \<in> set pre) (events s) \<and>
    only_after (\<lambda>x. \<exists>b. x = StopRequested CMedia b) flushing_over (events s) \<and>
    (case mpc s of
       Finished r \<Rightarrow> r = first_caught (events s) \<and> (r = None) = (thrown (events s) = {#}) \<and>
         (\<forall>c. run_ended c (events s))
     | _ \<Rightarrow> True)"
  using shutdown_reachable [OF assms] finished_outcome [of s]
  by (auto simp: shutdown_inv_def order_inv_def split: main_pc.split)

section \<open>Progress\<close>

text \<open>What is left to do.\<close>

fun run_work :: "run_pc \<Rightarrow> nat" where
  "run_work SignalMain = 6"
| "run_work SignalAudio = 5"
| "run_work Idle = 5"
| "run_work Running = 4"
| "run_work (Threw e) = 3"
| "run_work StopMainNext = 2"
| "run_work StopAudioNext = 1"
| "run_work Ended = 0"

definition work :: "shutdown \<Rightarrow> nat" where
  "work s = run_work (pc s CMain) + run_work (pc s CMedia) + run_work (pc s CAudio) + (9 - stage (mpc s))"

lemma work_bound: "work s \<le> 27"
proof -
  have "run_work p \<le> 6" for p by (cases p) simp_all
  from this [of "pc s CMain"] this [of "pc s CMedia"] this [of "pc s CAudio"] show ?thesis
    by (simp add: work_def)
qed

lemma stage_bound: "stage p \<le> 9"
  by (cases p) simp_all

lemma sys_step_work: "sys_step s s' \<Longrightarrow> spawn_inv s \<Longrightarrow> work s' < work s"
proof (induction rule: sys_step.induct)
  case (run_returns s c)
  then show ?case by (cases c) (simp_all add: work_def shutdown_ops)
next
  case (run_caught s c e)
  then show ?case by (cases c) (simp_all add: work_def shutdown_ops)
next
  case (stop_main s c)
  then show ?case by (cases c) (simp_all add: work_def shutdown_ops)
next
  case (stop_audio s c)
  then show ?case by (cases c) (simp_all add: work_def shutdown_ops)
qed (simp_all add: work_def shutdown_ops spawn_inv_def)

text \<open>The stop requests that the rest of the shutdown waits for have been made.\<close>

definition stopping :: "shutdown \<Rightarrow> ctx \<Rightarrow> bool" where
  "stopping s c \<longleftrightarrow> stop s c \<or> over (pc s c)"

definition asked_inv :: "shutdown \<Rightarrow> bool" where
  "asked_inv s \<longleftrightarrow> (pc s CMain = Ended \<longrightarrow> stopping s CAudio) \<and> (stage (mpc s) \<ge> 8 \<longrightarrow> stopping s CMedia)"

lemma stopping_sys: "sys_step s s' \<Longrightarrow> spawn_inv s \<Longrightarrow> stopping s c \<Longrightarrow> stopping s' c"
  by (induction rule: sys_step.induct) (auto simp: stopping_def spawn_inv_def shutdown_ops)

lemma stopping_env: "env_step s s' \<Longrightarrow> stopping s c \<Longrightarrow> stopping s' c"
  by (induction rule: env_step.induct) (auto simp: stopping_def shutdown_ops)

lemma asked_sys: "sys_step s s' \<Longrightarrow> spawn_inv s \<Longrightarrow> asked_inv s \<Longrightarrow> asked_inv s'"
proof (induction rule: sys_step.induct)
  case (run_returns s c)
  then show ?case by (cases c) (auto simp: asked_inv_def stopping_def shutdown_ops)
next
  case (run_caught s c e)
  then show ?case by (cases c) (auto simp: asked_inv_def stopping_def shutdown_ops)
next
  case (stop_main s c)
  then show ?case by (cases c) (auto simp: asked_inv_def stopping_def shutdown_ops)
next
  case (stop_audio s c)
  then show ?case by (cases c) (auto simp: asked_inv_def stopping_def shutdown_ops)
qed (auto simp: asked_inv_def stopping_def spawn_inv_def shutdown_ops)

lemma asked_env: "env_step s s' \<Longrightarrow> asked_inv s \<Longrightarrow> asked_inv s'"
proof (induction rule: env_step.induct)
  case (run_throws s c e)
  then show ?case by (cases c) (auto simp: asked_inv_def stopping_def shutdown_ops)
qed (auto simp: asked_inv_def stopping_def shutdown_ops)

lemma reachable_spawn: "reachable s \<Longrightarrow> spawn_inv s"
  using control_reachable by (simp add: control_inv_def)

lemma asked_reachable: "reachable s \<Longrightarrow> asked_inv s"
proof (induction rule: reachable.induct)
  case initially
  show ?case by (simp add: asked_inv_def start_def)
qed (auto intro: asked_sys asked_env reachable_spawn)

text \<open>A thread whose context has been asked to stop can go on until it has ended.\<close>

lemma thread_progress:
  assumes "stopping s c" "pc s c \<noteq> Idle" "pc s c \<noteq> Ended" "signal_inv s"
  shows "\<exists>s'. sys_step s s'"
proof (cases "pc s c")
  case SignalMain
  then show ?thesis using assms(4) sys_step.signal_main by (cases c) (auto simp: signal_inv_def)
next
  case SignalAudio
  then show ?thesis using assms(4) sys_step.signal_audio by (cases c) (auto simp: signal_inv_def)
qed (use assms in \<open>auto simp: stopping_def intro: sys_step.intros\<close>)

lemma shutdown_progress:
  assumes r: "reachable s" and ask: "stopping s CMain" and stuck: "\<nexists>s'. sys_step s s'"
  shows "\<exists>r. mpc s = Finished r"
proof -
  have inv: "control_inv s" "asked_inv s" using r control_reachable asked_reachable by auto
  have ended: "pc s c = Ended" if "stopping s c" "pc s c \<noteq> Idle" for c
    using thread_progress [of s c] that stuck inv(1) by (auto simp: control_inv_def)
  have main: "stage (mpc s) \<ge> 2 \<Longrightarrow> pc s CMain = Ended"
    using ended [OF ask] inv(1) by (auto simp: control_inv_def spawn_inv_def)
  have audio: "stage (mpc s) \<ge> 2 \<Longrightarrow> pc s CAudio = Ended"
    using main ended [of CAudio] inv by (auto simp: control_inv_def spawn_inv_def asked_inv_def)
  have media: "stage (mpc s) \<ge> 8 \<Longrightarrow> pc s CMedia = Ended"
    using ended [of CMedia] inv by (auto simp: control_inv_def spawn_inv_def asked_inv_def)
  show ?thesis
  proof (cases "mpc s")
    case InRun
    then show ?thesis using main stuck sys_step.main_ended by auto
  next
    case JoinAudio
    then show ?thesis using audio stuck sys_step.join_audio by auto
  next
    case JoinMedia
    then show ?thesis using media stuck sys_step.join_media by auto
  qed (use stuck in \<open>auto intro: sys_step.intros\<close>)
qed

lemma relpowp_sys:
  "(sys_step ^^ n) s s' \<Longrightarrow> reachable s \<Longrightarrow> stopping s CMain \<Longrightarrow>
   reachable s' \<and> stopping s' CMain \<and> n + work s' \<le> work s"
proof (induction n arbitrary: s')
  case (Suc n)
  then obtain t where t: "(sys_step ^^ n) s t" "sys_step t s'" by auto
  from Suc.IH [OF t(1)] Suc.prems have "reachable t" "stopping t CMain" "n + work t \<le> work s" by auto
  with t(2) show ?case
    using sys_step_work [OF t(2)] reachable_spawn stopping_sys by (auto intro: reachable.sys)
qed simp

text \<open>
  (C23) Shutting down ends. Once the main context has been asked to stop or has ended, by SIGINT,
  by an exception anywhere or by the end of another thread, the threads cannot get stuck and
  cannot go on forever: every sequence of their steps has at most 27 steps, and one that
  cannot be continued has joined both threads and left the loop.
\<close>

theorem shutdown_finishes:
  assumes "reachable s" and "stopping s CMain" and "(sys_step ^^ n) s s'"
  shows "n \<le> 27 \<and> ((\<exists>s''. sys_step s' s'') \<or> (\<exists>r. mpc s' = Finished r))"
  using relpowp_sys [OF assms(3,1,2)] shutdown_progress [of s'] work_bound [of s] by auto

text \<open>A failing media thread is enough: it asks the main context to stop.\<close>

lemma failure_asks:
  assumes "pc s c = StopMainNext" "sys_step s s'" "pc s' c = StopAudioNext"
  shows "stopping s' CMain"
  using assms(2,1,3) by (induction rule: sys_step.induct) (auto simp: stopping_def shutdown_ops split: if_splits)

definition running :: shutdown where
  "running = goto CAudio Running (goto CMain Running (goto CMedia Running (start\<lparr>mpc := InRun\<rparr>)))"

lemma running_reachable: "reachable running"
proof -
  have "reachable (goto CMedia Running (start\<lparr>mpc := SpawnAudio\<rparr>))"
    by (rule reachable.sys [OF reachable.initially sys_step.spawn_media]) (simp add: start_def)
  from reachable.sys [OF this sys_step.spawn_audio] show ?thesis by (simp add: goto_def running_def)
qed

text \<open>A session stopped by SIGINT, up to the point where the handler has returned.\<close>

definition interrupted :: shutdown where
  "interrupted = goto CMain Running (request_stop_of CAudio (goto CMain SignalAudio
     (request_stop_of CMain (goto CMain SignalMain running))))"

lemma interrupted_reachable: "reachable interrupted"
proof -
  have "reachable (goto CMain SignalMain running)"
    by (rule reachable.env [OF running_reachable env_step.signal]) (simp add: running_def goto_def)
  from reachable.sys [OF this sys_step.signal_main]
  have "reachable (goto CMain SignalAudio (request_stop_of CMain (goto CMain SignalMain running)))"
    by (simp add: goto_def)
  from reachable.sys [OF this sys_step.signal_audio] show ?thesis
    by (simp add: interrupted_def goto_def request_stop_of_def record_event_def)
qed

theorem shutdown_finishes_witness:
  "(0 :: nat) \<le> 27 \<and> ((\<exists>s''. sys_step interrupted s'') \<or> (\<exists>r. mpc interrupted = Finished r))"
  by (rule shutdown_finishes [OF interrupted_reachable])
    (simp_all add: stopping_def interrupted_def shutdown_ops)

theorem shutdown_order_witness:
  "only_after (\<lambda>x. x = FlushedVideo) producers_over (events interrupted) \<and>
   events interrupted = [StopRequested CMain True, StopRequested CAudio True]"
  using shutdown_order [OF interrupted_reachable]
  by (simp add: interrupted_def running_def start_def shutdown_ops)

section \<open>Stop requests after the end of a run\<close>

text \<open>
  The guard of the main thread asks the main context to stop after its run is over, when its
  event descriptor has been closed: the request writes to a number that is no longer its own.
\<close>

definition late_inv :: "shutdown \<Rightarrow> bool" where
  "late_inv s \<longleftrightarrow> (pc s CMain \<in> {StopAudioNext, Ended} \<longrightarrow> StopRequested CMain False \<in> set (events s))"

lemma late_sys: "sys_step s s' \<Longrightarrow> late_inv s \<Longrightarrow> late_inv s'"
proof (induction rule: sys_step.induct)
  case (stop_main s c)
  then show ?case by (cases c) (auto simp: late_inv_def shutdown_ops)
qed (auto simp: late_inv_def shutdown_ops)

lemma late_env: "env_step s s' \<Longrightarrow> late_inv s \<Longrightarrow> late_inv s'"
  by (induction rule: env_step.induct) (auto simp: late_inv_def shutdown_ops)

lemma late_stop_request:
  assumes "reachable s" "mpc s = Finished r"
  shows "StopRequested CMain False \<in> set (events s)"
proof -
  have "late_inv s" using assms(1)
  proof (induction rule: reachable.induct)
    case initially
    show ?case by (simp add: late_inv_def start_def)
  qed (auto intro: late_sys late_env)
  moreover have "pc s CMain = Ended"
    using finished_quiet [OF control_reachable [OF assms(1)] assms(2)] by simp
  ultimately show ?thesis by (simp add: late_inv_def)
qed

end
