(* ===== verification/Host.thy ===== *)
theory Host
  imports Io Media Base64 Frame_Time Resources
begin

text \<open>
  The calls with which a recording is set up and taken down: the dynamic loader, CUDA, NvFBC,
  X11, Wayland, EGL, libav, PipeWire and signals. None of these libraries is part of the
  repository: each call is an event, its answer is the world's. A pointer is a number, null is
  0. This theory holds the events, the world, what each call acquires and releases, and the
  owning pointers of the program.
\<close>

section \<open>Calls\<close>

record video_config =
  vc_time_base :: "int \<times> int"
  vc_framerate :: "int \<times> int"
  vc_max_b_frames :: int
  vc_bit_rate :: int
  vc_width :: u32
  vc_height :: u32

record audio_config =
  ac_sample_rate :: int
  ac_sample_fmt :: av_sample_format
  ac_bit_rate :: int
  ac_time_base :: "int \<times> int"

datatype pixel_format = AV_PIX_FMT_RGB0 | AV_PIX_FMT_BGR0

datatype dl_call = DlOpen string | DlErrorMessage | DlSym nat string

datatype cuda_call =
    CuInit | CuDeviceGet int | CuCtxCreate int | CuCtxDestroy nat | CuGetErrorString int

datatype fbc_call =
    FbcCreateInstance | FbcCreateHandle "u8 list" | FbcDestroyHandle u64
  | FbcCreateCaptureSession u64 u64 | FbcToCudaSetUp u64 | FbcDestroyCaptureSession u64
  | FbcGetLastErrorStr u64 | FbcGrabFrame u64

datatype x_call = XOpenDisplay | XCloseDisplay nat | XWidthOfScreen nat | XHeightOfScreen nat

datatype wl_call =
    WlDisplayConnect | WlDisplayDisconnect nat | WlDisplayGetRegistry nat | WlRegistryDestroy nat
  | WlRegistryAddListener nat | WlDisplayRoundtrip nat | WlRegistryBind u32 string u32
  | WlOutputAddListener nat | WlOutputRelease nat | WlCompositorDestroy nat
  | WlCompositorCreateSurface nat | WlSurfaceDestroy nat | WlEglWindowCreate nat | WlEglWindowDestroy nat

datatype egl_call =
    EglBindAPI | EglGetDisplay nat | EglInitialize nat | EglTerminate nat | EglChooseConfig nat
  | EglCreateWindowSurface nat nat | EglDestroySurface nat | EglCreateContext nat | EglDestroyContext nat
  | EglMakeCurrent nat nat nat | EglGetProcAddress string

datatype av_call =
    AvFindEncoder string | AvAllocOutputContext string | AvFreeFormatContext nat
  | AvAllocCodecContext nat | AvFreeCodecContext nat | AvDictSet string string
  | AvOpenAudioCodec nat nat audio_config | AvOpenVideoCodec nat nat video_config
  | AvNewStream nat nat | AvParametersFromContext nat nat
  | AvioOpen string | AvioClose nat | AvWriteHeader nat | AvWriteTrailer nat
  | AvBufferPoolInit | AvBufferPoolUninit nat
  | AvHwDeviceAlloc | AvHwDeviceInit nat nat | AvHwFramesAlloc nat | AvHwFramesInit nat nat pixel_format
  | AvBufferRef nat | AvBufferUnref nat

datatype sig_call =
    NewSignalFd | GetSignalMask | AddSignal u32 | SetSignalMask | SetSignalFd int | CloseSignalFd int
  | ReadSignalFd int | HandleSignal u32 | SigErrNo

datatype service =
    AudioService sample_format int int | VideoService nat u64 | DRMVideoService nat | EncoderService nat

datatype listener =
    ChunkWriter nat nat int | VideoFrameWriter nat nat | DRMVideoFrameWriter nat nat

datatype host_call =
    IoCall io_call | Dl dl_call | Cuda cuda_call | Fbc fbc_call | X x_call | Wl wl_call | Egl egl_call
  | Av av_call | Sig sig_call
  | GetEnv string | PwInit | PwDeinit | NewService service | Listen listener | RunContexts | Report string

text \<open>What the compositor announces during a round trip.\<close>

datatype wl_event =
    Global u32 string u32
  | Mode "32 word" "32 word" "32 word"
  | OtherWlEvent

record host_world =
  h_io :: "host_call list \<Rightarrow> io_world"
  h_int :: "host_call list \<Rightarrow> int"
  h_ptr :: "host_call list \<Rightarrow> nat"
  h_made :: "host_call list \<Rightarrow> int \<times> nat"
  h_session :: "host_call list \<Rightarrow> int \<times> u64"
  h_text :: "host_call list \<Rightarrow> string"
  h_cuda_text :: "host_call list \<Rightarrow> string option"
  h_env :: "host_call list \<Rightarrow> string option"
  h_wl_events :: "host_call list \<Rightarrow> wl_event list"
  h_codec_rates :: "nat \<Rightarrow> int list option"
  h_codec_formats :: "nat \<Rightarrow> av_sample_format list option"
  h_codec_name :: "nat \<Rightarrow> string"
  h_frame_size :: "nat \<Rightarrow> int"
  h_av_strerror :: "int \<Rightarrow> string option"
  h_signal :: "host_call list \<Rightarrow> int \<times> u32"
  h_byte_order :: byte_order
  h_fails :: "host_call list \<Rightarrow> exn option"

type_synonym 'a host_prog = "(host_world, host_call, 'a) prog"

text \<open>Reading what is not a call: memory of a library.\<close>

definition peek :: "('w \<Rightarrow> 'a) \<Rightarrow> ('w, 'c, 'a) prog" where
  "peek f = (\<lambda>w t. (Ret (f w), t))"

text \<open>The environment, for code that reads several variables of it.\<close>

definition environment :: "(string \<Rightarrow> string option) host_prog" where
  "environment = (\<lambda>w t. (Ret (\<lambda>n. h_env w (t @ [GetEnv n])), t))"

text \<open>A computation of the program that makes no calls.\<close>

fun computed :: "'a outcome \<Rightarrow> ('w, 'c, 'a) prog" where
  "computed (Ret x) = ret x"
| "computed (Exc e) = throw e"
| "computed Abort = terminate"

definition throw_av :: "(string \<Rightarrow> exn) \<Rightarrow> string \<Rightarrow> int \<Rightarrow> 'a host_prog" where
  "throw_av mk msg r = bindp (peek h_av_strerror) (\<lambda>strerror. throw (mk (msg @ av_error_to_string strerror r)))"

definition host_io :: "'a io_prog \<Rightarrow> 'a host_prog" where
  "host_io p = inside h_io IoCall p"

section \<open>Owning pointers\<close>

text \<open>
  \<open>std::unique_ptr\<close> as a variable of a scope: its deleter runs when the scope ends, unless the
  pointer is null. \<open>returned\<close> is one that the scope returns: the deleter runs only on an
  exception.
\<close>

definition owner :: "(nat \<Rightarrow> host_call) \<Rightarrow> nat \<Rightarrow> 'a host_prog \<Rightarrow> 'a host_prog" where
  "owner del p body = (if p = 0 then body else guarded (emit (del p)) body)"

definition returned :: "(nat \<Rightarrow> host_call) \<Rightarrow> nat \<Rightarrow> 'a host_prog \<Rightarrow> 'a host_prog" where
  "returned del p body = (if p = 0 then body else guarded_unless_ret (emit (del p)) body)"

section \<open>What the calls acquire\<close>

datatype host_handle =
    CudaContext nat | FbcSession u64 | Capture u64 | XDisplay nat
  | WlDisplay nat | WlRegistry nat | WlOutput nat | WlCompositor nat | WlSurface nat | WlWindow nat
  | EglDisplay nat | EglSurface nat | EglContext nat
  | FormatContext nat | CodecContext nat | OutputFile nat | Header nat | BufferPool nat | Buffer nat
  | PipeWire | SignalFd int

fun cuda_delta :: "host_world \<Rightarrow> host_call list \<Rightarrow> cuda_call \<Rightarrow> host_handle multiset \<Rightarrow> host_handle multiset option" where
  "cuda_delta w t (CuCtxCreate d) = acquire (fst (h_made w t) = 0 \<and> snd (h_made w t) \<noteq> 0) (CudaContext (snd (h_made w t)))"
| "cuda_delta w t (CuCtxDestroy p) = release (CudaContext p)"
| "cuda_delta w t _ = Some"

fun fbc_delta :: "host_world \<Rightarrow> host_call list \<Rightarrow> fbc_call \<Rightarrow> host_handle multiset \<Rightarrow> host_handle multiset option" where
  "fbc_delta w t (FbcCreateHandle k) = acquire (fst (h_session w t) = 0 \<and> snd (h_session w t) \<noteq> kNull) (FbcSession (snd (h_session w t)))"
| "fbc_delta w t (FbcDestroyHandle p) = release (FbcSession p)"
| "fbc_delta w t (FbcCreateCaptureSession p m) = acquire (h_int w t = 0) (Capture p)"
| "fbc_delta w t (FbcDestroyCaptureSession p) = release (Capture p)"
| "fbc_delta w t _ = Some"

fun x_delta :: "host_world \<Rightarrow> host_call list \<Rightarrow> x_call \<Rightarrow> host_handle multiset \<Rightarrow> host_handle multiset option" where
  "x_delta w t XOpenDisplay = acquire (h_ptr w t \<noteq> 0) (XDisplay (h_ptr w t))"
| "x_delta w t (XCloseDisplay p) = release (XDisplay p)"
| "x_delta w t _ = Some"

fun wl_delta :: "host_world \<Rightarrow> host_call list \<Rightarrow> wl_call \<Rightarrow> host_handle multiset \<Rightarrow> host_handle multiset option" where
  "wl_delta w t WlDisplayConnect = acquire (h_ptr w t \<noteq> 0) (WlDisplay (h_ptr w t))"
| "wl_delta w t (WlDisplayDisconnect p) = release (WlDisplay p)"
| "wl_delta w t (WlDisplayGetRegistry d) = acquire (h_ptr w t \<noteq> 0) (WlRegistry (h_ptr w t))"
| "wl_delta w t (WlRegistryDestroy p) = release (WlRegistry p)"
| "wl_delta w t (WlRegistryBind n i v) = (if i = ''wl_output'' then acquire (h_ptr w t \<noteq> 0) (WlOutput (h_ptr w t))
     else acquire (h_ptr w t \<noteq> 0) (WlCompositor (h_ptr w t)))"
| "wl_delta w t (WlOutputRelease p) = release (WlOutput p)"
| "wl_delta w t (WlCompositorDestroy p) = release (WlCompositor p)"
| "wl_delta w t (WlCompositorCreateSurface c) = acquire (h_ptr w t \<noteq> 0) (WlSurface (h_ptr w t))"
| "wl_delta w t (WlSurfaceDestroy p) = release (WlSurface p)"
| "wl_delta w t (WlEglWindowCreate s) = acquire (h_ptr w t \<noteq> 0) (WlWindow (h_ptr w t))"
| "wl_delta w t (WlEglWindowDestroy p) = release (WlWindow p)"
| "wl_delta w t _ = Some"

fun egl_delta :: "host_world \<Rightarrow> host_call list \<Rightarrow> egl_call \<Rightarrow> host_handle multiset \<Rightarrow> host_handle multiset option" where
  "egl_delta w t (EglInitialize d) = acquire (h_int w t \<noteq> 0) (EglDisplay d)"
| "egl_delta w t (EglTerminate p) = release (EglDisplay p)"
| "egl_delta w t (EglCreateWindowSurface d wdw) = acquire (h_ptr w t \<noteq> 0) (EglSurface (h_ptr w t))"
| "egl_delta w t (EglDestroySurface p) = release (EglSurface p)"
| "egl_delta w t (EglCreateContext d) = acquire (h_ptr w t \<noteq> 0) (EglContext (h_ptr w t))"
| "egl_delta w t (EglDestroyContext p) = release (EglContext p)"
| "egl_delta w t _ = Some"

fun av_delta :: "host_world \<Rightarrow> host_call list \<Rightarrow> av_call \<Rightarrow> host_handle multiset \<Rightarrow> host_handle multiset option" where
  "av_delta w t (AvAllocOutputContext f) = acquire (fst (h_made w t) \<ge> 0 \<and> snd (h_made w t) \<noteq> 0) (FormatContext (snd (h_made w t)))"
| "av_delta w t (AvFreeFormatContext p) = release (FormatContext p)"
| "av_delta w t (AvAllocCodecContext c) = acquire (h_ptr w t \<noteq> 0) (CodecContext (h_ptr w t))"
| "av_delta w t (AvFreeCodecContext p) = release (CodecContext p)"
| "av_delta w t (AvioOpen f) = acquire (fst (h_made w t) \<ge> 0) (OutputFile (snd (h_made w t)))"
| "av_delta w t (AvioClose p) = release (OutputFile p)"
| "av_delta w t (AvWriteHeader fc) = acquire (h_int w t \<ge> 0) (Header fc)"
| "av_delta w t (AvWriteTrailer fc) = release (Header fc)"
| "av_delta w t AvBufferPoolInit = acquire (h_ptr w t \<noteq> 0) (BufferPool (h_ptr w t))"
| "av_delta w t (AvBufferPoolUninit p) = release (BufferPool p)"
| "av_delta w t AvHwDeviceAlloc = acquire (h_ptr w t \<noteq> 0) (Buffer (h_ptr w t))"
| "av_delta w t (AvHwFramesAlloc d) = acquire (h_ptr w t \<noteq> 0) (Buffer (h_ptr w t))"
| "av_delta w t (AvBufferUnref p) = release (Buffer p)"
| "av_delta w t _ = Some"

fun sig_delta :: "host_world \<Rightarrow> host_call list \<Rightarrow> sig_call \<Rightarrow> host_handle multiset \<Rightarrow> host_handle multiset option" where
  "sig_delta w t NewSignalFd = acquire (h_int w t \<ge> 0) (SignalFd (h_int w t))"
| "sig_delta w t (CloseSignalFd fd) = (if fd < 0 then Some else release (SignalFd fd))"
| "sig_delta w t _ = Some"

fun host_delta :: "(host_world, host_call, host_handle) delta" where
  "host_delta w t (Cuda c) = cuda_delta w t c"
| "host_delta w t (Fbc c) = fbc_delta w t c"
| "host_delta w t (X c) = x_delta w t c"
| "host_delta w t (Wl c) = wl_delta w t c"
| "host_delta w t (Egl c) = egl_delta w t c"
| "host_delta w t (Av c) = av_delta w t c"
| "host_delta w t (Sig c) = sig_delta w t c"
| "host_delta w t PwInit = acquire True PipeWire"
| "host_delta w t PwDeinit = release PipeWire"
| "host_delta w t _ = Some"

section \<open>Rules\<close>

lemma host_io_gains: "(\<And>r. G r {#}) \<Longrightarrow> gains host_delta (host_io p) G"
  unfolding host_io_def by (rule gains_inside) auto

lemma gains_peek: "(\<And>x. G (Ret x) {#}) \<Longrightarrow> gains d (peek f) G"
  by (auto simp: gains_def peek_def held_by_def)

lemma gains_peek_bindp: "(\<And>x. gains d (f x) G) \<Longrightarrow> gains d (bindp (peek g) f) G"
  by (rule gains_bindp [where ?G1.0 = "\<lambda>r L. (\<exists>x. r = Ret x) \<and> L = {#}"]) (auto intro: gains_peek)

lemma gains_environment_bindp: "(\<And>x. gains d (f x) G) \<Longrightarrow> gains d (bindp environment f) G"
  by (rule gains_bindp [where ?G1.0 = "\<lambda>r L. (\<exists>x. r = Ret x) \<and> L = {#}"])
    (auto simp: gains_def environment_def held_by_def)

lemma gains_computed: "(\<And>x. y = Ret x \<Longrightarrow> G (Ret x) {#}) \<Longrightarrow> (\<And>e. y = Exc e \<Longrightarrow> G (Exc e) {#}) \<Longrightarrow> gains d (computed y) G"
  by (cases y) (auto intro: gains_ret gains_throw gains_terminate)

lemma gains_throw_av: "(\<And>e. G (Exc e) {#}) \<Longrightarrow> gains d (throw_av mk msg r) G"
  unfolding throw_av_def by (auto intro: gains_peek_bindp gains_throw)

lemma scoped_owner:
  assumes "gains host_delta p G" "\<And>w t H. host_delta w (t @ [del x]) (del x) H = release r H" "x \<noteq> 0"
  shows "scoped host_delta {#r#} (owner del x p) G"
  using assms by (auto simp: owner_def intro: scoped_guarded)

text \<open>A pointer from a call, owned by the scope of what follows.\<close>

lemma gains_owned_ptr:
  assumes "\<And>w t. host_delta w (t @ [c]) c = acquire (h_ptr w (t @ [c]) \<noteq> 0) (h (h_ptr w (t @ [c])))"
    and "\<And>w t x H. host_delta w (t @ [del x]) (del x) H = release (h x) H"
    and "gains host_delta (b 0) G" and "\<And>x. x \<noteq> 0 \<Longrightarrow> gains host_delta (b x) G"
  shows "gains host_delta (bindp (call h_ptr c) (\<lambda>x. owner del x (b x))) G"
  by (rule gains_acquire [where b = "\<lambda>x. x \<noteq> 0" and r = h])
    (use assms in \<open>auto simp: owner_def intro: scoped_guarded\<close>)

end
