(* ===== verification/Nvidia.thy ===== *)
theory Nvidia
  imports Host
begin

text \<open>
  The NVIDIA libraries and the video encoder: \<open>src/nvidia.cpp\<close> and \<open>create_video_encoder\<close> of
  \<open>src/av/codec.cpp\<close>. A loaded library is the table of its functions, field by field.
\<close>

section \<open>Loading libraries\<close>

fun attach_all :: "nat \<Rightarrow> (string \<times> string) list \<Rightarrow> (string \<times> nat) list host_prog" where
  "attach_all lib [] = ret []"
| "attach_all lib ((slot, name) # fs) =
     bindp (attach_symbol h_ptr (\<lambda>n. Dl (DlSym lib n)) name) (\<lambda>f.
     bindp (attach_all lib fs) (\<lambda>rest. ret ((slot, f) # rest)))"

definition load_library :: "string \<Rightarrow> string \<Rightarrow> (string \<times> string) list \<Rightarrow> (string \<times> nat) list host_prog" where
  "load_library file msg table =
     bindp (call h_ptr (Dl (DlOpen file))) (\<lambda>lib.
     if lib = 0 then bindp (call h_text (Dl DlErrorMessage)) (\<lambda>e. throw (ModuleError (msg @ e)))
     else attach_all lib table)"

definition load_nvfbc :: "(string \<times> nat) list host_prog" where
  "load_nvfbc = load_library ''libnvidia-fbc.so.1'' ''Couldn't load libnvidia-fbc.so: ''
     [(''NvFBCCreateInstance_'', ''NvFBCCreateInstance'')]"

definition cuda_functions :: "string list" where
  "cuda_functions = [''cuInit'', ''cuDeviceGetCount'', ''cuDeviceGet'', ''cuCtxCreate_v2'', ''cuCtxDestroy_v2'',
     ''cuCtxPushCurrent_v2'', ''cuCtxPopCurrent_v2'', ''cuGetErrorString'', ''cuMemsetD8_v2'', ''cuMemcpy2D_v2'',
     ''cuGraphicsEGLRegisterImage'', ''cuGraphicsGLRegisterImage'', ''cuGraphicsResourceSetMapFlags'',
     ''cuGraphicsMapResources'', ''cuGraphicsUnmapResources'', ''cuGraphicsUnregisterResource'',
     ''cuGraphicsSubResourceGetMappedArray'', ''cuArrayGetDescriptor_v2'']"

definition load_cuda :: "(string \<times> nat) list host_prog" where
  "load_cuda = load_library ''libcuda.so.1'' ''Couldn't load libcuda.so: '' (map (\<lambda>n. (n, n)) cuda_functions)"

section \<open>CUDA\<close>

definition CUDA_SUCCESS :: int where "CUDA_SUCCESS = 0"

definition throw_cuda :: "int \<Rightarrow> 'a host_prog" where
  "throw_cuda res = bindp (call h_cuda_text (Cuda (CuGetErrorString res))) (\<lambda>m.
     throw (NvCudaError (case m of None \<Rightarrow> ''Unknown error'' | Some m \<Rightarrow> m)))"

text \<open>The context is returned in its owning pointer; the scope that follows is \<open>k\<close>.\<close>

definition create_cuda_context :: "(nat \<Rightarrow> 'a host_prog) \<Rightarrow> 'a host_prog" where
  "create_cuda_context k =
     bindp (call h_made (Cuda (CuDeviceGet 0))) (\<lambda>(res, dev).
     if res \<noteq> CUDA_SUCCESS then throw_cuda res
     else bindp (call h_made (Cuda (CuCtxCreate (int dev)))) (\<lambda>(res, ctx).
       if res \<noteq> CUDA_SUCCESS then throw_cuda res
       else owner (\<lambda>p. Cuda (CuCtxDestroy p)) ctx (k ctx)))"

section \<open>NvFBC\<close>

definition NVFBC_SUCCESS :: int where "NVFBC_SUCCESS = 0"

definition NvFBCCreateInstance :: "unit host_prog" where
  "NvFBCCreateInstance = bindp (call h_int (Fbc FbcCreateInstance)) (\<lambda>r.
     if r \<noteq> NVFBC_SUCCESS then throw (ModuleError ''Failed to get NvFBC instance'') else ret ())"

definition throw_nvfbc :: "u64 \<Rightarrow> 'a host_prog" where
  "throw_nvfbc handle = bindp (call h_text (Fbc (FbcGetLastErrorStr handle))) (\<lambda>m. throw (NvFBCError m))"

text \<open>
  The key comes from the environment and is decoded without looking at the result: a key that
  does not decode ends the process.
\<close>

definition create_nvfbc_session :: "(u64 \<Rightarrow> 'a host_prog) \<Rightarrow> 'a host_prog" where
  "create_nvfbc_session k =
     bindp (call h_env (GetEnv ''SHADOW_CAST_NVFBC_KEY'')) (\<lambda>env.
     bindp (peek h_byte_order) (\<lambda>bo.
     case base64_decode bo (case env of None \<Rightarrow> [] | Some v \<Rightarrow> v) of
       Inl e \<Rightarrow> terminate
     | Inr key \<Rightarrow>
         bindp (call h_session (Fbc (FbcCreateHandle key))) (\<lambda>(r, handle).
         if r \<noteq> NVFBC_SUCCESS then throw (RuntimeError ''Couldn't create NvFBC instance'')
         else if handle = kNull then k handle
         else guarded (emit (Fbc (FbcDestroyHandle handle))) (k handle))))"

definition create_nvfbc_capture_session :: "u64 \<Rightarrow> frame_time \<Rightarrow> unit host_prog" where
  "create_nvfbc_capture_session handle ft =
     bindp (call h_int (Fbc (FbcCreateCaptureSession handle (value_in_milliseconds ft)))) (\<lambda>r.
     if r \<noteq> NVFBC_SUCCESS then throw_nvfbc handle
     else bindp (call h_int (Fbc (FbcToCudaSetUp handle))) (\<lambda>r.
       if r \<noteq> NVFBC_SUCCESS then throw_nvfbc handle else ret ()))"

definition destroy_nvfbc_capture_session :: "u64 \<Rightarrow> unit host_prog" where
  "destroy_nvfbc_capture_session handle =
     bindp (call h_int (Fbc (FbcDestroyCaptureSession handle))) (\<lambda>r.
     if r \<noteq> NVFBC_SUCCESS then throw_nvfbc handle else ret ())"

section \<open>The video encoder\<close>

text \<open>
  The codec context is returned in its owning pointer. Its allocation is not checked: with a null
  pointer the assignments that follow fail. The hardware contexts are owned by the scope; the
  codec context keeps a reference of its own.
\<close>

definition video_config_of :: "frame_time \<Rightarrow> u32 \<Rightarrow> u32 \<Rightarrow> video_config option" where
  "video_config_of ft width height = (case fps_ratio ft of
       None \<Rightarrow> None
     | Some (num, den) \<Rightarrow> Some \<lparr>vc_time_base = (num, den), vc_framerate = (den, num), vc_max_b_frames = 0,
         vc_bit_rate = 100000, vc_width = width, vc_height = height\<rparr>)"

definition create_video_encoder ::
  "string \<Rightarrow> nat \<Rightarrow> nat \<Rightarrow> u32 \<Rightarrow> u32 \<Rightarrow> frame_time \<Rightarrow> pixel_format \<Rightarrow> nat host_prog" where
  "create_video_encoder encoder_name cuda_ctx pool width height ft pixel_format =
     bindp (call h_ptr (Av (AvFindEncoder encoder_name))) (\<lambda>enc.
     if enc = 0 then throw (CodecError ''Failed to find required video codec'')
     else bindp (call h_ptr (Av (AvAllocCodecContext enc))) (\<lambda>ctx.
     if ctx = 0 then terminate
     else returned (\<lambda>p. Av (AvFreeCodecContext p)) ctx
       (case video_config_of ft width height of
          None \<Rightarrow> terminate
        | Some cfg \<Rightarrow>
          bindp (call h_ptr (Av AvHwDeviceAlloc)) (\<lambda>dev.
          owner (\<lambda>p. Av (AvBufferUnref p)) dev
          (if dev = 0 then throw (RuntimeError ''Failed to allocate H/W device context'')
           else bindp (call h_int (Av (AvHwDeviceInit dev cuda_ctx))) (\<lambda>r.
           if r < 0 then throw_av RuntimeError ''Failed to initialize H/W device context: '' r
           else bindp (call h_ptr (Av (AvHwFramesAlloc dev))) (\<lambda>frames.
           owner (\<lambda>p. Av (AvBufferUnref p)) frames
           (if frames = 0 then throw (RuntimeError ''Failed to allocate H/W frame context'')
            else bindp (call h_int (Av (AvHwFramesInit frames pool pixel_format))) (\<lambda>r.
            if r < 0 then throw_av RuntimeError ''Failed to initialize H/W frame context: '' r
            else
              thenp (emit (Av (AvBufferRef frames)))
              (thenp (emit (Av (AvDictSet ''qp'' ''21'')))
              (thenp (emit (Av (AvDictSet ''preset'' ''p5'')))
              (bindp (call h_int (Av (AvOpenVideoCodec ctx enc cfg))) (\<lambda>r.
               if r < 0 then throw_av CodecError ''Failed to open video codec: '' r
               else ret ctx)))))))))))))"

section \<open>What they hold\<close>

lemma attach_all_neutral: "neutral host_delta (attach_all lib fs)"
proof (induction fs rule: attach_all.induct)
  case (2 lib slot name fs)
  have "neutral host_delta (attach_symbol h_ptr (\<lambda>n. Dl (DlSym lib n)) name)"
    unfolding attach_symbol_def by (auto intro!: gains_call_bindp gains_ret gains_throw)
  with 2 show ?case by (auto intro!: neutral_bindp gains_ret)
qed (auto intro: gains_ret)

lemma load_library_neutral: "neutral host_delta (load_library file msg fs)"
  unfolding load_library_def by (auto intro!: gains_call_bindp gains_throw attach_all_neutral)

lemma throw_cuda_gains: "(\<And>e. G (Exc e) {#}) \<Longrightarrow> gains host_delta (throw_cuda r) G"
  unfolding throw_cuda_def by (auto intro!: gains_call_bindp gains_throw)

lemma throw_nvfbc_gains: "(\<And>e. G (Exc e) {#}) \<Longrightarrow> gains host_delta (throw_nvfbc h) G"
  unfolding throw_nvfbc_def by (auto intro!: gains_call_bindp gains_throw)

lemma create_cuda_context_gains:
  assumes "\<And>ctx. gains host_delta (k ctx) G" "\<And>e. G (Exc e) {#}"
  shows "gains host_delta (create_cuda_context k) G"
proof -
  have "gains host_delta (bindp (call h_made (Cuda (CuCtxCreate d))) (\<lambda>(res, ctx).
       if res \<noteq> CUDA_SUCCESS then throw_cuda res
       else owner (\<lambda>p. Cuda (CuCtxDestroy p)) ctx (k ctx))) G" for d
    by (rule gains_acquire [where b = "\<lambda>x. fst x = 0 \<and> snd x \<noteq> 0" and r = "\<lambda>x. CudaContext (snd x)"])
      (use assms in \<open>auto simp: CUDA_SUCCESS_def owner_def intro!: throw_cuda_gains scoped_guarded\<close>)
  then show ?thesis
    unfolding create_cuda_context_def using assms(2) by (auto intro!: gains_call_bindp throw_cuda_gains)
qed

lemma create_nvfbc_session_gains:
  assumes "\<And>h. gains host_delta (k h) G" "\<And>e. G (Exc e) {#}"
  shows "gains host_delta (create_nvfbc_session k) G"
proof -
  have "gains host_delta (bindp (call h_session (Fbc (FbcCreateHandle key))) (\<lambda>(r, handle).
       if r \<noteq> NVFBC_SUCCESS then throw (RuntimeError ''Couldn't create NvFBC instance'')
       else if handle = kNull then k handle
       else guarded (emit (Fbc (FbcDestroyHandle handle))) (k handle))) G" for key
    by (rule gains_acquire [where b = "\<lambda>x. fst x = 0 \<and> snd x \<noteq> kNull" and r = "\<lambda>x. FbcSession (snd x)"])
      (use assms in \<open>auto simp: NVFBC_SUCCESS_def intro!: gains_throw scoped_guarded\<close>)
  then show ?thesis
    unfolding create_nvfbc_session_def
    by (auto intro!: gains_call_bindp gains_peek_bindp gains_terminate split: sum.split)
qed

text \<open>
  The encoder: the codec context is the caller's when it is returned; on every other way out it is
  freed, and the hardware contexts are always given up.
\<close>

abbreviation only_returns :: "'a \<Rightarrow> 'a outcome \<Rightarrow> host_handle multiset \<Rightarrow> bool" where
  "only_returns x r L \<equiv> L = {#} \<and> (\<forall>y. r = Ret y \<longrightarrow> y = x)"

lemma open_video_codec_gains:
  "gains host_delta (thenp (emit (Av (AvBufferRef frames)))
     (thenp (emit (Av (AvDictSet ''qp'' ''21'')))
     (thenp (emit (Av (AvDictSet ''preset'' ''p5'')))
     (bindp (call h_int (Av (AvOpenVideoCodec ctx enc cfg))) (\<lambda>r.
        if r < 0 then throw_av CodecError m r else ret ctx))))) (only_returns ctx)"
  by (auto intro!: neutral_bindp [OF gains_emit] gains_call_bindp gains_throw_av gains_ret)

lemma with_frames_gains:
  "gains host_delta (bindp (call h_ptr (Av (AvHwFramesAlloc dev))) (\<lambda>frames.
     owner (\<lambda>p. Av (AvBufferUnref p)) frames
       (if frames = 0 then throw e
        else bindp (call h_int (Av (AvHwFramesInit frames pool pf))) (\<lambda>r.
          if r < 0 then throw_av RuntimeError m r
          else thenp (emit (Av (AvBufferRef frames)))
             (thenp (emit (Av (AvDictSet ''qp'' ''21'')))
             (thenp (emit (Av (AvDictSet ''preset'' ''p5'')))
             (bindp (call h_int (Av (AvOpenVideoCodec ctx enc cfg))) (\<lambda>r.
                if r < 0 then throw_av CodecError m' r else ret ctx)))))))) (only_returns ctx)"
  by (rule gains_owned_ptr [where h = Buffer])
    (auto intro!: gains_throw gains_throw_av open_video_codec_gains gains_call_bindp
        [where c = "Av (AvHwFramesInit frames pool pf)" for frames])

lemma create_video_encoder_gains:
  "gains host_delta (create_video_encoder n cuda pool width height ft pf)
     (\<lambda>r L. case r of Ret ctx \<Rightarrow> ctx \<noteq> 0 \<and> L = {#CodecContext ctx#} | _ \<Rightarrow> L = {#})"
proof -
  have device: "gains host_delta (bindp (call h_ptr (Av AvHwDeviceAlloc)) (\<lambda>dev.
      owner (\<lambda>p. Av (AvBufferUnref p)) dev
        (if dev = 0 then throw e
         else bindp (call h_int (Av (AvHwDeviceInit dev cuda))) (\<lambda>r.
           if r < 0 then throw_av RuntimeError m r else b dev)))) (only_returns ctx)"
    if "\<And>dev. gains host_delta (b dev) (only_returns ctx)" for e m b and ctx :: nat
    by (rule gains_owned_ptr [where h = Buffer])
      (use that in \<open>auto intro!: gains_throw gains_throw_av gains_call_bindp
        [where c = "Av (AvHwDeviceInit dev cuda)" for dev]\<close>)
  have codec: "gains host_delta (bindp (call h_ptr (Av (AvAllocCodecContext enc))) (\<lambda>ctx.
      if ctx = 0 then terminate else returned (\<lambda>p. Av (AvFreeCodecContext p)) ctx (b ctx)))
      (\<lambda>r L. case r of Ret ctx \<Rightarrow> ctx \<noteq> 0 \<and> L = {#CodecContext ctx#} | _ \<Rightarrow> L = {#})"
    if "\<And>ctx. gains host_delta (b ctx) (only_returns ctx)" for b enc
    by (rule gains_acquire [where b = "\<lambda>x. x \<noteq> 0" and r = CodecContext])
      (auto simp: returned_def intro!: gains_terminate scoped_returned gains_weaken [OF that] split: outcome.splits)
  show ?thesis
    unfolding create_video_encoder_def
    by (auto intro!: gains_call_bindp [where c = "Av (AvFindEncoder n)"] gains_throw gains_terminate codec
        device with_frames_gains split: option.split)
qed

end
