(* ===== verification/Platform.thy ===== *)
theory Platform
  imports Nvidia
begin

text \<open>
  The display platforms: \<open>src/platform/egl.cpp\<close>, \<open>opengl.cpp\<close>, \<open>wayland.cpp\<close> and
  \<open>src/display.cpp\<close>. The Wayland objects are held in a structure of owning pointers that the
  listener of the registry fills during a round trip; the structure is passed from step to step.
\<close>

section \<open>Function tables\<close>

definition load_egl :: "(string \<times> nat) list host_prog" where
  "load_egl = load_library ''libEGL.so.1'' ''Couldn't load libEGL.so.1: '' (map (\<lambda>n. (n, n))
     [''eglCreateImage'', ''eglDestroyImage'', ''eglGetError'', ''eglSwapInterval'', ''eglGetDisplay'',
      ''eglGetPlatformDisplay'', ''eglInitialize'', ''eglTerminate'', ''eglBindAPI'', ''eglChooseConfig'',
      ''eglCreateContext'', ''eglDestroyContext'', ''eglCreateWindowSurface'', ''eglDestroySurface'',
      ''eglQueryString'', ''eglGetProcAddress'', ''eglMakeCurrent'', ''eglSwapBuffers''])"

definition opengl_table :: "(string \<times> string) list" where
  "opengl_table = map (\<lambda>n. (n, n))
     [''glCreateShader'', ''glDeleteShader'', ''glShaderSource'', ''glGetError'', ''glCompileShader'',
      ''glGetShaderInfoLog'', ''glGetShaderiv'', ''glCreateProgram'', ''glAttachShader'',
      ''glGetAttachedShaders'', ''glLinkProgram'', ''glDeleteProgram'', ''glGetProgramiv'',
      ''glGetProgramInfoLog'', ''glValidateProgram'', ''glDetachShader'', ''glGetUniformLocation'',
      ''glEnableVertexArrayAttrib'', ''glDisableVertexArrayAttrib'', ''glGenVertexArrays'',
      ''glDeleteVertexArrays'', ''glBindVertexArray'', ''glGenBuffers'', ''glDeleteBuffers'',
      ''glBindBuffer'', ''glBufferData'', ''glNamedBufferData'', ''glGenTextures'', ''glDeleteTextures'',
      ''glBindTexture'', ''glTexImage2D'', ''glTexParameterf'', ''glTexParameteri'', ''glTexParameterfv'',
      ''glTexParameteriv'', ''glTexParameterIiv'', ''glTexParameterIuiv'', ''glVertexAttribPointer'',
      ''glUseProgram'', ''glDrawArrays'', ''glFramebufferTexture'', ''glCheckFramebufferStatus'',
      ''glGenFramebuffers'', ''glDeleteFramebuffers'', ''glBindFramebuffer'', ''glDrawBuffers'',
      ''glViewport'', ''glGetTexImage''] @
     [(''glGetTexLevelParameterfv'', ''glGetTexImage'')] @ map (\<lambda>n. (n, n))
     [''glGetTexLevelParameteriv'', ''glClear'', ''glClearColor'', ''glDrawElements'', ''glUniform1fv'',
      ''glUniform2fv'', ''glUniform3fv'', ''glUniform4fv'', ''glEnable'', ''glBlendFunc'']"

definition load_opengl :: "(string \<times> nat) list host_prog" where
  "load_opengl = load_library ''libGL.so.1'' ''Couldn't load libGL.so.1: '' opengl_table"

text \<open>
  The modules are local static variables: loaded by the first call, and by the next one again if
  that threw.
\<close>

definition static_module :: "'a option \<Rightarrow> 'a host_prog \<Rightarrow> 'a host_prog" where
  "static_module cached load = (case cached of Some m \<Rightarrow> ret m | None \<Rightarrow> load)"

definition egl :: "(string \<times> nat) list option \<Rightarrow> (string \<times> nat) list host_prog" where
  "egl cached = static_module cached load_egl"

definition get_opengl_module :: "(string \<times> nat) list option \<Rightarrow> (string \<times> nat) list host_prog" where
  "get_opengl_module cached = static_module cached load_opengl"

definition attach_extension_symbol :: "string \<Rightarrow> nat host_prog" where
  "attach_extension_symbol name = bindp (call h_ptr (Egl (EglGetProcAddress name))) (\<lambda>f.
     if f = 0 then throw (ModuleError (''Couldn't load extension symbol: '' @ name)) else ret f)"

definition load_gl_extensions ::
  "(string \<times> nat) list option \<Rightarrow> (string \<times> nat) list option \<Rightarrow> ((string \<times> nat) list \<times> (string \<times> nat) list) host_prog" where
  "load_gl_extensions opengl_cached egl_cached =
     bindp (get_opengl_module opengl_cached) (\<lambda>opengl.
     bindp (egl egl_cached) (\<lambda>egl_module.
     bindp (attach_extension_symbol ''glEGLImageTargetTexture2DOES'') (\<lambda>f.
     ret ((''glEGLImageTargetTexture2DOES'', f) # opengl, egl_module))))"

section \<open>X11\<close>

definition get_display :: "nat host_prog" where
  "get_display = bindp (call h_ptr (X XOpenDisplay)) (\<lambda>p.
     if p = 0 then throw (RuntimeError ''Failed to open X display'') else ret p)"

section \<open>Wayland\<close>

record wayland =
  wl_display :: nat
  wl_registry :: nat
  wl_output :: nat
  wl_compositor :: nat
  wl_surface :: nat
  wl_window :: nat
  output_width :: u32
  output_height :: u32

definition no_wayland :: wayland where
  "no_wayland = \<lparr>wl_display = 0, wl_registry = 0, wl_output = 0, wl_compositor = 0, wl_surface = 0,
     wl_window = 0, output_width = 0, output_height = 0\<rparr>"

text \<open>The deleters, run unless the pointer is null.\<close>

definition delete :: "(nat \<Rightarrow> wl_call) \<Rightarrow> nat \<Rightarrow> unit host_prog" where
  "delete del p = (if p = 0 then ret () else emit (Wl (del p)))"

text \<open>The destructor: the members in the reverse order of their declarations.\<close>

definition wayland_destruct :: "wayland \<Rightarrow> unit host_prog" where
  "wayland_destruct p =
     thenp (delete WlEglWindowDestroy (wl_window p))
    (thenp (delete WlSurfaceDestroy (wl_surface p))
    (thenp (delete WlCompositorDestroy (wl_compositor p))
    (thenp (delete WlOutputRelease (wl_output p))
    (thenp (delete WlRegistryDestroy (wl_registry p))
    (delete WlDisplayDisconnect (wl_display p))))))"

definition WL_OUTPUT_MODE_CURRENT :: "u32" where "WL_OUTPUT_MODE_CURRENT = 1"

definition output_mode :: "u32 \<Rightarrow> u32 \<Rightarrow> u32 \<Rightarrow> wayland \<Rightarrow> wayland" where
  "output_mode flags width height p =
     (if flags AND WL_OUTPUT_MODE_CURRENT = 0 then p
      else p\<lparr>output_width := width, output_height := height\<rparr>)"

text \<open>
  A second global of the same interface replaces the first. A listener is added to the output
  also when the binding failed, which libwayland does not survive.
\<close>

definition registry_global :: "u32 \<Rightarrow> string \<Rightarrow> u32 \<Rightarrow> wayland \<Rightarrow> wayland host_prog" where
  "registry_global name interface version p =
     (if interface = ''wl_compositor'' then
        bindp (call h_ptr (Wl (WlRegistryBind name interface version))) (\<lambda>c.
        thenp (delete WlCompositorDestroy (wl_compositor p))
        (ret (p\<lparr>wl_compositor := c\<rparr>)))
      else if interface = ''wl_output'' then
        bindp (call h_ptr (Wl (WlRegistryBind name interface version))) (\<lambda>out.
        thenp (delete WlOutputRelease (wl_output p))
        (if out = 0 then terminate
         else thenp (emit (Wl (WlOutputAddListener out))) (ret (p\<lparr>wl_output := out\<rparr>))))
      else ret p)"

fun wl_dispatch :: "wl_event list \<Rightarrow> wayland \<Rightarrow> wayland host_prog" where
  "wl_dispatch [] p = ret p"
| "wl_dispatch (Global name interface version # es) p =
     bindp (registry_global name interface version p) (wl_dispatch es)"
| "wl_dispatch (Mode flags width height # es) p = wl_dispatch es (output_mode flags width height p)"
| "wl_dispatch (OtherWlEvent # es) p = wl_dispatch es p"

definition wl_roundtrip :: "wayland \<Rightarrow> wayland host_prog" where
  "wl_roundtrip p = bindp (call h_wl_events (Wl (WlDisplayRoundtrip (wl_display p)))) (\<lambda>es. wl_dispatch es p)"

text \<open>
  The part of the set-up inside the two guards, with the exception it ends with. The first guard
  releases the registry, the second the output; then the object is returned, or destroyed.
\<close>

definition create_window :: "wayland \<Rightarrow> (wayland \<times> exn option) host_prog" where
  "create_window p =
     (if wl_compositor p = 0 then ret (p, Some (RuntimeError ''Failed to get Wayland compositor''))
      else bindp (call h_ptr (Wl (WlCompositorCreateSurface (wl_compositor p)))) (\<lambda>s.
        thenp (delete WlSurfaceDestroy (wl_surface p))
        (if s = 0 then ret (p\<lparr>wl_surface := s\<rparr>, Some (RuntimeError ''Failed to create Wayland surface''))
         else bindp (call h_ptr (Wl (WlEglWindowCreate s))) (\<lambda>win.
           thenp (delete WlEglWindowDestroy (wl_window p))
           (if win = 0 then ret (p\<lparr>wl_surface := s, wl_window := win\<rparr>, Some (RuntimeError ''Failed to create Wayland window''))
            else ret (p\<lparr>wl_surface := s, wl_window := win\<rparr>, None))))))"

definition release_output :: "wayland \<Rightarrow> wayland host_prog" where
  "release_output p = thenp (delete WlOutputRelease (wl_output p)) (ret (p\<lparr>wl_output := 0\<rparr>))"

definition release_registry :: "wayland \<Rightarrow> wayland host_prog" where
  "release_registry p = thenp (delete WlRegistryDestroy (wl_registry p)) (ret (p\<lparr>wl_registry := 0\<rparr>))"

definition initialize_wayland :: "nat \<Rightarrow> wayland host_prog" where
  "initialize_wayland display =
     (if display = 0 then throw (RuntimeError ''Failed to connect to Wayland display'')
      else bindp (call h_ptr (Wl (WlDisplayGetRegistry display))) (\<lambda>registry.
        if registry = 0 then
          thenp (wayland_destruct (no_wayland\<lparr>wl_display := display\<rparr>))
            (throw (RuntimeError ''Failed to get Wayland registry''))
        else
          thenp (emit (Wl (WlRegistryAddListener registry)))
         (bindp (wl_roundtrip (no_wayland\<lparr>wl_display := display, wl_registry := registry\<rparr>)) (\<lambda>p.
          bindp (wl_roundtrip p) (\<lambda>p.
          thenp (sc_expect (output_width p \<noteq> 0))
         (thenp (sc_expect (output_height p \<noteq> 0))
         (bindp (create_window p) (\<lambda>(p, failure).
          bindp (release_output p) (\<lambda>p.
          bindp (release_registry p) (\<lambda>p.
          case failure of None \<Rightarrow> ret p
          | Some e \<Rightarrow> thenp (wayland_destruct p) (throw e)))))))))))"

section \<open>EGL on Wayland\<close>

text \<open>
  A successful \<open>eglChooseConfig\<close> may find no configuration; the uninitialised one is then used,
  and nothing more is said.
\<close>

definition initialize_wayland_egl :: "nat \<Rightarrow> nat \<Rightarrow> (nat \<times> nat \<times> nat) host_prog" where
  "initialize_wayland_egl display window =
     bindp (call h_int (Egl EglBindAPI)) (\<lambda>r.
     if r = 0 then throw (RuntimeError ''Failed to bind EGL API'')
     else bindp (call h_ptr (Egl (EglGetDisplay display))) (\<lambda>dpy.
     if dpy = 0 then throw (RuntimeError ''Failed to get EGL display'')
     else bindp (call h_int (Egl (EglInitialize dpy))) (\<lambda>r.
     if r = 0 then throw (RuntimeError ''Failed to initialize EGL display'')
     else guarded_unless_ret (emit (Egl (EglTerminate dpy)))
       (bindp (call h_made (Egl (EglChooseConfig dpy))) (\<lambda>(r, num_config).
        if r = 0 then throw (RuntimeError ''Failed to select EGL config'')
        else if num_config = 0 then terminate
        else bindp (call h_ptr (Egl (EglCreateWindowSurface dpy window))) (\<lambda>surface.
          if surface = 0 then throw (RuntimeError ''Failed to create EGL surface'')
          else guarded_unless_ret (emit (Egl (EglDestroySurface surface)))
            (bindp (call h_ptr (Egl (EglCreateContext dpy))) (\<lambda>ctx.
             if ctx = 0 then throw (RuntimeError ''Failed to create EGL context'')
             else guarded_unless_ret (emit (Egl (EglDestroyContext ctx)))
               (bindp (call h_int (Egl (EglMakeCurrent dpy surface ctx))) (\<lambda>r.
                if r = 0 then throw (RuntimeError ''Couldn't select context'')
                else ret (dpy, surface, ctx)))))))))))"

text \<open>The destructor of the structure returned: context, surface, display.\<close>

definition wayland_egl_destruct :: "nat \<times> nat \<times> nat \<Rightarrow> unit host_prog" where
  "wayland_egl_destruct = (\<lambda>(dpy, surface, ctx).
     thenp (emit (Egl (EglDestroyContext ctx)))
    (thenp (emit (Egl (EglDestroySurface surface)))
    (emit (Egl (EglTerminate dpy)))))"

section \<open>What they hold\<close>

lemma egl_neutral: "neutral host_delta (egl cached)"
  unfolding egl_def static_module_def load_egl_def
  by (auto split: option.split intro: gains_ret load_library_neutral)

lemma load_gl_extensions_neutral: "neutral host_delta (load_gl_extensions opengl_cached egl_cached)"
  unfolding load_gl_extensions_def get_opengl_module_def static_module_def load_opengl_def attach_extension_symbol_def
  by (auto split: option.split intro!: neutral_bindp load_library_neutral egl_neutral gains_ret gains_throw
      gains_call_bindp)

definition ptr_held :: "(nat \<Rightarrow> host_handle) \<Rightarrow> nat \<Rightarrow> host_handle multiset" where
  "ptr_held h p = (if p = 0 then {#} else {#h p#})"

definition wl_held :: "wayland \<Rightarrow> host_handle multiset" where
  "wl_held p = ptr_held WlWindow (wl_window p) + (ptr_held WlSurface (wl_surface p) +
     (ptr_held WlCompositor (wl_compositor p) + (ptr_held WlOutput (wl_output p) +
     (ptr_held WlRegistry (wl_registry p) + ptr_held WlDisplay (wl_display p)))))"

lemma scoped_delete:
  assumes "\<And>w t H. wl_delta w t (del p) H = release (h p) H"
  shows "scoped host_delta (ptr_held h p + R) (delete del p) (\<lambda>r L. r = Ret () \<and> L = R)"
  using assms by (auto simp: delete_def ptr_held_def scoped_def release_def intro: held_by_ret held_by_emit)

lemma scoped_delete_then:
  assumes "\<And>w t H. wl_delta w t (del p) H = release (h p) H" and "scoped host_delta R (f ()) G"
  shows "scoped host_delta (ptr_held h p + R) (bindp (delete del p) f) G"
  by (rule scoped_seq, rule scoped_delete [where del = del and h = h]) (use assms in auto)

lemma wayland_destruct_releases:
  "scoped host_delta (wl_held p) (wayland_destruct p) (\<lambda>r L. r = Ret () \<and> L = {#})"
proof -
  have last: "scoped host_delta (ptr_held WlDisplay (wl_display p))
      (delete WlDisplayDisconnect (wl_display p)) (\<lambda>r L. r = Ret () \<and> L = {#})"
    using scoped_delete [of WlDisplayDisconnect "wl_display p" WlDisplay "{#}"] by simp
  show ?thesis
    unfolding wayland_destruct_def wl_held_def
    by (intro scoped_delete_then last) simp_all
qed

abbreviation keeps_wl :: "wayland outcome \<Rightarrow> host_handle multiset \<Rightarrow> bool" where
  "keeps_wl r L \<equiv> \<exists>q. r = Ret q \<and> L = wl_held q"

text \<open>A pointer that is replaced: what is held changes by the old and the new one.\<close>

lemma wl_held_reset:
  "ptr_held WlCompositor c + wl_held p = ptr_held WlCompositor (wl_compositor p) + wl_held (p\<lparr>wl_compositor := c\<rparr>)"
  "ptr_held WlOutput c + wl_held p = ptr_held WlOutput (wl_output p) + wl_held (p\<lparr>wl_output := c\<rparr>)"
  "ptr_held WlRegistry c + wl_held p = ptr_held WlRegistry (wl_registry p) + wl_held (p\<lparr>wl_registry := c\<rparr>)"
  "ptr_held WlSurface c + wl_held p = ptr_held WlSurface (wl_surface p) + wl_held (p\<lparr>wl_surface := c\<rparr>)"
  "ptr_held WlWindow c + wl_held p = ptr_held WlWindow (wl_window p) + wl_held (p\<lparr>wl_window := c\<rparr>)"
  by (auto simp: wl_held_def ptr_held_def)

lemma scoped_acquire_ptr:
  assumes "\<And>w t. host_delta w (t @ [c]) c = acquire (h_ptr w (t @ [c]) \<noteq> 0) (h (h_ptr w (t @ [c])))"
    and "\<And>x. scoped host_delta (ptr_held h x + R) (f x) G"
  shows "scoped host_delta R (bindp (call h_ptr c) f) G"
proof (rule scoped_acquire [where b = "\<lambda>x. x \<noteq> 0" and r = h])
  show "scoped host_delta R (f x) G" if "\<not> x \<noteq> 0" for x
    using assms(2) [of x] that by (simp add: ptr_held_def)
  show "scoped host_delta (add_mset (h x) R) (f x) G" if "x \<noteq> 0" for x
    using assms(2) [of x] that by (simp add: ptr_held_def)
qed (use assms(1) in simp)

lemmas acquire_compositor = scoped_acquire_ptr [where c = "Wl (WlRegistryBind name ''wl_compositor'' version)" and h = WlCompositor for name version]
lemmas acquire_output = scoped_acquire_ptr [where c = "Wl (WlRegistryBind name ''wl_output'' version)" and h = WlOutput for name version]
lemmas acquire_surface = scoped_acquire_ptr [where c = "Wl (WlCompositorCreateSurface x)" and h = WlSurface for x]
lemmas acquire_window = scoped_acquire_ptr [where c = "Wl (WlEglWindowCreate x)" and h = WlWindow for x]

lemma scoped_reset:
  assumes "R = ptr_held h p + R'" and "\<And>w t H. wl_delta w t (del p) H = release (h p) H"
    and "scoped host_delta R' (f ()) G"
  shows "scoped host_delta R (bindp (delete del p) f) G"
  unfolding assms(1) by (rule scoped_delete_then) (use assms in auto)

lemma registry_global_keeps: "scoped host_delta (wl_held p) (registry_global name i version p) keeps_wl"
  unfolding registry_global_def
  by (auto intro!: acquire_compositor acquire_output
      scoped_reset [OF wl_held_reset(1)] scoped_reset [OF wl_held_reset(2)]
      scoped_neutral_emit scoped_terminate scoped_ret)

lemma wl_dispatch_keeps: "scoped host_delta (wl_held p) (wl_dispatch es p) keeps_wl"
proof (induction es p rule: wl_dispatch.induct)
  case (2 name i version es p)
  show ?case unfolding wl_dispatch.simps
    by (rule scoped_seq [OF registry_global_keeps]) (use 2 in auto)
next
  case (3 flags width height es p)
  have "wl_held (output_mode flags width height p) = wl_held p"
    by (simp add: output_mode_def wl_held_def)
  with 3 show ?case by simp
qed (auto intro: scoped_ret)

lemma wl_roundtrip_keeps: "scoped host_delta (wl_held p) (wl_roundtrip p) keeps_wl"
  unfolding wl_roundtrip_def by (intro scoped_neutral_call wl_dispatch_keeps) simp

lemma create_window_keeps:
  "scoped host_delta (wl_held p) (create_window p) (\<lambda>r L. \<exists>q e. r = Ret (q, e) \<and> L = wl_held q)"
proof -
  have window: "ptr_held WlWindow c + wl_held (p\<lparr>wl_surface := s\<rparr>) =
      ptr_held WlWindow (wl_window p) + wl_held (p\<lparr>wl_surface := s, wl_window := c\<rparr>)" for s c
    using wl_held_reset(5) [of c "p\<lparr>wl_surface := s\<rparr>"] by simp
  show ?thesis
    unfolding create_window_def
    by (auto intro!: acquire_surface acquire_window
        scoped_reset [OF wl_held_reset(4)] scoped_reset [OF window] scoped_ret)
qed

lemma release_output_keeps: "scoped host_delta (wl_held p) (release_output p) keeps_wl"
  using wl_held_reset(2) [of 0 p] unfolding release_output_def
  by (auto simp: ptr_held_def intro!: scoped_reset [where h = WlOutput] scoped_ret)

lemma release_registry_keeps: "scoped host_delta (wl_held p) (release_registry p) keeps_wl"
  using wl_held_reset(3) [of 0 p] unfolding release_registry_def
  by (auto simp: ptr_held_def intro!: scoped_reset [where h = WlRegistry] scoped_ret)

text \<open>
  The display goes in; it comes out as part of the object, or is released with everything the
  set-up acquired.
\<close>

abbreviation wayland_or_nothing :: "wayland outcome \<Rightarrow> host_handle multiset \<Rightarrow> bool" where
  "wayland_or_nothing r L \<equiv> (case r of Ret p \<Rightarrow> L = wl_held p | _ \<Rightarrow> L = {#})"

lemma destruct_and_throw:
  "scoped host_delta (wl_held p) (thenp (wayland_destruct p) (throw e)) wayland_or_nothing"
  by (rule scoped_seq [OF wayland_destruct_releases]) (auto intro: scoped_throw)

lemma initialize_wayland_scoped:
  assumes "display \<noteq> 0"
  shows "scoped host_delta {#WlDisplay display#} (initialize_wayland display) wayland_or_nothing"
proof -
  have start: "{#WlDisplay display#} = wl_held (no_wayland\<lparr>wl_display := display\<rparr>)"
    using assms by (simp add: wl_held_def ptr_held_def no_wayland_def)
  have registry: "ptr_held WlRegistry x + wl_held (no_wayland\<lparr>wl_display := display\<rparr>) =
      wl_held (no_wayland\<lparr>wl_display := display, wl_registry := x\<rparr>)" for x
    by (simp add: wl_held_def ptr_held_def no_wayland_def)
  have none: "no_wayland\<lparr>wl_display := display, wl_registry := 0\<rparr> = no_wayland\<lparr>wl_display := display\<rparr>"
    by (simp add: no_wayland_def)
  have last: "scoped host_delta (wl_held p)
      (case failure of None \<Rightarrow> ret p | Some e \<Rightarrow> thenp (wayland_destruct p) (throw e)) wayland_or_nothing" for p failure
    using destruct_and_throw by (auto intro: scoped_ret split: option.split)
  have body: "scoped host_delta (wl_held p)
      (bindp (create_window p) (\<lambda>(p, failure).
        bindp (release_output p) (\<lambda>p.
        bindp (release_registry p) (\<lambda>p.
        case failure of None \<Rightarrow> ret p | Some e \<Rightarrow> thenp (wayland_destruct p) (throw e))))) wayland_or_nothing" for p
    by (rule scoped_seq [OF create_window_keeps])
      (auto intro!: scoped_seq [OF release_output_keeps] scoped_seq [OF release_registry_keeps] last)
  have checks: "scoped host_delta R (sc_expect b) (\<lambda>r L. r = Ret () \<and> L = R)" for R b
    by (auto simp: sc_expect_def contract_check_failed_def intro: scoped_ret scoped_terminate)
  show ?thesis
    unfolding initialize_wayland_def if_not_P [OF assms] start
    by (rule scoped_acquire_ptr [where h = WlRegistry])
      (auto simp: registry none ptr_held_def [of _ 0] intro!: destruct_and_throw scoped_neutral_emit
        scoped_seq [OF wl_roundtrip_keeps] scoped_seq [OF checks] body)
qed

definition egl_held :: "nat \<times> nat \<times> nat \<Rightarrow> host_handle multiset" where
  "egl_held = (\<lambda>(dpy, surface, ctx). {#EglDisplay dpy, EglSurface surface, EglContext ctx#})"

abbreviation egl_or_nothing :: "host_handle multiset \<Rightarrow> (nat \<times> nat \<times> nat) outcome \<Rightarrow> host_handle multiset \<Rightarrow> bool" where
  "egl_or_nothing R r L \<equiv> (case r of Ret x \<Rightarrow> egl_held x = R + L | _ \<Rightarrow> L = {#})"

lemma initialize_wayland_egl_gains:
  "gains host_delta (initialize_wayland_egl display window) (egl_or_nothing {#})"
proof -
  have made: "gains host_delta (bindp (call h_int (Egl (EglMakeCurrent d s c)))
      (\<lambda>r. if r = 0 then throw e else ret (d, s, c))) (egl_or_nothing {#EglDisplay d, EglSurface s, EglContext c#})"
    for d s c e
    by (auto simp: egl_held_def intro!: gains_call_bindp gains_throw gains_ret)
  have ctx: "gains host_delta (bindp (call h_ptr (Egl (EglCreateContext d))) (\<lambda>ctx.
      if ctx = 0 then throw e
      else guarded_unless_ret (emit (Egl (EglDestroyContext ctx)))
        (bindp (call h_int (Egl (EglMakeCurrent d s ctx)))
          (\<lambda>r. if r = 0 then throw e' else ret (d, s, ctx))))) (egl_or_nothing {#EglDisplay d, EglSurface s#})"
    for d s e e'
    by (rule gains_acquire [where b = "\<lambda>x. x \<noteq> 0" and r = EglContext])
      (auto intro!: gains_throw scoped_returned gains_weaken [OF made] split: outcome.splits)
  have surface: "gains host_delta (bindp (call h_ptr (Egl (EglCreateWindowSurface d window))) (\<lambda>surface.
      if surface = 0 then throw e
      else guarded_unless_ret (emit (Egl (EglDestroySurface surface)))
        (bindp (call h_ptr (Egl (EglCreateContext d))) (\<lambda>ctx.
          if ctx = 0 then throw e'
          else guarded_unless_ret (emit (Egl (EglDestroyContext ctx)))
            (bindp (call h_int (Egl (EglMakeCurrent d surface ctx)))
              (\<lambda>r. if r = 0 then throw e'' else ret (d, surface, ctx))))))) (egl_or_nothing {#EglDisplay d#})"
    for d e e' e''
    by (rule gains_acquire [where b = "\<lambda>x. x \<noteq> 0" and r = EglSurface])
      (auto intro!: gains_throw scoped_returned gains_weaken [OF ctx] split: outcome.splits)
  have display: "gains host_delta (bindp (call h_int (Egl (EglInitialize d))) (\<lambda>r.
      if r = 0 then throw e
      else guarded_unless_ret (emit (Egl (EglTerminate d)))
        (bindp (call h_made (Egl (EglChooseConfig d))) (\<lambda>(r, num_config).
          if r = 0 then throw e1 else if num_config = 0 then terminate else p))))
      (egl_or_nothing {#})" if "gains host_delta p (egl_or_nothing {#EglDisplay d#})" for d e e1 p
    by (rule gains_acquire [where b = "\<lambda>x. x \<noteq> 0" and r = "\<lambda>_. EglDisplay d"])
      (auto intro!: gains_throw gains_terminate gains_call_bindp scoped_returned gains_weaken [OF that] split: outcome.splits)
  show ?thesis
    unfolding initialize_wayland_egl_def
    by (auto intro!: gains_call_bindp gains_throw display surface)
qed

lemma wayland_egl_destruct_releases:
  "scoped host_delta (egl_held x) (wayland_egl_destruct x) (\<lambda>r L. r = Ret () \<and> L = {#})"
proof -
  obtain d s c where x: "x = (d, s, c)" by (cases x)
  have last: "scoped host_delta {#EglDisplay d#} (emit (Egl (EglTerminate d))) (\<lambda>r L. r = Ret () \<and> L = {#})"
    by (auto simp: scoped_def release_def intro: held_by_emit)
  show ?thesis
    unfolding x wayland_egl_destruct_def egl_held_def
    by (auto intro!: scoped_release [where c = "Egl (EglDestroyContext c)" and r = "EglContext c"]
        scoped_release [where c = "Egl (EglDestroySurface s)" and r = "EglSurface s"] last)
qed

end
