(* ===== verification/Signals.thy ===== *)
theory Signals
  imports Host
begin

text \<open>
  The signal service, \<open>src/services/signal_service.cpp\<close> and \<open>.hpp\<close>: signals are blocked for the
  thread, read from a descriptor and given to the handlers. A handler is named by its signal; its
  call is an event, and what it throws is the world's answer.
\<close>

section \<open>The service\<close>

record signal_service =
  notify_fd :: int
  handlers :: "u32 list"

definition sizeof_siginfo :: nat where "sizeof_siginfo = 128"

definition throw_errno :: "'a host_prog" where
  "throw_errno = bindp (call h_int (Sig SigErrNo)) (\<lambda>e. throw (SystemError e))"

definition check_result :: "int \<Rightarrow> 'a host_prog \<Rightarrow> 'a host_prog" where
  "check_result r k = (if r < 0 then throw_errno else k)"

text \<open>
  The constructor. When the second check fails the object was not constructed, and nothing closes
  the descriptor.
\<close>

definition signal_service_construct :: "signal_service host_prog" where
  "signal_service_construct =
     bindp (call h_int (Sig NewSignalFd)) (\<lambda>fd.
     check_result fd
     (bindp (call h_int (Sig GetSignalMask)) (\<lambda>r.
      check_result r (ret \<lparr>notify_fd = fd, handlers = []\<rparr>))))"

definition signal_service_move :: "signal_service \<Rightarrow> signal_service \<times> signal_service" where
  "signal_service_move other =
     (\<lparr>notify_fd = notify_fd other, handlers = handlers other\<rparr>, other\<lparr>notify_fd := - 1, handlers := []\<rparr>)"

definition signal_service_destruct :: "signal_service \<Rightarrow> unit host_prog" where
  "signal_service_destruct self = emit (Sig (CloseSignalFd (notify_fd self)))"

definition block_signal :: "u32 \<Rightarrow> int \<Rightarrow> unit host_prog" where
  "block_signal sig fd =
     bindp (call h_int (Sig GetSignalMask)) (\<lambda>r. check_result r
     (bindp (call h_int (Sig (AddSignal sig))) (\<lambda>r. check_result r
     (bindp (call h_int (Sig SetSignalMask)) (\<lambda>r. check_result r
     (bindp (call h_int (Sig (SetSignalFd fd))) (\<lambda>r. check_result r (ret ()))))))))"

text \<open>\<open>emplace\<close> keeps the handler that is already there.\<close>

definition add_signal_handler :: "u32 \<Rightarrow> signal_service \<Rightarrow> signal_service host_prog" where
  "add_signal_handler sig self =
     thenp (block_signal sig (notify_fd self))
     (ret (if sig \<in> set (handlers self) then self else self\<lparr>handlers := sig # handlers self\<rparr>))"

definition signal_on_init :: "(int \<Rightarrow> 'r \<Rightarrow> 'r) \<Rightarrow> signal_service \<Rightarrow> 'r \<Rightarrow> 'r" where
  "signal_on_init reg self = reg (notify_fd self)"

definition signal_on_uninit :: "unit host_prog" where
  "signal_on_uninit = emit (Sig SetSignalMask)"

definition handle_signal :: "signal_service \<Rightarrow> u32 \<Rightarrow> unit host_prog" where
  "handle_signal self signo =
     (if signo \<notin> set (handlers self) then ret ()
      else bindp (call h_fails (Sig (HandleSignal signo))) (\<lambda>e.
        case e of None \<Rightarrow> ret () | Some e \<Rightarrow> throw e))"

text \<open>
  The loop ends when the descriptor has nothing more; the fuel bounds the number of reads. The
  buffer holds one item.
\<close>

fun dispatch_signal :: "nat \<Rightarrow> signal_service \<Rightarrow> unit host_prog" where
  "dispatch_signal 0 self = terminate"
| "dispatch_signal (Suc fuel) self =
     bindp (call h_signal (Sig (ReadSignalFd (notify_fd self)))) (\<lambda>(read_result, signo).
     if read_result < 0 then
       bindp (call h_int (Sig SigErrNo)) (\<lambda>e.
       if e = EAGAIN then ret () else throw (SystemError e))
     else let items = nat read_result div sizeof_siginfo in
       thenp (sc_expect (items \<le> 1))
       (thenp (whenp (items = 1) (handle_signal self signo))
       (if items < 1 then ret () else dispatch_signal fuel self)))"

section \<open>What the service holds\<close>

lemma check_result_gains:
  "(\<And>e. G (Exc e) {#}) \<Longrightarrow> gains host_delta k G \<Longrightarrow> gains host_delta (check_result r k) G"
  unfolding check_result_def throw_errno_def by (auto intro!: gains_call_bindp gains_throw)

lemma check_result_scoped:
  "(\<And>e. G (Exc e) R) \<Longrightarrow> scoped host_delta R k G \<Longrightarrow> scoped host_delta R (check_result r k) G"
  unfolding check_result_def throw_errno_def by (auto intro!: scoped_neutral_call scoped_throw)

lemma block_signal_neutral: "neutral host_delta (block_signal sig fd)"
  unfolding block_signal_def by (auto intro!: gains_call_bindp check_result_gains gains_ret)

lemma add_signal_handler_keeps:
  "gains host_delta (add_signal_handler sig self)
     (\<lambda>r L. L = {#} \<and> (\<forall>s. r = Ret s \<longrightarrow> notify_fd s = notify_fd self))"
  unfolding add_signal_handler_def by (rule neutral_bindp [OF block_signal_neutral]) (auto intro: gains_ret)

text \<open>A constructed service has its descriptor; a failed construction may leave one open.\<close>

lemma signal_service_construct_gains:
  "gains host_delta signal_service_construct (\<lambda>r L. case r of
     Ret s \<Rightarrow> notify_fd s \<ge> 0 \<and> L = {#SignalFd (notify_fd s)#}
   | _ \<Rightarrow> \<exists>fd. L \<subseteq># {#SignalFd fd#})"
proof -
  have "gains host_delta (bindp (call h_int (Sig NewSignalFd)) (\<lambda>fd. check_result fd
     (bindp (call h_int (Sig GetSignalMask)) (\<lambda>r. check_result r (ret \<lparr>notify_fd = fd, handlers = []\<rparr>)))))
     (\<lambda>r L. case r of Ret s \<Rightarrow> notify_fd s \<ge> 0 \<and> L = {#SignalFd (notify_fd s)#} | _ \<Rightarrow> \<exists>fd. L \<subseteq># {#SignalFd fd#})"
  proof (rule gains_acquire [where b = "\<lambda>fd. fd \<ge> 0" and r = SignalFd], goal_cases)
    case (2 fd)
    then show ?case unfolding check_result_def throw_errno_def by (auto intro!: gains_call_bindp gains_throw)
  next
    case (3 fd)
    then show ?case by (auto intro!: check_result_scoped scoped_neutral_call scoped_ret)
  qed auto
  then show ?thesis unfolding signal_service_construct_def .
qed

section \<open>What dispatching does\<close>

definition reads :: "host_call list \<Rightarrow> nat" where
  "reads t = length (filter (\<lambda>c. case c of Sig (ReadSignalFd fd) \<Rightarrow> True | _ \<Rightarrow> False) t)"

definition handled :: "host_call list \<Rightarrow> u32 list" where
  "handled t = concat (map (\<lambda>c. case c of Sig (HandleSignal s) \<Rightarrow> [s] | _ \<Rightarrow> []) t)"

text \<open>
  A descriptor with a queue of signals: each read takes the next one, and then there is nothing.
  The handlers do not throw.
\<close>

definition signal_queue :: "u32 list \<Rightarrow> host_world \<Rightarrow> bool" where
  "signal_queue sigs w \<longleftrightarrow>
     (\<forall>t. h_signal w t = (if reads t \<le> length sigs then (int sizeof_siginfo, sigs ! (reads t - 1)) else (- 1, 0))) \<and>
     (\<forall>t. last t = Sig SigErrNo \<longrightarrow> h_int w t = EAGAIN) \<and> (\<forall>t. h_fails w t = None)"

lemma reads_append [simp]: "reads (t @ t') = reads t + reads t'"
  and handled_append [simp]: "handled (t @ t') = handled t @ handled t'"
  by (simp_all add: reads_def handled_def)

lemma reads_Nil [simp]: "reads [] = 0" and handled_Nil [simp]: "handled [] = []"
  by (simp_all add: reads_def handled_def)

lemma reads_read [simp]: "reads [Sig (ReadSignalFd fd)] = 1" "reads [Sig SigErrNo] = 0" "reads [Sig (HandleSignal s)] = 0"
  and handled_one [simp]: "handled [Sig (HandleSignal s)] = [s]" "handled [Sig SigErrNo] = []"
    "handled [Sig (ReadSignalFd fd)] = []"
  by (simp_all add: reads_def handled_def)

lemma handle_signal_run:
  assumes "signal_queue sigs w"
  shows "\<exists>new. handle_signal self s w t = (Ret (), t @ new) \<and> reads new = 0 \<and>
    handled new = (if s \<in> set (handlers self) then [s] else [])"
  using assms by (auto simp: handle_signal_def signal_queue_def prog_run bindp_call_run)

lemma dispatch_signal_run:
  assumes q: "signal_queue sigs w" and "reads t \<le> length sigs" "length sigs - reads t < fuel"
  shows "\<exists>new. dispatch_signal fuel self w t = (Ret (), t @ new) \<and>
    handled new = filter (\<lambda>s. s \<in> set (handlers self)) (drop (reads t) sigs)"
  using assms(2,3)
proof (induction fuel arbitrary: t)
  case (Suc fuel)
  let ?r = "Sig (ReadSignalFd (notify_fd self))"
  have read: "h_signal w (t @ [?r]) = (if Suc (reads t) \<le> length sigs
      then (int sizeof_siginfo, sigs ! reads t) else (- 1, 0))"
    using q by (simp add: signal_queue_def)
  show ?case
  proof (cases "reads t = length sigs")
    case True
    have "h_int w (t @ [?r, Sig SigErrNo]) = EAGAIN" using q by (simp add: signal_queue_def)
    then show ?thesis using True read
      by (simp add: bindp_call_run prog_run) (simp add: handled_def)
  next
    case False
    with Suc.prems have lt: "reads t < length sigs" by simp
    obtain es where es: "handle_signal self (sigs ! reads t) w (t @ [?r]) = (Ret (), (t @ [?r]) @ es)"
      "reads es = 0" "handled es = (if sigs ! reads t \<in> set (handlers self) then [sigs ! reads t] else [])"
      using handle_signal_run [OF q] by blast
    have count: "reads (t @ ?r # es) = Suc (reads t)"
      using es(2) reads_append [of "[?r]" es] by simp
    have "length sigs - Suc (reads t) < fuel" using lt Suc.prems by linarith
    with Suc.IH [of "t @ ?r # es", unfolded count] lt obtain new where
      new: "dispatch_signal fuel self w (t @ ?r # es) = (Ret (), t @ ?r # es @ new)"
      "handled new = filter (\<lambda>s. s \<in> set (handlers self)) (drop (Suc (reads t)) sigs)"
      by auto
    have "dispatch_signal (Suc fuel) self w t = (Ret (), t @ ?r # es @ new)"
      using lt read es(1) new(1)
      by (simp add: bindp_call_run sizeof_siginfo_def bindp_run prog_run)
    moreover have "handled (?r # es @ new) = filter (\<lambda>s. s \<in> set (handlers self)) (drop (reads t) sigs)"
      using es(3) new(2) lt handled_append [of "[?r]" "es @ new"]
      by (simp add: Cons_nth_drop_Suc [symmetric])
    ultimately show ?thesis by blast
  qed
qed simp

lemma signals_read:
  "signal_queue sigs w \<Longrightarrow> length sigs < fuel \<Longrightarrow> \<exists>new. dispatch_signal fuel self w [] = (Ret (), new) \<and>
    handled new = filter (\<lambda>s. s \<in> set (handlers self)) sigs"
  using dispatch_signal_run [of sigs w "[]" fuel self] by simp

section \<open>Properties\<close>

text \<open>
  (C26) Delivery of signals. However many signals are waiting, one dispatch reads them all, calls
  the handler of each signal that has one, in the order of arrival and once each, and returns.
\<close>

theorem signals_delivered_in_order:
  assumes "signal_queue sigs w" and "length sigs < fuel"
  shows "\<exists>new. dispatch_signal fuel self w [] = (Ret (), new) \<and>
    handled new = filter (\<lambda>s. s \<in> set (handlers self)) sigs"
  by (rule signals_read [OF assms])

definition demo_signals :: host_world where
  "demo_signals = \<lparr>h_io = \<lambda>_. demo_io_world 0, h_int = \<lambda>_. EAGAIN, h_ptr = \<lambda>_. 0, h_made = \<lambda>_. (0, 0),
     h_session = \<lambda>_. (0, 0), h_text = \<lambda>_. [], h_cuda_text = \<lambda>_. None, h_env = \<lambda>_. None,
     h_wl_events = \<lambda>_. [], h_codec_rates = \<lambda>_. None, h_codec_formats = \<lambda>_. None,
     h_codec_name = \<lambda>_. [], h_frame_size = \<lambda>_. 0, h_av_strerror = \<lambda>_. None,
     h_signal = \<lambda>t. if reads t \<le> 3 then (128, [2, 17, 2] ! (reads t - 1)) else (- 1, 0),
     h_byte_order = little_endian, h_fails = \<lambda>_. None\<rparr>"

theorem signals_delivered_in_order_witness:
  "\<exists>new. dispatch_signal 4 \<lparr>notify_fd = 5, handlers = [2]\<rparr> demo_signals [] = (Ret (), new) \<and>
     handled new = [2, 2]"
proof -
  have "signal_queue [2, 17, 2] demo_signals"
    by (simp add: signal_queue_def demo_signals_def sizeof_siginfo_def)
  from signals_delivered_in_order [OF this, of 4 "\<lparr>notify_fd = 5, handlers = [2]\<rparr>"] show ?thesis by simp
qed

end
