(* ===== verification/Session.thy ===== *)
theory Session
  imports Platform Signals Cmd_Line
begin

text \<open>
  A recording from the command line to the end of the process: \<open>src/main.cpp\<close>. \<open>run\<close> and
  \<open>run_wayland\<close> set up the same chain of objects in nested scopes (the container, the audio
  codec, the video codec, the output file, the contexts) and share the code that the source
  repeats in both; each object is released when its scope ends. The run of the three contexts,
  modelled in Shutdown, is one event here; what it rethrows is the world's answer.
\<close>

section \<open>Signals and the loop\<close>

definition SIGINT_no :: u32 where "SIGINT_no = 2"

fun throw_if :: "exn option \<Rightarrow> unit host_prog" where
  "throw_if None = ret ()"
| "throw_if (Some e) = throw e"

text \<open>
  \<open>services().add<SignalService>(SignalService {})\<close>: the temporary is moved into the registry and
  destroyed. If the registry has the service already, the new one is destroyed too.
\<close>

definition add_signal_service :: "signal_service option \<Rightarrow> signal_service host_prog" where
  "add_signal_service present =
     bindp signal_service_construct (\<lambda>temporary.
     let (svc, temporary) = signal_service_move temporary in
     case present of
       None \<Rightarrow> thenp (signal_service_destruct temporary) (ret svc)
     | Some s \<Rightarrow> thenp (signal_service_destruct svc) (thenp (signal_service_destruct temporary) (ret s)))"

definition session_run_loop :: "signal_service \<Rightarrow> unit host_prog" where
  "session_run_loop svc =
     bindp (add_signal_service (Some svc)) (\<lambda>svc.
     bindp (add_signal_handler SIGINT_no svc) (\<lambda>svc.
     bindp (call h_fails RunContexts) throw_if))"

section \<open>The audio codec\<close>

definition apply_audio_codec_modifiers :: "string \<Rightarrow> unit host_prog" where
  "apply_audio_codec_modifiers codec_name =
     (if codec_name = ''libopus'' then
        thenp (emit (Av (AvDictSet ''frame_duration'' ''40''))) (emit (Av (AvDictSet ''vbr'' ''0'')))
      else ret ())"

definition add_stream ::
  "nat \<Rightarrow> nat \<Rightarrow> string \<Rightarrow> string \<Rightarrow> (nat \<Rightarrow> 'a host_prog) \<Rightarrow> 'a host_prog" where
  "add_stream fc codec_ctx no_stream no_parameters k =
     bindp (call h_ptr (Av (AvNewStream fc codec_ctx))) (\<lambda>stream.
     if stream = 0 then throw (CodecError no_stream)
     else bindp (call h_int (Av (AvParametersFromContext stream codec_ctx))) (\<lambda>r.
       if r < 0 then throw_av CodecError no_parameters r else k stream))"

definition open_audio_codec :: "Parameters \<Rightarrow> nat \<Rightarrow> nat \<Rightarrow> sample_format \<Rightarrow> unit host_prog" where
  "open_audio_codec params encoder ctx fmt =
     bindp (computed (convert_to_libav_format fmt)) (\<lambda>sample_fmt.
     bindp (peek h_codec_name) (\<lambda>name.
     thenp (apply_audio_codec_modifiers (name encoder))
     (bindp (call h_int (Av (AvOpenAudioCodec ctx encoder \<lparr>ac_sample_rate = p_sample_rate params,
         ac_sample_fmt = sample_fmt, ac_bit_rate = 128000, ac_time_base = (1, p_sample_rate params)\<rparr>))) (\<lambda>r.
      if r < 0 then throw_av CodecError ''Failed to open audio codec: '' r else ret ()))))"

definition create_audio_codec :: "Parameters \<Rightarrow> (sample_format \<Rightarrow> nat \<Rightarrow> 'a host_prog) \<Rightarrow> 'a host_prog" where
  "create_audio_codec params k =
     bindp (call h_ptr (Av (AvFindEncoder (p_audio_encoder params)))) (\<lambda>encoder.
     if encoder = 0 then throw (CodecError ''Failed to find required audio codec'')
     else bindp (peek h_codec_rates) (\<lambda>rates.
     if \<not> is_sample_rate_supported (of_int (p_sample_rate params)) (rates encoder)
     then throw (RuntimeError (''Sample rate not supported by codec: '' @ to_string (p_sample_rate params)))
     else bindp (peek h_codec_formats) (\<lambda>formats.
     bindp (computed (find_supported_formats (formats encoder))) (\<lambda>supported_formats.
     case supported_formats of
       [] \<Rightarrow> throw (RuntimeError ''No supported sample formats found'')
     | fmt # _ \<Rightarrow>
         bindp (call h_ptr (Av (AvAllocCodecContext encoder))) (\<lambda>ctx.
         owner (\<lambda>p. Av (AvFreeCodecContext p)) ctx
           (if ctx = 0 then throw (CodecError ''Failed to allocate audio codec context'')
            else thenp (open_audio_codec params encoder ctx fmt) (k fmt ctx)))))))"

text \<open>The container, with the audio stream in it.\<close>

definition with_audio ::
  "Parameters \<Rightarrow> (nat \<Rightarrow> sample_format \<Rightarrow> nat \<Rightarrow> nat \<Rightarrow> 'a host_prog) \<Rightarrow> 'a host_prog" where
  "with_audio params k =
     bindp (call h_made (Av (AvAllocOutputContext (p_output_file params)))) (\<lambda>(r, fc).
     if r < 0 then throw_av FormatError ''Failed to allocate output context: '' r
     else owner (\<lambda>p. Av (AvFreeFormatContext p)) fc
       (create_audio_codec params (\<lambda>fmt ctx.
        add_stream fc ctx ''Failed to allocate audio stream'' ''Failed to copy codec parameters from context: ''
          (\<lambda>stream. k fc fmt ctx stream))))"

section \<open>The video codec and the output file\<close>

definition with_video ::
  "nat \<Rightarrow> nat host_prog \<Rightarrow> (nat \<Rightarrow> nat \<Rightarrow> 'a host_prog) \<Rightarrow> 'a host_prog" where
  "with_video fc create k =
     bindp create (\<lambda>ctx.
     owner (\<lambda>p. Av (AvFreeCodecContext p)) ctx
       (add_stream fc ctx ''Failed to allocate video stream'' ''Failed to copy video codec parameters from context: ''
         (\<lambda>stream. k ctx stream)))"

definition with_output :: "Parameters \<Rightarrow> nat \<Rightarrow> 'a host_prog \<Rightarrow> 'a host_prog" where
  "with_output params fc k =
     bindp (call h_made (Av (AvioOpen (p_output_file params)))) (\<lambda>(r, pb).
     if r < 0 then throw_av IOError ''Failed to open output file: '' r
     else guarded (emit (Av (AvioClose pb)))
       (bindp (call h_int (Av (AvWriteHeader fc))) (\<lambda>r.
        if r < 0 then throw_av IOError ''Failed to write header: '' r else k)))"

section \<open>The contexts\<close>

definition write_trailer :: "nat \<Rightarrow> unit host_prog" where
  "write_trailer fc =
     bindp (call h_int (Av (AvWriteTrailer fc))) (\<lambda>r.
     if r < 0 then bindp (peek h_av_strerror) (\<lambda>strerror.
       emit (Report (''Failed to write trailer: '' @ av_error_to_string strerror r)))
     else ret ())"

definition new_service :: "service \<Rightarrow> unit host_prog" where
  "new_service s = bindp (call h_fails (NewService s)) throw_if"

definition frame_size_of :: "int \<Rightarrow> int" where
  "frame_size_of n = (if n \<noteq> 0 then n else 2048)"

text \<open>
  The services live in the contexts; of these only the signal service holds something outside the
  process, which it gives up with the main context.
\<close>

definition record_session ::
  "Parameters \<Rightarrow> nat \<Rightarrow> sample_format \<Rightarrow> nat \<Rightarrow> nat \<Rightarrow> service \<Rightarrow> listener \<Rightarrow> unit host_prog" where
  "record_session params fc fmt audio_ctx audio_stream video_service frame_writer =
     bindp (peek h_frame_size) (\<lambda>fs.
     let frame_size = frame_size_of (fs audio_ctx) in
     bindp (add_signal_service None) (\<lambda>svc.
     guarded (signal_service_destruct svc)
       (bindp (add_signal_handler SIGINT_no svc) (\<lambda>svc.
        thenp (new_service (AudioService fmt (p_sample_rate params) frame_size))
       (thenp (new_service video_service)
       (thenp (new_service (EncoderService fc))
       (thenp (emit (Listen (ChunkWriter audio_ctx audio_stream frame_size)))
       (thenp (emit (Listen frame_writer))
       (guarded (write_trailer fc) (session_run_loop svc))))))))))"

section \<open>The two platforms\<close>

definition cu_init :: "unit host_prog" where
  "cu_init = bindp (call h_int (Cuda CuInit)) (\<lambda>r. if r \<noteq> CUDA_SUCCESS then throw_cuda r else ret ())"

definition run_wayland :: "Parameters \<Rightarrow> nat \<Rightarrow> unit host_prog" where
  "run_wayland params display =
     bindp (returned (\<lambda>p. Wl (WlDisplayDisconnect p)) display
       (bindp (load_gl_extensions None None) (\<lambda>(_, egl_module).
        thenp load_cuda (egl (Some egl_module))))) (\<lambda>_.
     bindp (initialize_wayland display) (\<lambda>wayland.
     guarded (wayland_destruct wayland)
     (bindp (initialize_wayland_egl (wl_display wayland) (wl_window wayland)) (\<lambda>wayland_egl.
      guarded (wayland_egl_destruct wayland_egl)
      (thenp cu_init
      (create_cuda_context (\<lambda>cuda_ctx.
       with_audio params (\<lambda>fc fmt audio_ctx stream.
       with_video fc (create_video_encoder (p_video_encoder params) cuda_ctx 0
           (output_width wayland) (output_height wayland) (p_frame_time params) AV_PIX_FMT_RGB0)
         (\<lambda>video_ctx video_stream.
       with_output params fc
         (record_session params fc fmt audio_ctx stream (DRMVideoService cuda_ctx)
           (DRMVideoFrameWriter video_ctx video_stream)))))))))))"

definition screen_size :: "nat \<Rightarrow> (u32 \<times> u32) host_prog" where
  "screen_size display =
     bindp (call h_int (X (XWidthOfScreen display))) (\<lambda>width.
     bindp (call h_int (X (XHeightOfScreen display))) (\<lambda>height.
     thenp (sc_expect (width > 0 \<and> height > 0)) (ret (of_int width, of_int height))))"

definition run :: "Parameters \<Rightarrow> unit host_prog" where
  "run params =
     bindp get_display (\<lambda>display.
     owner (\<lambda>p. X (XCloseDisplay p)) display
     (thenp load_cuda
     (thenp load_nvfbc
     (thenp cu_init
     (create_cuda_context (\<lambda>cuda_ctx.
      thenp NvFBCCreateInstance
     (create_nvfbc_session (\<lambda>session.
      thenp (create_nvfbc_capture_session session (p_frame_time params))
     (guarded (destroy_nvfbc_capture_session session)
     (with_audio params (\<lambda>fc fmt audio_ctx stream.
      bindp (call h_ptr (Av AvBufferPoolInit)) (\<lambda>buffer_pool.
      owner (\<lambda>p. Av (AvBufferPoolUninit p)) buffer_pool
      (if buffer_pool = 0 then throw (CodecError ''Failed to allocate video buffer pool'')
       else bindp (screen_size display) (\<lambda>(width, height).
       with_video fc (create_video_encoder (p_video_encoder params) cuda_ctx buffer_pool
           width height (p_frame_time params) AV_PIX_FMT_BGR0)
         (\<lambda>video_ctx video_stream.
       with_output params fc
         (record_session params fc fmt audio_ctx stream (VideoService cuda_ctx session)
           (VideoFrameWriter video_ctx video_stream)))))))))))))))))"

section \<open>The process\<close>

definition start_recording :: "Parameters \<Rightarrow> unit host_prog" where
  "start_recording params =
     thenp (emit PwInit)
     (guarded (emit PwDeinit)
       (bindp (call h_ptr (Wl WlDisplayConnect)) (\<lambda>display.
        if display \<noteq> 0 then run_wayland params display
        else run (if \<not> p_strict_frame_time params
          then params\<lparr>p_frame_time := truncate_to_millisecond (p_frame_time params)\<rparr> else params))))"

definition print_help :: "string \<Rightarrow> unit host_prog" where
  "print_help prog = (case output_help prog of None \<Rightarrow> terminate | Some s \<Rightarrow> emit (Report s))"

definition main :: "(int \<Rightarrow> string) \<Rightarrow> string \<Rightarrow> string \<Rightarrow> string list \<Rightarrow> int host_prog" where
  "main strerror prog version argv =
     noexcept (catching
       (thenp (host_io (block_signals [2, 17]))
       (bindp (computed (parse_cmd_line argv)) (\<lambda>cmd_line.
        bindp environment (\<lambda>getenv.
        bindp (computed (get_parameters getenv cmd_line)) (\<lambda>params.
        thenp (case params of
            Inl (CmdLineError show_help m) \<Rightarrow> print_help prog
          | Inl (CmdLineError show_version m) \<Rightarrow> emit (Report (output_version version))
          | Inl e \<Rightarrow> throw e
          | Inr p \<Rightarrow> start_recording p)
        (ret 0))))))
       (\<lambda>e. if is_std_exception e then Some (thenp (emit (Report (''ERROR: '' @ what strerror e))) (ret 1)) else None))"

section \<open>What is left behind\<close>

text \<open>
  What a recording that fails may leave: the capture session whose set-up failed, a descriptor of
  a signal service that could not be constructed, and a header without its trailer.
\<close>

fun left_behind :: "host_handle \<Rightarrow> bool" where
  "left_behind (Capture s) = True"
| "left_behind (SignalFd fd) = True"
| "left_behind (Header fc) = True"
| "left_behind _ = False"

definition clean :: "'a outcome \<Rightarrow> host_handle multiset \<Rightarrow> bool" where
  "clean r L = (case r of Ret _ \<Rightarrow> L = {#} | Exc e \<Rightarrow> (\<forall>x \<in># L. left_behind x) | Abort \<Rightarrow> True)"

lemma clean_simps [simp]:
  "clean (Ret x) L \<longleftrightarrow> L = {#}" "clean (Exc e) L \<longleftrightarrow> (\<forall>x \<in># L. left_behind x)"
  by (simp_all add: clean_def)

lemma neutral_clean: "neutral d p \<Longrightarrow> gains d p clean"
  by (erule gains_weaken) (auto simp: clean_def split: outcome.split)

lemma scoped_clean_neutral:
  "neutral d p \<Longrightarrow> (\<And>x. scoped d R (f x) clean) \<Longrightarrow> (\<And>x. x \<in># R \<Longrightarrow> left_behind x) \<Longrightarrow>
   scoped d R (bindp p f) clean"
  by (rule scoped_seq [OF scoped_keep [where G = "\<lambda>r L. L = R"]]) auto

lemma owner_scoped:
  assumes "gains host_delta p G" "\<And>w t H. host_delta w (t @ [del x]) (del x) H = release (h x) H"
  shows "scoped host_delta (ptr_held h x) (owner del x p) G"
  using assms by (auto simp: owner_def ptr_held_def scoped_nothing intro: scoped_guarded)

section \<open>Each part\<close>

lemma throw_if_neutral: "neutral d (throw_if e)"
  by (cases e) (auto intro: gains_ret gains_throw)

lemma new_service_neutral: "neutral host_delta (new_service s)"
  unfolding new_service_def by (intro gains_call_bindp throw_if_neutral) simp

lemma add_signal_service_unfold:
  "add_signal_service present = bindp signal_service_construct (\<lambda>s. case present of
       None \<Rightarrow> thenp (emit (Sig (CloseSignalFd (- 1)))) (ret s)
     | Some p \<Rightarrow> thenp (emit (Sig (CloseSignalFd (notify_fd s))))
         (thenp (emit (Sig (CloseSignalFd (- 1)))) (ret p)))"
proof -
  have same: "\<lparr>notify_fd = notify_fd s, handlers = handlers s\<rparr> = s" for s :: signal_service by simp
  show ?thesis
    by (simp add: add_signal_service_def signal_service_move_def signal_service_destruct_def same cong: option.case_cong)
qed

lemma add_signal_service_new:
  "gains host_delta (add_signal_service None) (\<lambda>r L. case r of
     Ret s \<Rightarrow> notify_fd s \<ge> 0 \<and> L = {#SignalFd (notify_fd s)#} | _ \<Rightarrow> \<forall>x \<in># L. left_behind x)"
  unfolding add_signal_service_unfold
  by (rule gains_bindp [OF signal_service_construct_gains])
    (auto intro!: neutral_bindp gains_emit gains_ret dest: mset_subset_eqD)

lemma add_signal_service_again: "gains host_delta (add_signal_service (Some s)) clean"
  unfolding add_signal_service_unfold scoped_nothing [symmetric]
proof (rule scoped_seq [OF signal_service_construct_gains [folded scoped_nothing]], goal_cases)
  case (1 svc L)
  then show ?case
    by (auto intro!: scoped_release [where c = "Sig (CloseSignalFd (notify_fd svc))" and r = "SignalFd (notify_fd svc)"]
        scoped_neutral_emit [where c = "Sig (CloseSignalFd (- 1))"] scoped_ret)
qed (auto dest: mset_subset_eqD)

lemma add_signal_handler_neutral: "neutral host_delta (add_signal_handler sig svc)"
  by (rule gains_weaken [OF add_signal_handler_keeps]) simp

lemma gains_clean_bindp:
  "gains d p clean \<Longrightarrow> (\<And>x. gains d (f x) clean) \<Longrightarrow> gains d (bindp p f) clean"
  by (rule gains_bindp [where ?G1.0 = clean]) auto

lemmas clean_rules = gains_clean_bindp gains_call_bindp gains_peek_bindp gains_throw gains_throw_av gains_ret
  gains_terminate throw_cuda_gains

lemma session_run_loop_clean: "gains host_delta (session_run_loop svc) clean"
  unfolding session_run_loop_def
  by (auto intro!: clean_rules add_signal_service_again neutral_clean [OF add_signal_handler_neutral]
      neutral_clean [OF throw_if_neutral])

lemma write_trailer_releases:
  "scoped host_delta {#Header fc#} (write_trailer fc) (\<lambda>r L. r = Ret () \<longrightarrow> L = {#})"
  unfolding write_trailer_def
  by (auto intro!: scoped_release_call [where r = "Header fc"] gains_ret gains_peek_bindp
      gains_weaken [OF gains_emit] simp: scoped_nothing)

lemma computed_neutral: "neutral d (computed x)"
  by (cases x) (auto intro: gains_ret gains_throw gains_terminate)

lemma emit_neutral_clean: "(\<And>w t H. d w (t @ [c]) c H = Some H) \<Longrightarrow> gains d (emit c) clean"
  by (intro neutral_clean gains_emit)

lemma record_session_scoped:
  assumes "\<And>w t H. host_delta w t (Listen frame_writer) H = Some H"
  shows "scoped host_delta {#Header fc#}
    (record_session params fc fmt audio_ctx audio_stream video_service frame_writer) clean"
proof -
  have body: "scoped host_delta {#Header fc#}
      (bindp (add_signal_handler SIGINT_no svc) (\<lambda>svc.
        thenp (new_service (AudioService fmt (p_sample_rate params) n))
       (thenp (new_service video_service)
       (thenp (new_service (EncoderService fc))
       (thenp (emit (Listen (ChunkWriter audio_ctx audio_stream n)))
       (thenp (emit (Listen frame_writer))
       (guarded (write_trailer fc) (session_run_loop svc)))))))) clean" for svc n
    by (auto intro!: scoped_clean_neutral [OF add_signal_handler_neutral] scoped_clean_neutral [OF new_service_neutral]
        scoped_neutral_emit scoped_cleanup [OF session_run_loop_clean write_trailer_releases])
  have close: "scoped host_delta {#SignalFd (notify_fd svc)#} (signal_service_destruct svc)
      (\<lambda>r L. r = Ret () \<longrightarrow> L = {#})" if "notify_fd svc \<ge> 0" for svc
    using that by (auto simp: signal_service_destruct_def scoped_def release_def intro: held_by_emit)
  have "scoped host_delta {#Header fc#} (bindp (add_signal_service None) (\<lambda>svc.
      guarded (signal_service_destruct svc) (b svc))) clean"
    if "\<And>svc. scoped host_delta {#Header fc#} (b svc) clean" for b
  proof (rule scoped_seq [OF scoped_keep [where G = "\<lambda>r L. case r of
      Ret s \<Rightarrow> notify_fd s \<ge> 0 \<and> L = {#Header fc#} + {#SignalFd (notify_fd s)#} | _ \<Rightarrow> \<forall>x \<in># L. left_behind x"]], goal_cases)
    case 1
    show ?case by (rule gains_weaken [OF add_signal_service_new]) (auto split: outcome.splits)
  next
    case (2 svc L)
    with scoped_guard [OF that [of svc] close [of svc]] show ?case by simp
  qed auto
  from this [OF body] show ?thesis
    unfolding record_session_def Let_def by (auto intro!: scoped_clean_neutral [OF gains_peek])
qed

lemma owned_clean:
  assumes "\<And>w t. host_delta w (t @ [c]) c = acquire (h_ptr w (t @ [c]) \<noteq> 0) (h (h_ptr w (t @ [c])))"
    and "\<And>w t x H. host_delta w (t @ [del x]) (del x) H = release (h x) H"
    and "\<And>x. gains host_delta (b x) clean"
  shows "gains host_delta (bindp (call h_ptr c) (\<lambda>x. owner del x (b x))) clean"
  using assms by (intro gains_owned_ptr) auto

lemma open_audio_codec_clean: "gains host_delta (open_audio_codec params encoder ctx fmt) clean"
  unfolding open_audio_codec_def apply_audio_codec_modifiers_def
  by (auto intro!: clean_rules neutral_clean [OF computed_neutral] emit_neutral_clean)

lemma add_stream_clean:
  "(\<And>s. gains host_delta (k s) clean) \<Longrightarrow> gains host_delta (add_stream fc ctx m m' k) clean"
  unfolding add_stream_def by (auto intro!: clean_rules)

lemma create_audio_codec_clean:
  assumes "\<And>fmt ctx. gains host_delta (k fmt ctx) clean"
  shows "gains host_delta (create_audio_codec params k) clean"
proof -
  have codec: "gains host_delta (bindp (call h_ptr (Av (AvAllocCodecContext encoder))) (\<lambda>ctx.
      owner (\<lambda>p. Av (AvFreeCodecContext p)) ctx
        (if ctx = 0 then throw e else thenp (open_audio_codec params encoder ctx fmt) (k fmt ctx)))) clean"
    for encoder e fmt
    by (rule owned_clean [where h = CodecContext])
      (auto intro!: gains_throw gains_clean_bindp open_audio_codec_clean assms)
  show ?thesis
    unfolding create_audio_codec_def
    by (auto intro!: gains_call_bindp [where c = "Av (AvFindEncoder (p_audio_encoder params))"] gains_peek_bindp
        gains_throw gains_clean_bindp [OF neutral_clean [OF computed_neutral]] codec split: list.split)
qed

lemma with_audio_clean:
  assumes "\<And>fc fmt ctx s. gains host_delta (k fc fmt ctx s) clean"
  shows "gains host_delta (with_audio params k) clean"
proof -
  have container: "gains host_delta (bindp (call h_made (Av (AvAllocOutputContext f))) (\<lambda>(r, fc).
      if r < 0 then throw_av FormatError m r else owner (\<lambda>p. Av (AvFreeFormatContext p)) fc (b fc))) clean"
    if "\<And>fc. gains host_delta (b fc) clean" for b f m
    by (rule gains_acquire [where b = "\<lambda>x. fst x \<ge> 0 \<and> snd x \<noteq> 0" and r = "\<lambda>x. FormatContext (snd x)"])
      (use that in \<open>auto simp: owner_def intro!: clean_rules scoped_guarded\<close>)
  show ?thesis
    unfolding with_audio_def by (rule container) (intro create_audio_codec_clean add_stream_clean assms)
qed

lemma with_output_clean:
  assumes "scoped host_delta {#Header fc#} k clean"
  shows "gains host_delta (with_output params fc k) clean"
proof -
  have header: "gains host_delta (bindp (call h_int (Av (AvWriteHeader fc))) (\<lambda>r.
      if r < 0 then throw_av IOError m r else k)) clean" for m
    by (rule gains_acquire [where b = "\<lambda>r. r \<ge> 0" and r = "\<lambda>_. Header fc"])
      (use assms in \<open>auto intro!: clean_rules\<close>)
  show ?thesis
    unfolding with_output_def
    by (rule gains_acquire [where b = "\<lambda>x. fst x \<ge> 0" and r = "\<lambda>x. OutputFile (snd x)"])
      (auto intro!: clean_rules scoped_guarded header)
qed

lemma with_video_clean:
  assumes "\<And>ctx s. gains host_delta (k ctx s) clean"
  shows "gains host_delta (with_video fc (create_video_encoder n cuda pool width height ft pf) k) clean"
  unfolding with_video_def
proof (rule gains_bindp_release [where R = "ptr_held CodecContext"])
  show "gains host_delta (create_video_encoder n cuda pool width height ft pf) (\<lambda>r L. case r of
      Ret ctx \<Rightarrow> L = ptr_held CodecContext ctx | Exc e \<Rightarrow> clean (Exc e) L | Abort \<Rightarrow> True)"
    by (rule gains_weaken [OF create_video_encoder_gains]) (auto simp: ptr_held_def split: outcome.splits)
  show "scoped host_delta (ptr_held CodecContext ctx) (owner (\<lambda>p. Av (AvFreeCodecContext p)) ctx
      (add_stream fc ctx m m' (k ctx))) clean" for ctx m m'
    by (rule owner_scoped) (auto intro!: add_stream_clean assms)
qed

lemma cu_init_clean: "gains host_delta cu_init clean"
  unfolding cu_init_def by (auto intro!: clean_rules)

lemma run_wayland_scoped:
  assumes "display \<noteq> 0"
  shows "scoped host_delta {#WlDisplay display#} (run_wayland params display) clean"
proof -
  have session: "scoped host_delta {#Header fc#} (record_session params fc fmt actx s (DRMVideoService c) (DRMVideoFrameWriter v vs)) clean"
    for fc fmt actx s c v vs by (rule record_session_scoped) simp
  have inner: "gains host_delta (thenp cu_init (create_cuda_context (\<lambda>cuda_ctx.
       with_audio params (\<lambda>fc fmt audio_ctx stream.
       with_video fc (create_video_encoder (p_video_encoder params) cuda_ctx 0
           (output_width wayland) (output_height wayland) (p_frame_time params) AV_PIX_FMT_RGB0)
         (\<lambda>video_ctx video_stream.
       with_output params fc
         (record_session params fc fmt audio_ctx stream (DRMVideoService cuda_ctx)
           (DRMVideoFrameWriter video_ctx video_stream))))))) clean" for wayland
    by (intro gains_clean_bindp cu_init_clean create_cuda_context_gains with_audio_clean with_video_clean
        with_output_clean session) simp
  have egl: "gains host_delta (bindp (initialize_wayland_egl d win) (\<lambda>e. guarded (wayland_egl_destruct e) p)) clean"
    if p: "gains host_delta p clean" for d win p
  proof (rule gains_bindp_release [where R = egl_held])
    show "gains host_delta (initialize_wayland_egl d win) (\<lambda>r L. case r of
        Ret x \<Rightarrow> L = egl_held x | Exc e \<Rightarrow> clean (Exc e) L | Abort \<Rightarrow> True)"
      by (rule gains_weaken [OF initialize_wayland_egl_gains]) (auto split: outcome.splits)
    show "scoped host_delta (egl_held x) (guarded (wayland_egl_destruct x) p) clean" for x
      by (rule scoped_cleanup [OF p scoped_weaken [OF wayland_egl_destruct_releases]]) simp
  qed
  have load: "neutral host_delta (bindp (load_gl_extensions None None) (\<lambda>(_, egl_module).
        thenp load_cuda (egl (Some egl_module))))"
    by (auto intro!: neutral_bindp load_gl_extensions_neutral egl_neutral load_library_neutral simp: load_cuda_def)
  have display: "scoped host_delta {#WlDisplay display#}
     (returned (\<lambda>p. Wl (WlDisplayDisconnect p)) display
       (bindp (load_gl_extensions None None) (\<lambda>(_, egl_module). thenp load_cuda (egl (Some egl_module)))))
     (\<lambda>r L. case r of Ret x \<Rightarrow> L = {#WlDisplay display#} | _ \<Rightarrow> L = {#})"
    unfolding returned_def if_not_P [OF assms]
    by (rule scoped_returned) (auto intro!: gains_weaken [OF load] split: outcome.splits)
  have whole: "scoped host_delta {#WlDisplay display#} (bindp (initialize_wayland display) (\<lambda>wayland.
     guarded (wayland_destruct wayland) (p wayland))) clean"
    if "\<And>wayland. gains host_delta (p wayland) clean" for p
  proof (rule scoped_seq [OF initialize_wayland_scoped [OF assms]], goal_cases)
    case (1 wayland L)
    then show ?case
      by (auto intro: scoped_cleanup [OF that scoped_weaken [OF wayland_destruct_releases]])
  qed auto
  show ?thesis
    unfolding run_wayland_def
    by (rule scoped_seq [OF display]) (auto intro!: whole egl inner)
qed

lemma create_nvfbc_capture_session_gains:
  "gains host_delta (create_nvfbc_capture_session s ft) (\<lambda>r L. case r of
     Ret x \<Rightarrow> L = {#Capture s#} | Exc e \<Rightarrow> clean (Exc e) L | Abort \<Rightarrow> True)"
  unfolding create_nvfbc_capture_session_def
proof (rule gains_acquire [where b = "\<lambda>r. r = 0" and r = "\<lambda>_. Capture s"], goal_cases)
  case (3 r)
  then show ?case
    unfolding NVFBC_SUCCESS_def throw_nvfbc_def
    by (auto intro!: scoped_neutral_call scoped_throw scoped_ret)
qed (auto simp: NVFBC_SUCCESS_def intro!: throw_nvfbc_gains)

lemma destroy_nvfbc_capture_session_releases:
  "scoped host_delta {#Capture s#} (destroy_nvfbc_capture_session s) (\<lambda>r L. r = Ret () \<longrightarrow> L = {#})"
  unfolding destroy_nvfbc_capture_session_def
  by (auto intro!: scoped_release_call [where r = "Capture s"] gains_ret throw_nvfbc_gains simp: scoped_nothing)

lemma get_display_gains:
  "gains host_delta get_display (\<lambda>r L. case r of
     Ret p \<Rightarrow> L = ptr_held XDisplay p | Exc e \<Rightarrow> clean (Exc e) L | Abort \<Rightarrow> True)"
  unfolding get_display_def
  by (rule gains_acquire [where b = "\<lambda>x. x \<noteq> 0" and r = XDisplay])
    (auto simp: ptr_held_def intro!: gains_throw scoped_ret)

lemma screen_size_clean: "gains host_delta (screen_size d) clean"
  unfolding screen_size_def sc_expect_def contract_check_failed_def by (auto intro!: clean_rules)

lemma load_clean: "gains host_delta load_cuda clean" "gains host_delta load_nvfbc clean"
  "gains host_delta NvFBCCreateInstance clean"
  unfolding load_cuda_def load_nvfbc_def NvFBCCreateInstance_def
  by (auto intro!: neutral_clean [OF load_library_neutral] clean_rules)

lemma run_clean: "gains host_delta (run params) clean"
proof -
  have session: "scoped host_delta {#Header fc#} (record_session params fc fmt actx s (VideoService c h) (VideoFrameWriter v vs)) clean"
    for fc fmt actx s c h v vs by (rule record_session_scoped) simp
  have pool: "gains host_delta (bindp (call h_ptr (Av AvBufferPoolInit)) (\<lambda>buffer_pool.
      owner (\<lambda>p. Av (AvBufferPoolUninit p)) buffer_pool
      (if buffer_pool = 0 then throw e
       else bindp (screen_size display) (\<lambda>(width, height).
       with_video fc (create_video_encoder (p_video_encoder params) cuda_ctx buffer_pool
           width height (p_frame_time params) AV_PIX_FMT_BGR0)
         (\<lambda>video_ctx video_stream.
       with_output params fc
         (record_session params fc fmt audio_ctx stream (VideoService cuda_ctx session)
           (VideoFrameWriter video_ctx video_stream))))))) clean" for e display fc fmt cuda_ctx audio_ctx stream session
    by (rule owned_clean [where h = BufferPool])
      (auto intro!: gains_throw gains_clean_bindp [OF screen_size_clean] with_video_clean with_output_clean session)
  have capture: "gains host_delta (thenp (create_nvfbc_capture_session s ft)
      (guarded (destroy_nvfbc_capture_session s) p)) clean" if "gains host_delta p clean" for s ft p
    by (rule gains_bindp_release [OF create_nvfbc_capture_session_gains])
      (rule scoped_cleanup [OF that destroy_nvfbc_capture_session_releases])
  show ?thesis
    unfolding run_def
    by (rule gains_bindp_release [OF get_display_gains], rule owner_scoped)
      (auto intro!: gains_clean_bindp [OF load_clean(1)] gains_clean_bindp [OF load_clean(2)]
        gains_clean_bindp [OF load_clean(3)] gains_clean_bindp [OF cu_init_clean]
        create_cuda_context_gains create_nvfbc_session_gains capture with_audio_clean pool)
qed

lemma start_recording_clean: "gains host_delta (start_recording params) clean"
proof -
  have display: "gains host_delta (bindp (call h_ptr (Wl WlDisplayConnect)) (\<lambda>display.
      if display \<noteq> 0 then run_wayland params display else run p)) clean" for p
    by (rule gains_acquire [where b = "\<lambda>x. x \<noteq> 0" and r = WlDisplay])
      (auto intro: run_clean run_wayland_scoped)
  show ?thesis
    unfolding start_recording_def bindp_emit
    by (rule gains_acquire [where b = "\<lambda>_. True" and r = "\<lambda>_. PipeWire"])
      (auto intro!: scoped_guarded display simp: acquire_def simp del: neq0_conv)
qed

text \<open>The handlers of \<open>main\<close>.\<close>

lemma gains_catching_all:
  assumes p: "gains d p G" and h: "\<And>e. h e = Some (q e) \<or> h e = None"
    and q: "\<And>e L. G (Exc e) L \<Longrightarrow> gains d (q e) (\<lambda>r L'. G' r (L + L'))"
    and ret: "\<And>x L. G (Ret x) L \<Longrightarrow> G' (Ret x) L"
  shows "gains d (noexcept (catching p h)) G'"
  unfolding gains_def held_by_def
proof (intro allI)
  fix H w t
  let ?c = "noexcept (catching p h)"
  from gainsD [OF p, of H] obtain new H' where p': "snd (p w t) = t @ new" "track d w t new H = Some H'"
    "fst (p w t) \<noteq> Abort \<longrightarrow> (\<exists>L. H' = H + L \<and> G (fst (p w t)) L)"
    by (rule held_byD [where w = w and t = t])
  show "\<exists>new H'. snd (?c w t) = t @ new \<and> track d w t new H = Some H' \<and>
      (fst (?c w t) \<noteq> Abort \<longrightarrow> (\<exists>L. H' = H + L \<and> G' (fst (?c w t)) L))"
  proof (cases "\<exists>e. fst (p w t) = Exc e \<and> h e = Some (q e)")
    case True
    then obtain e where e: "fst (p w t) = Exc e" "h e = Some (q e)" by blast
    with p'(3) obtain L where L: "H' = H + L" "G (Exc e) L" by auto
    from gainsD [OF q [OF L(2)], of H'] obtain new' H'' where q': "snd (q e w (t @ new)) = (t @ new) @ new'"
      "track d w (t @ new) new' H' = Some H''"
      "fst (q e w (t @ new)) \<noteq> Abort \<longrightarrow> (\<exists>L'. H'' = H' + L' \<and> G' (fst (q e w (t @ new))) (L + L'))"
      by (rule held_byD [where w = w and t = "t @ new"])
    have run: "catching p h w t = q e w (t @ new)"
      using e p'(1) by (cases "p w t") (auto simp: catching_def)
    show ?thesis
      using p'(2) q' L(1) unfolding noexcept_run run
      by (intro exI [of _ "new @ new'"] exI [of _ H'']) (auto simp: track_append add.assoc split: outcome.splits)
  next
    case False
    with h have none: "h e = None" if "fst (p w t) = Exc e" for e using that by blast
    have "catching p h w t = p w t"
    proof (cases "p w t")
      case (Pair r t')
      with none show ?thesis by (cases r) (simp_all add: catching_def)
    qed
    then have "snd (?c w t) = t @ new" "fst (?c w t) = (case fst (p w t) of Exc e \<Rightarrow> Abort | r \<Rightarrow> r)"
      using p'(1) by (simp_all add: noexcept_run)
    then show ?thesis using p' ret by (auto split: outcome.splits)
  qed
qed

definition ends_well :: "int outcome \<Rightarrow> host_handle multiset \<Rightarrow> bool" where
  "ends_well r L = (case r of
       Ret code \<Rightarrow> code = 0 \<and> L = {#} \<or> code = 1 \<and> L = filter_mset left_behind L
     | Exc e \<Rightarrow> False
     | Abort \<Rightarrow> True)"

lemma main_gains: "gains host_delta (main strerror prog version argv) ends_well"
proof -
  have choice: "gains host_delta (case params of
            Inl (CmdLineError show_help m) \<Rightarrow> print_help prog
          | Inl (CmdLineError show_version m) \<Rightarrow> emit (Report (output_version version))
          | Inl e \<Rightarrow> throw e
          | Inr p \<Rightarrow> start_recording p) clean" for params
    by (auto simp: print_help_def split: sum.split exn.split cmd_line_error_type.split option.split
        intro: gains_throw gains_terminate emit_neutral_clean start_recording_clean)
  have zero: "gains host_delta (thenp p (ret 0)) (\<lambda>r L. clean r L \<and> (\<forall>x. r = Ret x \<longrightarrow> x = 0))"
    if "gains host_delta p clean" for p :: "unit host_prog"
    by (rule gains_bindp [OF that]) (auto intro!: gains_ret)
  have body: "gains host_delta (thenp (host_io (block_signals [2, 17]))
       (bindp (computed (parse_cmd_line argv)) (\<lambda>cmd_line.
        bindp environment (\<lambda>getenv.
        bindp (computed (get_parameters getenv cmd_line)) (\<lambda>params.
        thenp (case params of
            Inl (CmdLineError show_help m) \<Rightarrow> print_help prog
          | Inl (CmdLineError show_version m) \<Rightarrow> emit (Report (output_version version))
          | Inl e \<Rightarrow> throw e
          | Inr p \<Rightarrow> start_recording p)
        (ret 0)))))) (\<lambda>r L. clean r L \<and> (\<forall>x. r = Ret x \<longrightarrow> x = (0 :: int)))"
    by (rule neutral_bindp [OF host_io_gains])
      (auto intro!: neutral_bindp [OF computed_neutral] gains_environment_bindp zero choice)
  have keep: "filter_mset left_behind L = L" if "\<forall>x \<in># L. left_behind x" for L
    using that by (induction L) auto
  show ?thesis
    unfolding main_def
    by (rule gains_catching_all [OF body, where q = "\<lambda>e. thenp (emit (Report (''ERROR: '' @ what strerror e))) (ret 1)"])
      (auto simp: ends_well_def keep bindp_emit intro!: gains_call_bindp gains_ret)
qed

section \<open>Properties\<close>


end
