(* ===== verification/Granting.thy ===== *)
theory Granting
  imports Session
begin

text \<open>
  A recording on a host that grants every call: from the command line to exit code 0. Each part
  of the set-up returns on such a host, whatever was called before.
\<close>

section \<open>A host that grants everything\<close>

text \<open>\<open>p\<close> returns in \<open>w\<close>, from every history, with a value that satisfies \<open>Q\<close>.\<close>

definition yields :: "'w \<Rightarrow> ('w, 'c, 'a) prog \<Rightarrow> ('a \<Rightarrow> bool) \<Rightarrow> bool" where
  "yields w p Q \<longleftrightarrow> (\<forall>t. \<exists>x es. p w t = (Ret x, t @ es) \<and> Q x)"

lemma yields_ret: "Q x \<Longrightarrow> yields w (ret x) Q"
  by (simp add: yields_def prog_run)

lemma yields_bindp: "yields w p P \<Longrightarrow> (\<And>x. P x \<Longrightarrow> yields w (f x) Q) \<Longrightarrow> yields w (bindp p f) Q"
  unfolding yields_def by (metis append.assoc bindp_run_simps(1))

lemma yields_call: "(\<And>t. Q (g w (t @ [c]))) \<Longrightarrow> yields w (call g c) Q"
  by (simp add: yields_def prog_run)

lemma yields_call_bindp: "(\<And>t. yields w (f (g w (t @ [c]))) Q) \<Longrightarrow> yields w (bindp (call g c) f) Q"
  unfolding yields_def bindp_call_run by (metis append.assoc)

lemma yields_emit: "Q () \<Longrightarrow> yields w (emit c) Q"
  by (simp add: yields_def prog_run)

lemma yields_peek_bindp: "yields w (f (g w)) Q \<Longrightarrow> yields w (bindp (peek g) f) Q"
  by (simp add: yields_def peek_def bindp_def)

lemma yields_weaken: "yields w p P \<Longrightarrow> (\<And>x. P x \<Longrightarrow> Q x) \<Longrightarrow> yields w p Q"
  unfolding yields_def by blast

lemma yields_guarded:
  assumes "yields w f (\<lambda>_. True)" "yields w p Q"
  shows "yields w (guarded f p) Q"
  unfolding yields_def
proof
  fix t
  from assms(2) obtain x es where p: "p w t = (Ret x, t @ es)" "Q x" unfolding yields_def by blast
  from assms(1) obtain u es' where "f w (t @ es) = (Ret u, (t @ es) @ es')" unfolding yields_def by blast
  then have "f w (snd (p w t)) = (Ret (), t @ es @ es')" using p by simp
  from guarded_run [of f w p t, OF this] p show "\<exists>x es. guarded f p w t = (Ret x, t @ es) \<and> Q x" by simp
qed

lemma yields_guarded_unless_ret: "yields w p Q \<Longrightarrow> yields w (guarded_unless_ret f p) Q"
  unfolding yields_def by (meson guarded_unless_ret_Ret)

lemma yields_owner: "yields w p Q \<Longrightarrow> yields w (owner del x p) Q"
  by (auto simp: owner_def intro!: yields_guarded yields_emit)

lemma yields_returned: "yields w p Q \<Longrightarrow> yields w (returned del x p) Q"
  by (auto simp: returned_def intro!: yields_guarded_unless_ret)

lemma yields_then: "yields w p (\<lambda>_. True) \<Longrightarrow> (\<And>x. yields w (f x) Q) \<Longrightarrow> yields w (bindp p f) Q"
  by (rule yields_bindp [where P = "\<lambda>_. True"])

lemmas yields_rules = yields_ret yields_call_bindp yields_emit yields_peek_bindp yields_guarded
  yields_guarded_unless_ret yields_owner yields_returned

text \<open>
  Every call succeeds, in the sense of its library: CUDA answers 0, EGL something else, a count is
  not negative, a pointer is not null. The compositor announces itself and an output of some size.
\<close>

definition granted :: "host_call \<Rightarrow> int \<Rightarrow> bool" where
  "granted c r = (case c of Cuda _ \<Rightarrow> r = 0 | Egl _ \<Rightarrow> r \<noteq> 0 | _ \<Rightarrow> r \<ge> 0)"

definition compositor_announces :: "wl_event list \<Rightarrow> bool" where
  "compositor_announces es \<longleftrightarrow> (\<exists>n v n' v' width height. width \<noteq> 0 \<and> height \<noteq> 0 \<and>
     es = [Global n ''wl_compositor'' v, Global n' ''wl_output'' v', Mode WL_OUTPUT_MODE_CURRENT width height])"

definition codec_usable :: "host_world \<Rightarrow> nat \<Rightarrow> bool" where
  "codec_usable w c \<longleftrightarrow> h_codec_rates w c = None \<and>
     (\<exists>fs f rest f'. h_codec_formats w c = Some fs \<and> find_supported_formats (Some fs) = Ret (f # rest) \<and>
       convert_to_libav_format f = Ret f')"

definition granting :: "host_world \<Rightarrow> bool" where
  "granting w \<longleftrightarrow> (\<forall>t. h_ptr w t \<noteq> 0) \<and> (\<forall>t c. granted c (h_int w (t @ [c]))) \<and>
     (\<forall>t c. granted c (fst (h_made w (t @ [c]))) \<and> snd (h_made w (t @ [c])) \<noteq> 0) \<and>
     (\<forall>t. h_fails w t = None) \<and> (\<forall>t u. io_int (h_io w t) u \<ge> 0) \<and>
     (\<forall>t. compositor_announces (h_wl_events w t)) \<and> (\<forall>c. codec_usable w c)"

lemma grantingD:
  assumes "granting w"
  shows granting_ptr: "h_ptr w t \<noteq> 0"
    and granting_int: "granted c (h_int w (t @ [c]))"
    and granting_made: "granted c (fst (h_made w (t @ [c])))" "snd (h_made w (t @ [c])) \<noteq> 0"
    and granting_fails: "h_fails w t = None"
    and granting_io: "io_int (h_io w t) u \<ge> 0"
    and granting_events: "compositor_announces (h_wl_events w t)"
    and granting_codec: "codec_usable w n"
  using assms by (auto simp: granting_def)

lemma granting_simps:
  assumes "granting w"
  shows "h_ptr w t \<noteq> 0" "\<not> h_int w (t @ [Av a]) < 0" "\<not> h_int w (t @ [Sig b]) < 0"
    "h_int w (t @ [Cuda c]) = 0" "h_int w (t @ [Egl d]) \<noteq> 0"
    "\<not> fst (h_made w (t @ [Av a])) < 0" "fst (h_made w (t @ [Cuda c])) = 0" "fst (h_made w (t @ [Egl d])) \<noteq> 0"
    "snd (h_made w (t @ [e])) \<noteq> 0" "h_fails w t = None"
  using grantingD(1,4,5) [OF assms] grantingD(2,3) [OF assms, of "Av a" t] grantingD(2,3) [OF assms, of "Cuda c" t]
    grantingD(2,3) [OF assms, of "Egl d" t] grantingD(2) [OF assms, of "Sig b" t]
  by (auto simp: granted_def)

lemma attach_all_yields: "granting w \<Longrightarrow> yields w (attach_all lib fs) (\<lambda>_. True)"
  by (induction fs rule: attach_all.induct)
    (auto simp: attach_symbol_def granting_simps intro!: yields_then yields_call_bindp yields_ret)

lemma load_library_yields: "granting w \<Longrightarrow> yields w (load_library file msg table) (\<lambda>_. True)"
  unfolding load_library_def by (auto simp: granting_simps intro!: yields_rules attach_all_yields)

lemma load_gl_extensions_yields: "granting w \<Longrightarrow> yields w (load_gl_extensions None None) (\<lambda>_. True)"
  unfolding load_gl_extensions_def get_opengl_module_def egl_def static_module_def load_opengl_def load_egl_def
    attach_extension_symbol_def
  by (auto simp: granting_simps intro!: yields_then [OF load_library_yields] yields_then load_library_yields yields_rules)

lemma delete_yields: "yields w (delete del p) (\<lambda>_. True)"
  unfolding delete_def by (auto intro: yields_ret yields_emit)

lemma wayland_destruct_yields: "yields w (wayland_destruct p) (\<lambda>_. True)"
  unfolding wayland_destruct_def by (intro yields_then [OF delete_yields] delete_yields)

lemma registry_global_yields:
  assumes "granting w" "i \<in> {''wl_compositor'', ''wl_output''}"
  shows "yields w (registry_global n i v p)
    (\<lambda>q. (i = ''wl_compositor'' \<or> wl_compositor p \<noteq> 0) \<longrightarrow> wl_compositor q \<noteq> 0)"
  using assms by (auto simp: registry_global_def granting_simps
      intro!: yields_call_bindp yields_then [OF delete_yields] yields_then [OF yields_emit] yields_ret)

lemma wl_roundtrip_yields:
  assumes "granting w"
  shows "yields w (wl_roundtrip p) (\<lambda>p. wl_compositor p \<noteq> 0 \<and> output_width p \<noteq> 0 \<and> output_height p \<noteq> 0)"
  unfolding wl_roundtrip_def
proof (rule yields_call_bindp)
  fix t
  obtain n v n' v' width height where es: "width \<noteq> 0" "height \<noteq> 0"
    "h_wl_events w (t @ [Wl (WlDisplayRoundtrip (wl_display p))]) =
       [Global n ''wl_compositor'' v, Global n' ''wl_output'' v', Mode WL_OUTPUT_MODE_CURRENT width height]"
    using granting_events [OF assms] unfolding compositor_announces_def by blast
  show "yields w (wl_dispatch (h_wl_events w (t @ [Wl (WlDisplayRoundtrip (wl_display p))])) p)
      (\<lambda>p. wl_compositor p \<noteq> 0 \<and> output_width p \<noteq> 0 \<and> output_height p \<noteq> 0)"
    unfolding es(3) wl_dispatch.simps
    by (rule yields_bindp [OF registry_global_yields], use assms in simp, simp,
        rule yields_bindp [OF registry_global_yields])
      (use assms es in \<open>auto simp: output_mode_def WL_OUTPUT_MODE_CURRENT_def intro!: yields_ret\<close>)
qed

lemma initialize_wayland_yields:
  assumes "granting w" "display \<noteq> 0"
  shows "yields w (initialize_wayland display) (\<lambda>_. True)"
proof -
  have window: "yields w (create_window p) (\<lambda>(p, e). e = None)" if "wl_compositor p \<noteq> 0" for p
    using that assms unfolding create_window_def
    by (auto simp: granting_simps intro!: yields_call_bindp yields_then [OF delete_yields] yields_ret)
  have rest: "yields w (bindp (create_window p) (\<lambda>(p, failure).
        bindp (release_output p) (\<lambda>p.
        bindp (release_registry p) (\<lambda>p.
        case failure of None \<Rightarrow> ret p | Some e \<Rightarrow> thenp (wayland_destruct p) (throw e))))) (\<lambda>_. True)"
    if "wl_compositor p \<noteq> 0" for p
    unfolding release_output_def release_registry_def
    by (rule yields_bindp [OF window [OF that]])
      (auto intro!: yields_then [OF yields_then [OF delete_yields yields_ret]] yields_ret)
  have expect: "yields w (sc_expect True) (\<lambda>_. True)" by (simp add: sc_expect_def yields_ret)
  show ?thesis
    unfolding initialize_wayland_def if_not_P [OF assms(2)]
    by (rule yields_call_bindp)
      (use assms(1) in \<open>auto simp: granting_simps intro!: yields_then [OF yields_emit] rest
         yields_bindp [OF wl_roundtrip_yields [OF assms(1)]] yields_then [OF expect]\<close>)
qed

lemma initialize_wayland_egl_yields: "granting w \<Longrightarrow> yields w (initialize_wayland_egl d win) (\<lambda>_. True)"
  unfolding initialize_wayland_egl_def
  by (auto simp: granting_simps case_prod_beta intro!: yields_rules)

lemma wayland_egl_destruct_yields: "yields w (wayland_egl_destruct x) (\<lambda>_. True)"
  unfolding wayland_egl_destruct_def by (auto intro!: yields_then [OF yields_emit] yields_emit split: prod.split)

lemma create_cuda_context_yields:
  "granting w \<Longrightarrow> (\<And>c. yields w (k c) Q) \<Longrightarrow> yields w (create_cuda_context k) Q"
  unfolding create_cuda_context_def
  by (auto simp: granting_simps case_prod_beta CUDA_SUCCESS_def intro!: yields_rules)

lemma add_stream_yields: "granting w \<Longrightarrow> (\<And>s. yields w (k s) Q) \<Longrightarrow> yields w (add_stream fc c m m' k) Q"
  unfolding add_stream_def by (auto simp: granting_simps intro!: yields_rules)

lemma open_audio_codec_yields:
  assumes "granting w" "convert_to_libav_format fmt = Ret f"
  shows "yields w (open_audio_codec params encoder ctx fmt) (\<lambda>_. True)"
  using assms unfolding open_audio_codec_def apply_audio_codec_modifiers_def
  by (auto simp: granting_simps intro!: yields_then [OF yields_ret] yields_rules yields_then)

lemma create_audio_codec_yields:
  assumes "granting w" "\<And>fmt ctx. yields w (k fmt ctx) Q"
  shows "yields w (create_audio_codec params k) Q"
proof -
  have "yields w (bindp (computed (find_supported_formats (h_codec_formats w encoder))) (\<lambda>supported_formats.
     case supported_formats of
       [] \<Rightarrow> throw (RuntimeError ''No supported sample formats found'')
     | fmt # _ \<Rightarrow>
         bindp (call h_ptr (Av (AvAllocCodecContext encoder))) (\<lambda>ctx.
         owner (\<lambda>p. Av (AvFreeCodecContext p)) ctx
           (if ctx = 0 then throw (CodecError ''Failed to allocate audio codec context'')
            else thenp (open_audio_codec params encoder ctx fmt) (k fmt ctx))))) Q" for encoder
  proof -
    obtain fs f rest f' where f: "h_codec_formats w encoder = Some fs" "find_supported_formats (Some fs) = Ret (f # rest)"
      "convert_to_libav_format f = Ret f'"
      using granting_codec [OF assms(1), of encoder] by (auto simp: codec_usable_def)
    show ?thesis
      unfolding f(1,2) computed.simps
      by (rule yields_bindp [OF yields_ret [where Q = "\<lambda>x. x = f # rest"]])
        (use assms in \<open>auto simp: granting_simps intro!: yields_call_bindp yields_owner
          yields_then [OF open_audio_codec_yields [OF _ f(3)]]\<close>)
  qed
  moreover have "is_sample_rate_supported r (h_codec_rates w encoder)" for r encoder
    using granting_codec [OF assms(1), of encoder]
    by (simp add: codec_usable_def is_sample_rate_supported_def find_supported_sample_rates_def)
  ultimately show ?thesis
    unfolding create_audio_codec_def using assms(1)
    by (auto simp: granting_simps intro!: yields_call_bindp yields_peek_bindp)
qed

lemma with_audio_yields:
  assumes "granting w" "\<And>fc fmt ctx s. yields w (k fc fmt ctx s) Q"
  shows "yields w (with_audio params k) Q"
  unfolding with_audio_def using assms
  by (auto simp: granting_simps case_prod_beta intro!: yields_call_bindp yields_owner create_audio_codec_yields add_stream_yields)

lemma create_video_encoder_yields:
  assumes "granting w" "fps_ratio ft \<noteq> None"
  shows "yields w (create_video_encoder n cuda pool width height ft pf) (\<lambda>_. True)"
proof -
  obtain cfg where "video_config_of ft width height = Some cfg"
    using assms(2) by (auto simp: video_config_of_def)
  then show ?thesis
    unfolding create_video_encoder_def using assms(1)
    by (auto simp: granting_simps intro!: yields_rules yields_then [OF yields_emit])
qed

lemma with_video_yields:
  assumes "granting w" "yields w create (\<lambda>_. True)" "\<And>ctx s. yields w (k ctx s) Q"
  shows "yields w (with_video fc create k) Q"
  unfolding with_video_def using assms by (auto intro!: yields_then [OF assms(2)] yields_owner add_stream_yields)

lemma with_output_yields: "granting w \<Longrightarrow> yields w k Q \<Longrightarrow> yields w (with_output params fc k) Q"
  unfolding with_output_def by (auto simp: granting_simps case_prod_beta intro!: yields_rules)

lemma add_signal_service_yields: "granting w \<Longrightarrow> yields w (add_signal_service s) (\<lambda>_. True)"
  unfolding add_signal_service_unfold signal_service_construct_def check_result_def
  by (cases s) (auto simp: granting_simps intro!: yields_rules yields_then [OF yields_emit] yields_then)

lemma add_signal_handler_yields: "granting w \<Longrightarrow> yields w (add_signal_handler sig s) (\<lambda>_. True)"
  unfolding add_signal_handler_def block_signal_def check_result_def
  by (auto simp: granting_simps intro!: yields_rules yields_then)

lemma record_session_yields:
  assumes "granting w"
  shows "yields w (record_session params fc fmt actx s svc l) (\<lambda>_. True)"
proof -
  have service: "yields w (new_service x) (\<lambda>_. True)" for x
    unfolding new_service_def using assms by (auto simp: granting_simps intro!: yields_rules)
  have loop: "yields w (session_run_loop x) (\<lambda>_. True)" for x
    unfolding session_run_loop_def using assms
    by (auto simp: granting_simps intro!: yields_then [OF add_signal_service_yields] yields_then [OF add_signal_handler_yields] yields_rules)
  have trailer: "yields w (write_trailer fc) (\<lambda>_. True)"
    unfolding write_trailer_def using assms by (auto simp: granting_simps intro!: yields_rules)
  show ?thesis
    unfolding record_session_def Let_def signal_service_destruct_def using assms
    by (auto intro!: yields_peek_bindp yields_then [OF add_signal_service_yields] yields_guarded yields_emit
        yields_then [OF add_signal_handler_yields] yields_then [OF service] yields_then [OF yields_emit] trailer loop)
qed

lemma run_wayland_yields:
  assumes "granting w" "display \<noteq> 0" "fps_ratio (p_frame_time params) \<noteq> None"
  shows "yields w (run_wayland params display) (\<lambda>_. True)"
proof -
  have cu: "yields w cu_init (\<lambda>_. True)"
    unfolding cu_init_def CUDA_SUCCESS_def using assms(1) by (auto simp: granting_simps intro!: yields_rules)
  have load: "yields w (returned (\<lambda>p. Wl (WlDisplayDisconnect p)) display
      (bindp (load_gl_extensions None None) (\<lambda>(_, egl_module). thenp load_cuda (egl (Some egl_module))))) (\<lambda>_. True)"
    unfolding load_cuda_def egl_def static_module_def using assms(1)
    by (auto intro!: yields_returned yields_then [OF load_gl_extensions_yields] yields_then [OF load_library_yields] yields_ret)
  show ?thesis
    unfolding run_wayland_def using assms
    by (intro yields_then [OF load] yields_then [OF initialize_wayland_yields] yields_guarded wayland_destruct_yields
        yields_then [OF initialize_wayland_egl_yields] wayland_egl_destruct_yields yields_then [OF cu]
        create_cuda_context_yields with_audio_yields with_video_yields create_video_encoder_yields
        with_output_yields record_session_yields)
qed

lemma block_signals_yields:
  assumes "granting w"
  shows "yields w (host_io (block_signals sigs)) (\<lambda>_. True)"
proof -
  have io: "\<not> io_int (h_io w t) u < 0" for t u
    using granting_io [OF assms, of t u] by simp
  have "yields (h_io w t) (add_signals b ss) (\<lambda>_. True)" for t b ss
    by (induction ss arbitrary: b) (auto simp: io intro!: yields_ret yields_call_bindp)
  then have "yields (h_io w t) (block_signals sigs) (\<lambda>_. True)" for t
    unfolding block_signals_def by (auto simp: io intro!: yields_then yields_ret yields_call_bindp)
  then have "\<exists>x es. block_signals sigs (h_io w t) [] = (Ret x, es)" for t
    unfolding yields_def by blast
  then show ?thesis
    unfolding yields_def host_io_def inside_def by (metis case_prod_conv)
qed

lemma yields_environment_bindp: "(\<And>g. yields w (f g) Q) \<Longrightarrow> yields w (bindp environment f) Q"
  by (simp add: yields_def environment_def bindp_def)

lemma start_recording_yields:
  assumes "granting w" "fps_ratio (p_frame_time params) \<noteq> None"
  shows "yields w (start_recording params) (\<lambda>_. True)"
  unfolding start_recording_def using assms
  by (auto simp: granting_simps simp del: neq0_conv not_gr_zero
      intro!: yields_then [OF yields_emit] yields_guarded yields_emit yields_call_bindp run_wayland_yields [OF _ granting_ptr])

lemma yields_noexcept_catching: "yields w p Q \<Longrightarrow> yields w (noexcept (catching p h)) Q"
  unfolding yields_def
proof
  fix t
  assume "\<forall>t. \<exists>x es. p w t = (Ret x, t @ es) \<and> Q x"
  then obtain x es where "p w t = (Ret x, t @ es)" "Q x" by blast
  then show "\<exists>x es. noexcept (catching p h) w t = (Ret x, t @ es) \<and> Q x"
    by (simp add: noexcept_def catching_def)
qed

lemma main_yields:
  assumes "granting w" "parse_cmd_line argv = Ret cl"
    and params: "\<And>getenv. \<exists>p. get_parameters getenv cl = Ret (Inr p) \<and> fps_ratio (p_frame_time p) \<noteq> None"
  shows "yields w (main strerror prog version argv) (\<lambda>x. x = 0)"
proof -
  have chosen: "yields w (bindp (computed (get_parameters getenv cl)) (\<lambda>params.
        thenp (case params of
            Inl (CmdLineError show_help m) \<Rightarrow> print_help prog
          | Inl (CmdLineError show_version m) \<Rightarrow> emit (Report (output_version version))
          | Inl e \<Rightarrow> throw e
          | Inr p \<Rightarrow> start_recording p)
        (ret 0))) (\<lambda>x. x = (0 :: int))" for getenv
  proof -
    obtain p where p: "get_parameters getenv cl = Ret (Inr p)" "fps_ratio (p_frame_time p) \<noteq> None"
      using params by blast
    show ?thesis
      unfolding p(1) computed.simps
      by (rule yields_bindp [OF yields_ret [where Q = "\<lambda>x. x = Inr p"]])
        (use p(2) assms(1) in \<open>auto intro!: yields_then [OF start_recording_yields] yields_ret\<close>)
  qed
  show ?thesis
    unfolding main_def assms(2) computed.simps
    by (rule yields_noexcept_catching, rule yields_then [OF block_signals_yields [OF assms(1)]],
        rule yields_bindp [OF yields_ret [where Q = "\<lambda>x. x = cl"]])
      (auto intro!: yields_environment_bindp chosen)
qed

section \<open>Properties\<close>

text \<open>
  (C24) A recording that nothing disturbs succeeds. When every call is granted, the compositor
  announces itself with an output of some size and the codecs have a usable sample format, a
  command line with usable parameters ends with code 0, with nothing left behind: every object
  released and the trailer of the output written.
\<close>

theorem recording_succeeds:
  assumes "granting w" "parse_cmd_line argv = Ret cl"
    and "\<And>getenv. \<exists>p. get_parameters getenv cl = Ret (Inr p) \<and> fps_ratio (p_frame_time p) \<noteq> None"
  shows "\<exists>new. main strerror prog version argv w [] = (Ret 0, new) \<and> track host_delta w [] new {#} = Some {#}"
proof -
  from main_yields [OF assms] obtain new where new: "main strerror prog version argv w [] = (Ret 0, new)"
    unfolding yields_def by (metis append_Nil)
  obtain new' L where "snd (main strerror prog version argv w []) = [] @ new'" "track host_delta w [] new' {#} = Some L"
    "fst (main strerror prog version argv w []) \<noteq> Abort \<Longrightarrow> ends_well (fst (main strerror prog version argv w [])) L"
    by (rule gains_run [OF main_gains]) blast
  with new show ?thesis by (simp add: ends_well_def)
qed

definition demo_host :: host_world where
  "demo_host = \<lparr>h_io = \<lambda>_. demo_io_world 0,
     h_int = \<lambda>t. (case last t of Cuda _ \<Rightarrow> 0 | _ \<Rightarrow> 1), h_ptr = \<lambda>t. Suc (length t),
     h_made = \<lambda>t. (case last t of Egl _ \<Rightarrow> (1, 1) | _ \<Rightarrow> (0, Suc (length t))),
     h_session = \<lambda>_. (0, 0), h_text = \<lambda>_. [], h_cuda_text = \<lambda>_. None, h_env = \<lambda>_. None,
     h_wl_events = \<lambda>_. [Global 1 ''wl_compositor'' 4, Global 2 ''wl_output'' 3, Mode 1 1920 1080],
     h_codec_rates = \<lambda>_. None, h_codec_formats = \<lambda>_. Some [AV_SAMPLE_FMT_FLT, AV_SAMPLE_FMT_NONE],
     h_codec_name = \<lambda>_. ''libopus'', h_frame_size = \<lambda>_. 0, h_av_strerror = \<lambda>_. None,
     h_signal = \<lambda>_. (- 1, 0), h_byte_order = little_endian, h_fails = \<lambda>_. None\<rparr>"

lemma demo_host_grants: "granting demo_host"
  unfolding granting_def granted_def compositor_announces_def codec_usable_def
  by (auto simp: demo_host_def demo_io_world_def WL_OUTPUT_MODE_CURRENT_def find_supported_formats_def
      split: host_call.split io_call.split)

lemma demo_parameters:
  "\<exists>p. get_parameters getenv \<lparr>options = [], args = [''out.mkv'']\<rparr> = Ret (Inr p) \<and> fps_ratio (p_frame_time p) \<noteq> None"
proof -
  have "ratio_is 60" using ratios_computed unfolding list_all_iff by (rule bspec) simp
  then obtain ft where "from_fps 60 = Some ft" "fps_ratio ft = Some (1, 60)"
    by (auto simp: ratio_is_def rate_error_def)
  then show ?thesis
    by (auto simp: get_parameters_def get_option_value_or_default_def has_option_def find_option_def from_fps_out_def
        read_env_def Let_def split: option.split)
qed

theorem recording_succeeds_witness:
  "\<exists>new. main (\<lambda>_. []) ''shadow-cast'' ''1'' [''out.mkv''] demo_host [] = (Ret 0, new) \<and>
     track host_delta demo_host [] new {#} = Some {#}"
proof -
  have "parse_cmd_line [''out.mkv''] = Ret \<lparr>options = [], args = [''out.mkv'']\<rparr>" by code_simp
  from recording_succeeds [OF demo_host_grants this demo_parameters] show ?thesis .
qed

end
