(* ===== verification/Gl.thy ===== *)
theory Gl
  imports Io Resources
begin

text \<open>
  The OpenGL layer: \<open>src/gl/*.cpp\<close> and \<open>*.hpp\<close>. A call to the driver together with the
  \<open>glGetError\<close> that follows it is one event, answered with the error code. The events of the
  EGL images, of CUDA and of the helper process, which the video service uses between its
  OpenGL calls, are declared here too, so that one history orders them all. Targets and names
  are tracked as resources: an object is held from its creation to its deletion, a target from
  its binding to its unbinding.
\<close>

section \<open>Calls\<close>

datatype gl_kind =
    VertexArrayKind | BufferKind | TextureKind | ShaderKind | ProgramKind | FramebufferKind

datatype gl_target =
    VertexArrayTarget | ArrayBuffer | ElementArrayBuffer | Texture2D | TextureExternal | ProgramTarget
  | DrawFramebuffer

datatype gl_call =
    GlCreate gl_kind int | GlDelete gl_kind u32 | GlBind gl_target u32 | GlCommand string "int list"
  | GlClearColor | GlSource u32 string | GlUniformName u32 string

datatype cuda_frame_call =
    CuPush | CuPop | CuRegister u32 | CuSetMapFlags nat | CuMap nat | CuGetArray nat | CuUnmap nat
  | CuUnregister nat | CuErrorText int

datatype gpu_call =
    GpuIo io_call | Gl gl_call | CudaFrame cuda_frame_call
  | CreateImage "int list" | DestroyImage nat | EglError | SwapInterval | ImageTarget nat
  | CloseReceived int | UnlinkSocket | ReadSymlink | FileExists string | HandleFrame nat

record gpu_world =
  gw_io :: "gpu_call list \<Rightarrow> io_world"
  gw_error :: "gpu_call list \<Rightarrow> u32"
  gw_name :: "gpu_call list \<Rightarrow> u32"
  gw_names :: "gpu_call list \<Rightarrow> u32 list"
  gw_int :: "gpu_call list \<Rightarrow> int"
  gw_ptr :: "gpu_call list \<Rightarrow> nat"
  gw_text :: "gpu_call list \<Rightarrow> string"
  gw_cuda_text :: "gpu_call list \<Rightarrow> string option"
  gw_path :: "gpu_call list \<Rightarrow> string option"
  gw_bool :: "gpu_call list \<Rightarrow> bool"
  gw_fails :: "gpu_call list \<Rightarrow> exn option"
  gw_location :: string

type_synonym 'a gpu_prog = "(gpu_world, gpu_call, 'a) prog"

definition gpu_io :: "'a io_prog \<Rightarrow> 'a gpu_prog" where
  "gpu_io p = inside gw_io GpuIo p"

datatype gpu_handle =
    GlObject gl_kind u32 | Bound gl_target | Image nat | Registered nat | Mapped nat | CurrentContext
  | Received int

fun gl_delta :: "gpu_world \<Rightarrow> gpu_call list \<Rightarrow> gl_call \<Rightarrow> gpu_handle multiset \<Rightarrow> gpu_handle multiset option" where
  "gl_delta w t (GlCreate k a) = acquire (gw_error w t = 0 \<and> gw_name w t \<noteq> 0) (GlObject k (gw_name w t))"
| "gl_delta w t (GlDelete k n) = release (GlObject k n)"
| "gl_delta w t (GlBind tg n) = (if n = 0 then release (Bound tg) else acquire (gw_error w t = 0) (Bound tg))"
| "gl_delta w t _ = Some"

fun cuda_frame_delta ::
  "gpu_world \<Rightarrow> gpu_call list \<Rightarrow> cuda_frame_call \<Rightarrow> gpu_handle multiset \<Rightarrow> gpu_handle multiset option" where
  "cuda_frame_delta w t CuPush = acquire True CurrentContext"
| "cuda_frame_delta w t CuPop = release CurrentContext"
| "cuda_frame_delta w t (CuRegister n) = acquire (gw_int w t = 0 \<and> gw_ptr w t \<noteq> 0) (Registered (gw_ptr w t))"
| "cuda_frame_delta w t (CuUnregister r) = release (Registered r)"
| "cuda_frame_delta w t (CuMap r) = acquire (gw_int w t = 0 \<and> r \<noteq> 0) (Mapped r)"
| "cuda_frame_delta w t (CuUnmap r) = release (Mapped r)"
| "cuda_frame_delta w t _ = Some"

fun gpu_delta :: "(gpu_world, gpu_call, gpu_handle) delta" where
  "gpu_delta w t (Gl c) = gl_delta w t c"
| "gpu_delta w t (CudaFrame c) = cuda_frame_delta w t c"
| "gpu_delta w t (CreateImage a) = acquire (gw_ptr w t \<noteq> 0) (Image (gw_ptr w t))"
| "gpu_delta w t (DestroyImage i) = release (Image i)"
| "gpu_delta w t (CloseReceived fd) = release (Received fd)"
| "gpu_delta w t _ = Some"

section \<open>Errors\<close>

definition GL_NO_ERROR :: u32 where "GL_NO_ERROR = 0"
definition GL_INVALID_ENUM :: u32 where "GL_INVALID_ENUM = 0x0500"
definition GL_INVALID_VALUE :: u32 where "GL_INVALID_VALUE = 0x0501"
definition GL_INVALID_OPERATION :: u32 where "GL_INVALID_OPERATION = 0x0502"

definition gl_error_to_string :: "u32 \<Rightarrow> string" where
  "gl_error_to_string e =
     (if e = GL_INVALID_VALUE then ''GL_INVALID_VALUE''
      else if e = GL_INVALID_OPERATION then ''GL_INVALID_OPERATION''
      else if e = GL_INVALID_ENUM then ''GL_INVALID_ENUM''
      else ''GL_UNKNOWN'')"

definition framebuffer_status_to_string :: "u32 \<Rightarrow> string" where
  "framebuffer_status_to_string s =
     (if s = 0x8219 then ''GL_FRAMEBUFFER_UNDEFINED''
      else if s = 0x8CD6 then ''GL_FRAMEBUFFER_INCOMPLETE_ATTACHMENT''
      else if s = 0x8CD7 then ''GL_FRAMEBUFFER_INCOMPLETE_MISSING_ATTACHMENT''
      else if s = 0x8CDB then ''GL_FRAMEBUFFER_INCOMPLETE_DRAW_BUFFER''
      else if s = 0x8CDC then ''GL_FRAMEBUFFER_INCOMPLETE_READ_BUFFER''
      else if s = 0x8CDD then ''GL_FRAMEBUFFER_UNSUPPORTED''
      else if s = 0x8D56 then ''GL_FRAMEBUFFER_INCOMPLETE_MULTISAMPLE''
      else if s = 0x8DA8 then ''GL_FRAMEBUFFER_INCOMPLETE_LAYER_TARGETS''
      else ''GL_UNKNOWN'')"

text \<open>The text of the source location, file and line, is a constant of the build.\<close>

definition throw_gl_error :: "string \<Rightarrow> 'a gpu_prog" where
  "throw_gl_error msg = (\<lambda>w t. (Exc (RuntimeError (msg @ '' '' @ gw_location w)), t))"

definition check_gl_error :: "string \<Rightarrow> u32 \<Rightarrow> unit gpu_prog" where
  "check_gl_error src e =
     (if e \<noteq> GL_NO_ERROR then throw_gl_error (src @ '' failed: '' @ gl_error_to_string e) else ret ())"

definition check_gl_error_noexcept :: "u32 \<Rightarrow> unit gpu_prog" where
  "check_gl_error_noexcept e = (if e \<noteq> GL_NO_ERROR then contract_check_failed else ret ())"

definition gl_command :: "string \<Rightarrow> string \<Rightarrow> int list \<Rightarrow> unit gpu_prog" where
  "gl_command name src as = bindp (call gw_error (Gl (GlCommand name as))) (check_gl_error src)"

text \<open>A command with a result: the error is looked at before the result.\<close>

definition gl_query :: "(gpu_world \<Rightarrow> gpu_call list \<Rightarrow> 'a) \<Rightarrow> string \<Rightarrow> gl_call \<Rightarrow> 'a gpu_prog" where
  "gl_query f src c = bindp (call (\<lambda>w t. (gw_error w t, f w t)) (Gl c)) (\<lambda>(e, x).
     thenp (check_gl_error src e) (ret x))"

section \<open>Objects\<close>

text \<open>
  \<open>ObjectBase\<close>: the name, 0 for none; a \<open>Program\<close> also counts its shaders. Moving, swapping and
  destroying follow the pattern of the owners.
\<close>

record gl_object =
  gl_name :: u32

definition object_none :: gl_object where
  "object_none = \<lparr>gl_name = 0\<rparr>"

definition object_move :: "gl_object \<Rightarrow> gl_object \<times> gl_object" where
  "object_move other = (\<lparr>gl_name = gl_name other\<rparr>, other\<lparr>gl_name := 0\<rparr>)"

definition object_swap :: "gl_object \<Rightarrow> gl_object \<Rightarrow> gl_object \<times> gl_object" where
  "object_swap a b = (a\<lparr>gl_name := gl_name b\<rparr>, b\<lparr>gl_name := gl_name a\<rparr>)"

definition object_destruct :: "gl_object \<Rightarrow> u32 set \<Rightarrow> u32 set option" where
  "object_destruct x R = (if gl_name x = 0 then Some R
     else if gl_name x \<in> R then Some (R - {gl_name x}) else None)"

definition object_owned :: "gl_object \<Rightarrow> u32 option" where
  "object_owned x = (if gl_name x = 0 then None else Some (gl_name x))"

definition object_assign :: "nat \<Rightarrow> nat \<Rightarrow> (gl_object, u32) owners \<Rightarrow> (gl_object, u32) owners option" where
  "object_assign = move_assign_with object_move object_swap object_destruct"

lemmas object_defs = object_none_def object_move_def object_swap_def object_destruct_def object_owned_def

interpretation globj: owning_handle object_none "\<lambda>_. True" object_owned object_move object_swap object_destruct
  by unfold_locales (auto simp: object_defs split: if_splits)

text \<open>Names are deleted once, whatever is moved where.\<close>

lemma object_deleted_once:
  "\<exists>st. run_steps (checked (\<lambda>_. True) object_owned
      (owner_step object_none object_move object_assign object_destruct)) ops
      \<lparr>vars = Map.empty, live = {}\<rparr> = Some st \<and>
    held_once (holds object_owned st) (live st) \<and> (vars st = Map.empty \<longrightarrow> live st = {})"
proof -
  from globj.never_released_twice [OF no_owners_inv, of ops] obtain st where
    st: "run_steps (checked (\<lambda>_. True) object_owned
      (owner_step object_none object_move object_assign object_destruct)) ops
      \<lparr>vars = Map.empty, live = {}\<rparr> = Some st" "owners_inv (\<lambda>_. True) object_owned st"
    by (auto simp: object_assign_def)
  from globj.nothing_lost [OF st(2)] globj.inv_heldD [OF st(2)] st(1) show ?thesis by auto
qed

fun create_command :: "gl_kind \<Rightarrow> string" where
  "create_command VertexArrayKind = ''glGenVertexArrays''"
| "create_command BufferKind = ''glGenBuffers''"
| "create_command TextureKind = ''glGenTextures''"
| "create_command ShaderKind = ''glCreateShader''"
| "create_command ProgramKind = ''glCreateProgram''"
| "create_command FramebufferKind = ''glGenFramebuffers''"

text \<open>The \<open>create\<close> and \<open>destroy\<close> of the traits.\<close>

definition gl_create :: "gl_kind \<Rightarrow> int \<Rightarrow> u32 gpu_prog" where
  "gl_create k a = gl_query gw_name (create_command k) (GlCreate k a)"

definition gl_destroy :: "gl_kind \<Rightarrow> u32 \<Rightarrow> unit gpu_prog" where
  "gl_destroy k n = (if n = 0 then ret ()
     else bindp (call gw_error (Gl (GlDelete k n))) check_gl_error_noexcept)"

text \<open>
  The \<open>bind\<close> of the traits is \<open>noexcept\<close>; that of buffers uses the check that throws, with the
  same effect.
\<close>

definition gl_bind :: "gl_target \<Rightarrow> u32 \<Rightarrow> unit gpu_prog" where
  "gl_bind tg n = bindp (call gw_error (Gl (GlBind tg n))) (\<lambda>e.
     if tg \<in> {ArrayBuffer, ElementArrayBuffer} then noexcept (check_gl_error ''glBindBuffer'' e)
     else check_gl_error_noexcept e)"

text \<open>
  \<open>BoundTarget\<close> as a scope: bound by its constructor, unbound by its destructor.
\<close>

definition with_bound :: "gl_target \<Rightarrow> u32 \<Rightarrow> 'a gpu_prog \<Rightarrow> 'a gpu_prog" where
  "with_bound tg n body =
     thenp (sc_expect (n \<noteq> 0)) (thenp (gl_bind tg n) (guarded (if n \<noteq> 0 then gl_bind tg 0 else ret ()) body))"

text \<open>An object of a scope, and one that the scope gives away by returning.\<close>

definition with_object :: "gl_kind \<Rightarrow> int \<Rightarrow> (u32 \<Rightarrow> 'a gpu_prog) \<Rightarrow> 'a gpu_prog" where
  "with_object k a body = bindp (gl_create k a) (\<lambda>n. guarded (gl_destroy k n) (body n))"

definition giving_object :: "gl_kind \<Rightarrow> int \<Rightarrow> (u32 \<Rightarrow> 'a gpu_prog) \<Rightarrow> 'a gpu_prog" where
  "giving_object k a body = bindp (gl_create k a) (\<lambda>n. guarded_unless_ret (gl_destroy k n) (body n))"

section \<open>Commands\<close>

definition GL_TRUE :: int where "GL_TRUE = 1"
definition GL_TRIANGLES :: int where "GL_TRIANGLES = 4"
definition GL_UNSIGNED_BYTE :: int where "GL_UNSIGNED_BYTE = 0x1401"
definition GL_UNSIGNED_INT :: int where "GL_UNSIGNED_INT = 0x1405"
definition GL_FLOAT :: int where "GL_FLOAT = 0x1406"
definition GL_COLOR_ATTACHMENT0 :: int where "GL_COLOR_ATTACHMENT0 = 0x8CE0"
definition GL_STATIC_DRAW :: int where "GL_STATIC_DRAW = 0x88E4"
definition GL_TEXTURE_WIDTH :: int where "GL_TEXTURE_WIDTH = 0x1000"
definition GL_TEXTURE_HEIGHT :: int where "GL_TEXTURE_HEIGHT = 0x1001"
definition GL_TEXTURE_BORDER_COLOR :: int where "GL_TEXTURE_BORDER_COLOR = 0x1004"
definition GL_TEXTURE_SWIZZLE_RGBA :: int where "GL_TEXTURE_SWIZZLE_RGBA = 0x8E46"
definition GL_FRAMEBUFFER_COMPLETE :: u32 where "GL_FRAMEBUFFER_COMPLETE = 0x8CD5"

fun target_enum :: "gl_target \<Rightarrow> int" where
  "target_enum VertexArrayTarget = 0"
| "target_enum ArrayBuffer = 0x8892"
| "target_enum ElementArrayBuffer = 0x8893"
| "target_enum Texture2D = 0x0DE1"
| "target_enum TextureExternal = 0x8D65"
| "target_enum ProgramTarget = 0"
| "target_enum DrawFramebuffer = 0x8CA9"

subsection \<open>Core\<close>

definition viewport :: "int \<Rightarrow> int \<Rightarrow> int \<Rightarrow> int \<Rightarrow> unit gpu_prog" where
  "viewport x y width height = gl_command ''glViewport'' ''glViewport'' [x, y, width, height]"

definition clear :: "int \<Rightarrow> unit gpu_prog" where
  "clear buffers = gl_command ''glClear'' ''glClear'' [buffers]"

definition clear_color :: "unit gpu_prog" where
  "clear_color = emit (Gl GlClearColor)"

definition enable :: "int \<Rightarrow> unit gpu_prog" where
  "enable cap = gl_command ''glEnable'' ''glEnable'' [cap]"

definition blend_function :: "int \<Rightarrow> int \<Rightarrow> unit gpu_prog" where
  "blend_function sfactor dfactor = gl_command ''glBlendFunc'' ''glBlendFunc'' [sfactor, dfactor]"

subsection \<open>Buffers and vertex arrays\<close>

definition buffer_data :: "gl_target \<Rightarrow> nat \<Rightarrow> int \<Rightarrow> unit gpu_prog" where
  "buffer_data tg bytes usage = gl_command ''glBufferData'' ''glBufferData'' [target_enum tg, int bytes, usage]"

definition named_buffer_data :: "u32 \<Rightarrow> nat \<Rightarrow> int \<Rightarrow> unit gpu_prog" where
  "named_buffer_data n bytes usage = gl_command ''glNamedBufferData'' ''glNamedBufferData'' [uint n, int bytes, usage]"

definition vertex_attrib_pointer :: "int \<Rightarrow> int \<Rightarrow> int \<Rightarrow> bool \<Rightarrow> int \<Rightarrow> unit gpu_prog" where
  "vertex_attrib_pointer index components type normalized stride =
     gl_command ''glVertexAttribPointer'' ''glVertexAttribPointer'' [index, components, type, of_bool normalized, stride]"

definition enable_vertex_array_attrib :: "u32 \<Rightarrow> int \<Rightarrow> unit gpu_prog" where
  "enable_vertex_array_attrib vao index =
     gl_command ''glEnableVertexArrayAttrib'' ''glEnableVertexArrayAttrib'' [uint vao, index]"

definition disable_vertex_array_attrib :: "u32 \<Rightarrow> int \<Rightarrow> unit gpu_prog" where
  "disable_vertex_array_attrib vao index =
     gl_command ''glDisableVertexArrayAttrib'' ''glDisableVertexArrayAttrib'' [uint vao, index]"

definition draw_arrays :: "int \<Rightarrow> int \<Rightarrow> int \<Rightarrow> unit gpu_prog" where
  "draw_arrays mode first n = gl_command ''glDrawArrays'' ''glDrawArrays'' [mode, first, n]"

definition draw_elements :: "int \<Rightarrow> int \<Rightarrow> int \<Rightarrow> unit gpu_prog" where
  "draw_elements mode n type = gl_command ''glDrawElements'' ''glDrawElements'' [mode, n, type]"

subsection \<open>Textures\<close>

definition texture_image_2d :: "gl_target \<Rightarrow> int \<Rightarrow> int \<Rightarrow> int \<Rightarrow> int \<Rightarrow> int \<Rightarrow> int \<Rightarrow> int \<Rightarrow> unit gpu_prog" where
  "texture_image_2d tg level internal_format width height border format type =
     gl_command ''glTexImage2D'' ''glTexImage2D''
       [target_enum tg, level, internal_format, width, height, border, format, type]"

definition texture_parameter :: "gl_target \<Rightarrow> bool \<Rightarrow> int \<Rightarrow> int \<Rightarrow> unit gpu_prog" where
  "texture_parameter tg is_float param_name value =
     gl_command (if is_float then ''glTexParameterf'' else ''glTexParameteri'') ''glTexParameterT''
       [target_enum tg, param_name, value]"

datatype gl_vector = FloatVector "int list" | IntVector "int list" | UIntVector "int list"

fun vector_values :: "gl_vector \<Rightarrow> int list" where
  "vector_values (FloatVector xs) = xs"
| "vector_values (IntVector xs) = xs"
| "vector_values (UIntVector xs) = xs"

fun vector_command :: "gl_vector \<Rightarrow> string" where
  "vector_command (FloatVector xs) = ''glTexParameterfv''"
| "vector_command (IntVector xs) = ''glTexParameteriv''"
| "vector_command (UIntVector xs) = ''glTexParameterIuiv''"

definition texture_parameter_vector :: "gl_target \<Rightarrow> int \<Rightarrow> gl_vector \<Rightarrow> unit gpu_prog" where
  "texture_parameter_vector tg param_name v =
     thenp (sc_expect (length (vector_values v) > 0))
     (thenp (whenp (param_name = GL_TEXTURE_BORDER_COLOR \<or> param_name = GL_TEXTURE_SWIZZLE_RGBA)
         (sc_expect (length (vector_values v) = 4)))
     (gl_command (vector_command v) ''glTexParameterTv'' ([target_enum tg, param_name] @ vector_values v)))"

definition get_texture_level_parameter :: "gl_target \<Rightarrow> bool \<Rightarrow> int \<Rightarrow> int \<Rightarrow> int gpu_prog" where
  "get_texture_level_parameter tg is_float level param_name =
     (if param_name \<noteq> GL_TEXTURE_WIDTH \<and> param_name \<noteq> GL_TEXTURE_HEIGHT then contract_check_failed
      else gl_query gw_int ''glTexParameterT''
        (GlCommand (if is_float then ''glGetTexLevelParameterfv'' else ''glGetTexLevelParameteriv'')
          [target_enum tg, level, param_name]))"

definition format_to_component_length :: "int \<Rightarrow> nat option" where
  "format_to_component_length fmt =
     (if fmt \<in> {0x1907, 0x80E0} then Some 3 else if fmt \<in> {0x1908, 0x80E1} then Some 4 else None)"

text \<open>The product of the sizes is a signed 32-bit one, whose overflow is undefined.\<close>

definition get_texture_image :: "gl_target \<Rightarrow> int \<Rightarrow> int \<Rightarrow> nat \<Rightarrow> nat \<Rightarrow> int \<Rightarrow> unit gpu_prog" where
  "get_texture_image tg level format num_pixels size_of type =
     bindp (get_texture_level_parameter tg False level GL_TEXTURE_WIDTH) (\<lambda>width.
     bindp (get_texture_level_parameter tg False level GL_TEXTURE_HEIGHT) (\<lambda>height.
     if \<bar>width * height\<bar> \<ge> 2 ^ 31 then terminate
     else (case format_to_component_length format of
         None \<Rightarrow> contract_check_failed
       | Some n \<Rightarrow>
           thenp (sc_expect (num_pixels \<ge> unat (word_of_int (width * height) * of_nat size_of * of_nat n :: u64)))
           (gl_command ''glGetTexImage'' ''glGetTexImage'' [target_enum tg, level, format, type]))))"

subsection \<open>Frame buffers\<close>

definition framebuffer_texture :: "gl_target \<Rightarrow> int \<Rightarrow> u32 \<Rightarrow> int \<Rightarrow> unit gpu_prog" where
  "framebuffer_texture tg attachment texture level =
     gl_command ''glFramebufferTexture'' ''glFramebufferTexture'' [target_enum tg, attachment, uint texture, level]"

definition get_framebuffer_status :: "gl_target \<Rightarrow> u32 gpu_prog" where
  "get_framebuffer_status tg =
     gl_query gw_name ''glCheckFramebufferStatus'' (GlCommand ''glCheckFramebufferStatus'' [target_enum tg])"

definition check_framebuffer_status :: "gl_target \<Rightarrow> unit gpu_prog" where
  "check_framebuffer_status tg = bindp (get_framebuffer_status tg) (\<lambda>val.
     if val \<noteq> GL_FRAMEBUFFER_COMPLETE then throw_gl_error (framebuffer_status_to_string val) else ret ())"

definition draw_buffers :: "int list \<Rightarrow> unit gpu_prog" where
  "draw_buffers bufs = gl_command ''glDrawBuffers'' ''glDrawBuffers'' (int (length bufs) # bufs)"

subsection \<open>Shaders and programs\<close>

datatype shader_type = vertex | fragment

fun shader_enum :: "shader_type \<Rightarrow> int" where
  "shader_enum vertex = 0x8B31"
| "shader_enum fragment = 0x8B30"

definition shader_source :: "u32 \<Rightarrow> string \<Rightarrow> unit gpu_prog" where
  "shader_source n src = gl_query (\<lambda>_ _. ()) ''glShaderSource'' (GlSource n src)"

definition info_log :: "string \<Rightarrow> u32 \<Rightarrow> string gpu_prog" where
  "info_log name n = gl_query gw_text name (GlCommand name [uint n, 1024])"

definition compile_shader :: "u32 \<Rightarrow> unit gpu_prog" where
  "compile_shader n =
     thenp (gl_command ''glCompileShader'' ''glCompileShader'' [uint n])
     (bindp (gl_query gw_int ''glGetShaderiv'' (GlCommand ''glGetShaderiv'' [uint n, 0x8B81])) (\<lambda>status.
      if status \<noteq> GL_TRUE then
        bindp (info_log ''glGetShaderInfoLog'' n) (\<lambda>log. throw_gl_error (''Shader compilation failed - '' @ log))
      else ret ()))"

definition attach_shader :: "u32 \<Rightarrow> u32 \<Rightarrow> unit gpu_prog" where
  "attach_shader program shader = gl_command ''glAttachShader'' ''glAttachShader'' [uint program, uint shader]"

text \<open>
  The driver returns at most as many shaders as it is asked for. \<open>attach_shader\<close> does not count:
  the number is the one the program was constructed with, 0.
\<close>

definition detach_shaders :: "u32 \<Rightarrow> nat \<Rightarrow> unit gpu_prog" where
  "detach_shaders program num_shaders_attached =
     bindp (gl_query gw_names ''glGetAttachedShaders''
       (GlCommand ''glGetAttachedShaders'' [uint program, int (min num_shaders_attached 10)])) (\<lambda>shaders.
     for_each (\<lambda>s. gl_command ''glDetachShader'' ''glDetachShader'' [uint program, uint s])
       (take (min num_shaders_attached 10) shaders))"

definition link_program :: "u32 \<Rightarrow> nat \<Rightarrow> unit gpu_prog" where
  "link_program n num_shaders_attached =
     thenp (gl_command ''glLinkProgram'' ''glLinkProgram'' [uint n])
     (bindp (gl_query gw_int ''glGetProgramiv GL_LINK_STATUS'' (GlCommand ''glGetProgramiv'' [uint n, 0x8B82])) (\<lambda>status.
      if status \<noteq> GL_TRUE then
        bindp (info_log ''glGetProgramInfoLog'' n) (\<lambda>log. throw_gl_error (''failed linking program - '' @ log))
      else detach_shaders n num_shaders_attached))"

definition validate_program :: "u32 \<Rightarrow> unit gpu_prog" where
  "validate_program n =
     thenp (gl_command ''glValidateProgram'' ''glValidateProgram'' [uint n])
     (bindp (gl_query gw_int ''glGetProgramiv GL_VALIDATE_STATUS'' (GlCommand ''glGetProgramiv'' [uint n, 0x8B83])) (\<lambda>status.
      if status \<noteq> GL_TRUE then
        bindp (info_log ''glGetProgramInfoLog'' n) (\<lambda>log. throw_gl_error (''failed validation - '' @ log))
      else ret ()))"

definition bind_attrib_location :: "unit gpu_prog" where
  "bind_attrib_location = contract_check_failed"

definition get_uniform_location :: "u32 \<Rightarrow> string \<Rightarrow> int gpu_prog" where
  "get_uniform_location program name = gl_query gw_int ''glGetUniformLocation'' (GlUniformName program name)"

text \<open>\<open>uniform\<close> with one to four numbers; the names differ in the count.\<close>

definition uniform :: "int \<Rightarrow> int list \<Rightarrow> unit gpu_prog" where
  "uniform location params =
     (let name = ''glUniform'' @ [char_of (48 + length params)] @ ''fv''
      in gl_command name name ([location, 1] @ params))"

definition uniform_matrix :: "unit gpu_prog" where
  "uniform_matrix = contract_check_failed"

section \<open>What they hold\<close>

lemma throw_gl_error_gains: "(\<And>e. G (Exc e) {#}) \<Longrightarrow> gains d (throw_gl_error m) G"
  by (auto simp: gains_def throw_gl_error_def held_by_def)

lemma check_gl_error_neutral: "neutral d (check_gl_error src e)"
  by (auto simp: check_gl_error_def intro: throw_gl_error_gains gains_ret)

lemma gl_command_neutral: "neutral gpu_delta (gl_command n src as)"
  unfolding gl_command_def by (auto intro!: gains_call_bindp check_gl_error_neutral)

lemma gl_query_neutral:
  assumes "\<And>w t H. gl_delta w t c H = Some H"
  shows "neutral gpu_delta (gl_query f src c)"
  unfolding gl_query_def
  by (auto simp: assms split: prod.split intro!: gains_call_bindp neutral_bindp [OF check_gl_error_neutral] gains_ret)

lemma sc_expect_neutral: "neutral d (sc_expect b)"
  by (auto simp: sc_expect_def contract_check_failed_def intro: gains_ret gains_terminate)

text \<open>Commands neither acquire nor release, whatever they are made of.\<close>

lemma unbind_releases: "scoped gpu_delta {#Bound tg#} (gl_bind tg 0) (\<lambda>r L. r = Ret () \<longrightarrow> L = {#})"
  unfolding gl_bind_def
  by (rule scoped_release_call [where r = "Bound tg"])
    (auto simp: scoped_nothing check_gl_error_def check_gl_error_noexcept_def noexcept_def throw_gl_error_def
      contract_check_failed_def prog_run gains_def held_by_def)

text \<open>A target is unbound on every way out of the scope that bound it.\<close>

lemma with_bound_gains:
  assumes "gains gpu_delta p G"
  shows "gains gpu_delta (with_bound tg n p) G"
proof (cases "n = 0")
  case True
  then show ?thesis
    by (auto simp: with_bound_def sc_expect_def contract_check_failed_def gains_def held_by_def bindp_def prog_run)
next
  case False
  have body: "scoped gpu_delta {#Bound tg#} (guarded (gl_bind tg 0) p) G"
    by (rule scoped_cleanup [OF assms unbind_releases])
  have bind: "gains gpu_delta (gl_bind tg n) (\<lambda>r L. case r of
      Ret x \<Rightarrow> L = {#Bound tg#} | Exc e \<Rightarrow> G (Exc e) L | Abort \<Rightarrow> True)"
    unfolding gl_bind_def
    by (rule gains_acquire [where b = "\<lambda>e. e = 0" and r = "\<lambda>_. Bound tg"])
      (use False in \<open>auto simp: check_gl_error_def check_gl_error_noexcept_def GL_NO_ERROR_def noexcept_def
        throw_gl_error_def contract_check_failed_def prog_run gains_def held_by_def scoped_def\<close>)
  have expect: "sc_expect True = ret ()" by (simp add: sc_expect_def)
  have "gains gpu_delta (thenp (gl_bind tg n) (guarded (gl_bind tg 0) p)) G"
    by (rule gains_bindp_release [OF bind]) (rule body)
  moreover have "with_bound tg n p = thenp (gl_bind tg n) (guarded (gl_bind tg 0) p)"
    using False by (simp add: with_bound_def expect bindp_ret_left)
  ultimately show ?thesis by simp
qed

lemma gl_destroy_releases:
  "scoped gpu_delta (if n = 0 then {#} else {#GlObject k n#}) (gl_destroy k n) (\<lambda>r L. r = Ret () \<longrightarrow> L = {#})"
proof (cases "n = 0")
  case True
  then show ?thesis by (simp add: gl_destroy_def scoped_ret)
next
  case False
  have "scoped gpu_delta {#GlObject k n#} (bindp (call gw_error (Gl (GlDelete k n))) check_gl_error_noexcept)
      (\<lambda>r L. r = Ret () \<longrightarrow> L = {#})"
    by (rule scoped_release_call [where r = "GlObject k n"])
      (auto simp: scoped_nothing check_gl_error_noexcept_def contract_check_failed_def intro: gains_ret gains_terminate)
  with False show ?thesis by (simp add: gl_destroy_def)
qed

definition object_held :: "gl_kind \<Rightarrow> u32 \<Rightarrow> gpu_handle multiset" where
  "object_held k n = (if n = 0 then {#} else {#GlObject k n#})"

lemma bindp_throw_gl_error: "bindp (throw_gl_error m) f = throw_gl_error m"
  by (simp add: fun_eq_iff bindp_def throw_gl_error_def)

lemma gl_create_gains:
  "gains gpu_delta (gl_create k a) (\<lambda>r L. case r of Ret n \<Rightarrow> L = object_held k n | _ \<Rightarrow> L = {#})"
  unfolding gl_create_def gl_query_def
  by (rule gains_acquire [where b = "\<lambda>x. fst x = 0 \<and> snd x \<noteq> 0" and r = "\<lambda>x. GlObject k (snd x)"])
    (auto simp: object_held_def check_gl_error_def GL_NO_ERROR_def bindp_ret_left bindp_throw_gl_error
      intro!: gains_ret scoped_ret throw_gl_error_gains)

lemma with_object_gains:
  assumes "\<And>n. gains gpu_delta (body n) G" and "\<And>e. G (Exc e) {#}"
  shows "gains gpu_delta (with_object k a body) G"
  unfolding with_object_def
proof (rule gains_bindp_release [where R = "object_held k"])
  show "gains gpu_delta (gl_create k a) (\<lambda>r L. case r of
      Ret n \<Rightarrow> L = object_held k n | Exc e \<Rightarrow> G (Exc e) L | Abort \<Rightarrow> True)"
    by (rule gains_weaken [OF gl_create_gains]) (auto simp: assms(2) split: outcome.splits)
  show "scoped gpu_delta (object_held k n) (guarded (gl_destroy k n) (body n)) G" for n
    unfolding object_held_def by (rule scoped_cleanup [OF assms(1) gl_destroy_releases])
qed

lemma giving_object_gains:
  assumes "\<And>n. gains gpu_delta (body n) (\<lambda>r L. case r of
      Ret x \<Rightarrow> G (Ret x) (object_held k n + L) | Exc e \<Rightarrow> G (Exc e) L | Abort \<Rightarrow> True)"
    and "\<And>e. G (Exc e) {#}"
  shows "gains gpu_delta (giving_object k a body) G"
  unfolding giving_object_def
proof (rule gains_bindp_release [where R = "object_held k"])
  show "gains gpu_delta (gl_create k a) (\<lambda>r L. case r of
      Ret n \<Rightarrow> L = object_held k n | Exc e \<Rightarrow> G (Exc e) L | Abort \<Rightarrow> True)"
    by (rule gains_weaken [OF gl_create_gains]) (auto simp: assms(2) split: outcome.splits)
  have body: "gains gpu_delta (body n) (\<lambda>r L. case r of Ret x \<Rightarrow> G r (object_held k n + L) | Exc e \<Rightarrow> G r L | Abort \<Rightarrow> True)" for n
    by (rule gains_weaken [OF assms(1)]) (auto split: outcome.splits)
  show "scoped gpu_delta (object_held k n) (guarded_unless_ret (gl_destroy k n) (body n)) G" for n
    by (rule scoped_guarded_unless_ret [OF body]) (unfold object_held_def, rule gl_destroy_releases)
qed

end
