(* ===== verification/Color_Converter.thy ===== *)
theory Color_Converter
  imports Gl
begin

text \<open>
  The colour converter, \<open>src/services/color_converter.cpp\<close>: it draws the captured image and the
  mouse cursor into the output texture. The shader sources are embedded by the build and are
  arguments. Numbers given to the driver as floats are the integers they are made from.
\<close>

section \<open>The converter\<close>

record shader_sources =
  default_vertex :: string
  default_fragment :: string
  mouse_vertex :: string
  mouse_fragment :: string

record converter =
  cc_fbo :: u32
  cc_input :: u32
  cc_mouse :: u32
  cc_output :: u32
  cc_vao :: u32
  cc_vertices :: u32
  cc_coords :: u32
  cc_indices :: u32
  cc_program :: u32
  cc_mouse_program :: u32
  cc_width :: u32
  cc_height :: u32
  cc_mouse_dimensions :: int
  cc_mouse_position :: int
  cc_initialized :: bool

definition new_converter :: "u32 \<Rightarrow> u32 \<Rightarrow> converter" where
  "new_converter width height = \<lparr>cc_fbo = 0, cc_input = 0, cc_mouse = 0, cc_output = 0, cc_vao = 0, cc_vertices = 0,
     cc_coords = 0, cc_indices = 0, cc_program = 0, cc_mouse_program = 0, cc_width = width, cc_height = height,
     cc_mouse_dimensions = 0, cc_mouse_position = 0, cc_initialized = False\<rparr>"

section \<open>Initialisation\<close>

definition vertices :: "int list" where
  "vertices = [1, -1, 0, -1, -1, 0, -1, 1, 0, 1, 1, 0]"

definition texture_coords :: "int list" where
  "texture_coords = [1, 0, 0, 0, 0, 1, 1, 1]"

definition indices :: "int list" where
  "indices = [0, 1, 2, 0, 2, 3]"

definition setup_attribute :: "u32 \<Rightarrow> u32 \<Rightarrow> int list \<Rightarrow> int \<Rightarrow> int \<Rightarrow> unit gpu_prog" where
  "setup_attribute vao buffer values index components =
     with_bound ArrayBuffer buffer
       (thenp (buffer_data ArrayBuffer (4 * length values) GL_STATIC_DRAW)
       (thenp (vertex_attrib_pointer index components GL_FLOAT False (components * 4))
       (enable_vertex_array_attrib vao index)))"

definition setup_vertices :: "u32 \<Rightarrow> u32 \<Rightarrow> u32 \<Rightarrow> u32 \<Rightarrow> unit gpu_prog" where
  "setup_vertices vao vertex_buffer texture_coords_buffer index_buffer =
     with_bound VertexArrayTarget vao
       (thenp (setup_attribute vao vertex_buffer vertices 0 3)
       (thenp (setup_attribute vao texture_coords_buffer texture_coords 1 2)
       (with_bound ElementArrayBuffer index_buffer
         (buffer_data ElementArrayBuffer (4 * length indices) GL_STATIC_DRAW))))"

definition setup_output :: "u32 \<Rightarrow> u32 \<Rightarrow> u32 \<Rightarrow> unit gpu_prog" where
  "setup_output texture width height =
     with_bound Texture2D texture
       (thenp (texture_image_2d Texture2D 0 0x1908 (sint width) (sint height) 0 0x80E1 GL_UNSIGNED_BYTE)
       (thenp (texture_parameter Texture2D False 0x2800 0x2601)
       (texture_parameter Texture2D False 0x2801 0x2601)))"

definition with_shader :: "shader_type \<Rightarrow> string \<Rightarrow> (u32 \<Rightarrow> 'a gpu_prog) \<Rightarrow> 'a gpu_prog" where
  "with_shader type src k = with_object ShaderKind (shader_enum type) (\<lambda>s.
     thenp (shader_source s src) (thenp (compile_shader s) (k s)))"

text \<open>A program of two shaders. The shaders live to the end of the initialisation.\<close>

definition with_program :: "string \<Rightarrow> string \<Rightarrow> (u32 \<Rightarrow> 'a gpu_prog) \<Rightarrow> 'a gpu_prog" where
  "with_program vertex_source fragment_source k =
     with_shader vertex vertex_source (\<lambda>vertex_shader.
     with_shader fragment fragment_source (\<lambda>fragment_shader.
     giving_object ProgramKind 0 (\<lambda>program.
       thenp (attach_shader program vertex_shader)
      (thenp (attach_shader program fragment_shader)
      (thenp (link_program program 0)
      (thenp (validate_program program)
      (k program)))))))"

definition setup_mouse_program :: "u32 \<Rightarrow> u32 \<Rightarrow> u32 \<Rightarrow> (int \<times> int) gpu_prog" where
  "setup_mouse_program program width height =
     with_bound ProgramTarget program
       (bindp (get_uniform_location program ''screen_dimensions'') (\<lambda>loc.
        thenp (uniform loc [uint width, uint height])
       (bindp (get_uniform_location program ''mouse_dimensions'') (\<lambda>dimensions.
        bindp (get_uniform_location program ''mouse_position'') (\<lambda>position.
        ret (dimensions, position))))))"

definition setup_framebuffer :: "u32 \<Rightarrow> u32 \<Rightarrow> unit gpu_prog" where
  "setup_framebuffer fbo output_texture =
     with_bound DrawFramebuffer fbo
       (thenp (enable 0x0BE2)
       (thenp (blend_function 0x0302 0x0303)
       (thenp (framebuffer_texture DrawFramebuffer GL_COLOR_ATTACHMENT0 output_texture 0)
       (thenp (draw_buffers [GL_COLOR_ATTACHMENT0])
       (check_framebuffer_status DrawFramebuffer)))))"

text \<open>
  The move assignment of a member: what it held before is destroyed. Only the creation of the two
  input textures, between the assignments, can still fail; the frame buffer belongs to the
  converter by then.
\<close>

definition assign_object :: "gl_kind \<Rightarrow> u32 \<Rightarrow> unit gpu_prog" where
  "assign_object k old = gl_destroy k old"

definition finish_initialize ::
  "converter \<Rightarrow> u32 \<Rightarrow> u32 \<Rightarrow> u32 \<Rightarrow> u32 \<Rightarrow> u32 \<Rightarrow> u32 \<Rightarrow> u32 \<Rightarrow> u32 \<Rightarrow> int \<times> int \<Rightarrow> converter gpu_prog" where
  "finish_initialize self fbo output vao vertex_buffer coords index_buffer program mouse_program uniforms =
     thenp (assign_object FramebufferKind (cc_fbo self))
    (bindp (gl_create TextureKind 0) (\<lambda>input. thenp (assign_object TextureKind (cc_input self))
    (bindp (gl_create TextureKind 0) (\<lambda>mouse. thenp (assign_object TextureKind (cc_mouse self))
    (thenp (assign_object TextureKind (cc_output self))
    (thenp (assign_object VertexArrayKind (cc_vao self))
    (thenp (assign_object BufferKind (cc_vertices self))
    (thenp (assign_object BufferKind (cc_coords self))
    (thenp (assign_object BufferKind (cc_indices self))
    (thenp (assign_object ProgramKind (cc_program self))
    (thenp (assign_object ProgramKind (cc_mouse_program self))
    (ret (self\<lparr>cc_fbo := fbo, cc_input := input, cc_mouse := mouse, cc_output := output, cc_vao := vao,
       cc_vertices := vertex_buffer, cc_coords := coords, cc_indices := index_buffer, cc_program := program,
       cc_mouse_program := mouse_program, cc_mouse_dimensions := fst uniforms,
       cc_mouse_position := snd uniforms, cc_initialized := True\<rparr>)))))))))))))"

definition initialize :: "shader_sources \<Rightarrow> converter \<Rightarrow> converter gpu_prog" where
  "initialize srcs self =
     (if cc_initialized self then ret self
      else
        giving_object VertexArrayKind 0 (\<lambda>vao.
        giving_object BufferKind 0 (\<lambda>vertex_buffer.
        giving_object BufferKind 0 (\<lambda>coords.
        giving_object BufferKind 0 (\<lambda>index_buffer.
          thenp (setup_vertices vao vertex_buffer coords index_buffer)
         (giving_object TextureKind 0 (\<lambda>output.
          thenp (setup_output output (cc_width self) (cc_height self))
         (with_program (default_vertex srcs) (default_fragment srcs) (\<lambda>program.
          with_program (mouse_vertex srcs) (mouse_fragment srcs) (\<lambda>mouse_program.
          bindp (setup_mouse_program mouse_program (cc_width self) (cc_height self)) (\<lambda>uniforms.
          bindp (giving_object FramebufferKind 0 (\<lambda>fbo. thenp (setup_framebuffer fbo output) (ret fbo))) (\<lambda>fbo.
          finish_initialize self fbo output vao vertex_buffer coords index_buffer program mouse_program
            uniforms))))))))))))"

text \<open>The destructor: the members in the reverse order of their declarations.\<close>

definition converter_destruct :: "converter \<Rightarrow> unit gpu_prog" where
  "converter_destruct self =
     thenp (gl_destroy ProgramKind (cc_mouse_program self))
    (thenp (gl_destroy ProgramKind (cc_program self))
    (thenp (gl_destroy BufferKind (cc_indices self))
    (thenp (gl_destroy BufferKind (cc_coords self))
    (thenp (gl_destroy BufferKind (cc_vertices self))
    (thenp (gl_destroy VertexArrayKind (cc_vao self))
    (thenp (gl_destroy TextureKind (cc_output self))
    (thenp (gl_destroy TextureKind (cc_mouse self))
    (thenp (gl_destroy TextureKind (cc_input self))
    (gl_destroy FramebufferKind (cc_fbo self))))))))))"

section \<open>Conversion\<close>

record mouse_parameters =
  mp_width :: u32
  mp_height :: u32
  mp_x :: int
  mp_y :: int

definition draw_quad :: "unit gpu_prog" where
  "draw_quad = draw_elements GL_TRIANGLES 6 GL_UNSIGNED_INT"

definition draw_mouse :: "converter \<Rightarrow> mouse_parameters \<Rightarrow> unit gpu_prog" where
  "draw_mouse self m =
     with_bound TextureExternal (cc_mouse self)
       (with_bound ProgramTarget (cc_mouse_program self)
         (thenp (uniform (cc_mouse_dimensions self) [uint (mp_width m), uint (mp_height m)])
         (thenp (uniform (cc_mouse_position self) [mp_x m, mp_y m])
         draw_quad)))"

definition convert :: "converter \<Rightarrow> mouse_parameters option \<Rightarrow> unit gpu_prog" where
  "convert self mouse_params =
     with_bound VertexArrayTarget (cc_vao self)
     (with_bound DrawFramebuffer (cc_fbo self)
     (with_bound ElementArrayBuffer (cc_indices self)
       (thenp (viewport 0 0 (sint (cc_width self)) (sint (cc_height self)))
       (thenp clear_color
       (thenp (clear 0x4000)
       (thenp (with_bound TextureExternal (cc_input self) (with_bound ProgramTarget (cc_program self) draw_quad))
       (case mouse_params of None \<Rightarrow> ret () | Some m \<Rightarrow> draw_mouse self m)))))))"

section \<open>What they hold\<close>

lemma seq_neutral: "neutral d p \<Longrightarrow> (\<And>x. neutral d (f x)) \<Longrightarrow> neutral d (bindp p f)"
  by (rule neutral_bindp) auto

lemmas gl_command_defs = viewport_def clear_def enable_def blend_function_def buffer_data_def
  vertex_attrib_pointer_def enable_vertex_array_attrib_def draw_elements_def texture_image_2d_def texture_parameter_def
  framebuffer_texture_def draw_buffers_def attach_shader_def uniform_def Let_def

lemmas gl_query_defs = get_framebuffer_status_def shader_source_def info_log_def get_uniform_location_def

lemmas gl_neutral = seq_neutral with_bound_gains gl_command_neutral gl_query_neutral gains_ret throw_gl_error_gains

lemma setup_vertices_neutral: "neutral gpu_delta (setup_vertices a b c d)"
  unfolding setup_vertices_def setup_attribute_def gl_command_defs by (auto intro!: gl_neutral)

lemma setup_output_neutral: "neutral gpu_delta (setup_output a b c)"
  unfolding setup_output_def gl_command_defs by (auto intro!: gl_neutral)

lemma compile_shader_neutral: "neutral gpu_delta (compile_shader s)"
  unfolding compile_shader_def gl_query_defs by (auto intro!: gl_neutral)

lemma link_program_neutral: "neutral gpu_delta (link_program p n)"
  unfolding link_program_def detach_shaders_def gl_query_defs
  by (auto intro!: gl_neutral neutral_for_each)

lemma validate_program_neutral: "neutral gpu_delta (validate_program p)"
  unfolding validate_program_def gl_query_defs by (auto intro!: gl_neutral)

lemma setup_mouse_program_neutral: "neutral gpu_delta (setup_mouse_program p a b)"
  unfolding setup_mouse_program_def gl_command_defs gl_query_defs by (auto intro!: gl_neutral)

lemma setup_framebuffer_neutral: "neutral gpu_delta (setup_framebuffer a b)"
  unfolding setup_framebuffer_def check_framebuffer_status_def gl_command_defs gl_query_defs by (auto intro!: gl_neutral)

lemma convert_neutral: "neutral gpu_delta (convert self m)"
proof -
  have quad: "neutral gpu_delta draw_quad"
    unfolding draw_quad_def gl_command_defs by (rule gl_command_neutral)
  have mouse: "neutral gpu_delta (draw_mouse self x)" for x
    unfolding draw_mouse_def gl_command_defs by (auto intro!: gl_neutral quad)
  have color: "neutral gpu_delta clear_color"
    unfolding clear_color_def by (rule gains_emit) simp
  show ?thesis
    unfolding convert_def gl_command_defs by (auto intro!: gl_neutral quad mouse color split: option.split)
qed

text \<open>
  The objects of a converter. During the initialisation the scopes own what will be the
  converter's; a failure leaves at most what was assigned to members already.
\<close>

definition cc_held :: "converter \<Rightarrow> gpu_handle multiset" where
  "cc_held c = object_held FramebufferKind (cc_fbo c) + object_held TextureKind (cc_input c) +
     object_held TextureKind (cc_mouse c) + object_held TextureKind (cc_output c) +
     object_held VertexArrayKind (cc_vao c) + object_held BufferKind (cc_vertices c) +
     object_held BufferKind (cc_coords c) + object_held BufferKind (cc_indices c) +
     object_held ProgramKind (cc_program c) + object_held ProgramKind (cc_mouse_program c)"

fun assigned_early :: "gpu_handle \<Rightarrow> bool" where
  "assigned_early (GlObject FramebufferKind n) = True"
| "assigned_early (GlObject TextureKind n) = True"
| "assigned_early _ = False"

definition claims :: "gpu_handle multiset \<Rightarrow> converter outcome \<Rightarrow> gpu_handle multiset \<Rightarrow> bool" where
  "claims R r L = (case r of
       Ret c \<Rightarrow> cc_held c = R + L
     | Exc e \<Rightarrow> L = filter_mset assigned_early L
     | Abort \<Rightarrow> True)"

lemma claims_simps [simp]: "claims R (Exc e) {#}" "claims R (Ret c) L \<longleftrightarrow> cc_held c = R + L"
  "claims R (Exc e) L \<longleftrightarrow> L = filter_mset assigned_early L"
  by (simp_all add: claims_def)

lemma giving_claims:
  assumes "\<And>n. gains gpu_delta (body n) (claims (R + object_held k n))"
  shows "gains gpu_delta (giving_object k a body) (claims R)"
  by (rule giving_object_gains)
    (auto intro!: gains_weaken [OF assms] simp: claims_def add.assoc split: outcome.splits)

lemma neutral_claims: "neutral gpu_delta p \<Longrightarrow> (\<And>x. gains gpu_delta (f x) (claims R)) \<Longrightarrow> gains gpu_delta (bindp p f) (claims R)"
  by (rule neutral_bindp) auto

lemma with_shader_claims:
  "(\<And>s. gains gpu_delta (k s) (claims R)) \<Longrightarrow> gains gpu_delta (with_shader ty src k) (claims R)"
  unfolding with_shader_def shader_source_def
  by (intro with_object_gains neutral_claims gl_query_neutral compile_shader_neutral) auto

lemma with_program_claims:
  assumes "\<And>p. gains gpu_delta (k p) (claims (R + object_held ProgramKind p))"
  shows "gains gpu_delta (with_program v f k) (claims R)"
  unfolding with_program_def attach_shader_def
  by (intro with_shader_claims giving_claims neutral_claims gl_command_neutral link_program_neutral
      validate_program_neutral assms)

lemma finish_initialize_claims:
  assumes "self = new_converter width height"
  shows "scoped gpu_delta (object_held FramebufferKind fbo) (finish_initialize self fbo output vao vb tb ib p mp u)
    (claims (object_held VertexArrayKind vao + object_held BufferKind vb + object_held BufferKind tb +
      object_held BufferKind ib + object_held TextureKind output + object_held ProgramKind p + object_held ProgramKind mp))"
proof -
  let ?R = "object_held VertexArrayKind vao + object_held BufferKind vb + object_held BufferKind tb +
      object_held BufferKind ib + object_held TextureKind tex + object_held ProgramKind p + object_held ProgramKind mp"
  have none: "assign_object k 0 = ret ()" for k by (simp add: assign_object_def gl_destroy_def)
  have texture: "scoped gpu_delta H (gl_create TextureKind 0)
      (\<lambda>r L. case r of Ret n \<Rightarrow> L = H + object_held TextureKind n | _ \<Rightarrow> L = H)" for H
    by (rule scoped_keep) (auto intro!: gains_weaken [OF gl_create_gains] split: outcome.splits)
  have early: "filter_mset assigned_early (object_held TextureKind n) = object_held TextureKind n"
    "filter_mset assigned_early (object_held FramebufferKind n) = object_held FramebufferKind n" for n
    by (auto simp: object_held_def)
  show ?thesis
    unfolding finish_initialize_def assms
    by (simp add: new_converter_def none bindp_ret_left,
        rule scoped_seq [OF texture])
      (auto simp: early cc_held_def ac_simps intro!: scoped_seq [OF texture] scoped_ret)
qed

lemma initialize_gains: "gains gpu_delta (initialize srcs (new_converter width height)) (claims {#})"
proof -
  have fbo: "gains gpu_delta (giving_object FramebufferKind 0 (\<lambda>fbo. thenp (setup_framebuffer fbo tex) (ret fbo)))
      (\<lambda>r L. case r of Ret n \<Rightarrow> L = object_held FramebufferKind n | _ \<Rightarrow> L = {#})" for tex
  proof (rule giving_object_gains)
    show "gains gpu_delta (thenp (setup_framebuffer n tex) (ret n)) (\<lambda>r L. case r of
        Ret x \<Rightarrow> (case Ret x of Ret m \<Rightarrow> object_held FramebufferKind n + L = object_held FramebufferKind m | _ \<Rightarrow> object_held FramebufferKind n + L = {#})
      | Exc e \<Rightarrow> (case Exc e of Ret m \<Rightarrow> L = object_held FramebufferKind m | _ \<Rightarrow> L = {#}) | Abort \<Rightarrow> True)" for n
      by (auto intro!: neutral_bindp [OF setup_framebuffer_neutral] gains_ret)
  qed auto
  have finish: "gains gpu_delta (bindp (giving_object FramebufferKind 0 (\<lambda>fbo. thenp (setup_framebuffer fbo tex) (ret fbo)))
      (\<lambda>fbo. finish_initialize (new_converter width height) fbo tex vao vb tb ib p mp u))
      (claims ({#} + object_held VertexArrayKind vao + object_held BufferKind vb + object_held BufferKind tb +
      object_held BufferKind ib + object_held TextureKind tex + object_held ProgramKind p + object_held ProgramKind mp))"
    for tex vao vb tb ib p mp u
    by (rule gains_bindp_release [where R = "object_held FramebufferKind"])
      (use finish_initialize_claims in \<open>auto intro!: gains_weaken [OF fbo] split: outcome.splits\<close>)
  show ?thesis
    unfolding initialize_def
    by (simp add: new_converter_def [of width height, THEN arg_cong [where f = cc_initialized]])
      (intro giving_claims neutral_claims setup_vertices_neutral setup_output_neutral with_program_claims
        setup_mouse_program_neutral finish)
qed

section \<open>A frame without errors\<close>

definition gl_ok :: "gpu_world \<Rightarrow> bool" where
  "gl_ok w \<longleftrightarrow> (\<forall>t. gw_error w t = GL_NO_ERROR)"

definition drawn :: "converter \<Rightarrow> bool" where
  "drawn c \<longleftrightarrow> 0 \<notin> {cc_vao c, cc_fbo c, cc_indices c, cc_input c, cc_program c, cc_mouse c, cc_mouse_program c}"

text \<open>\<open>p\<close> returns \<open>x\<close> in \<open>w\<close> and makes the calls \<open>es\<close>, from every history.\<close>

definition emits :: "'w \<Rightarrow> ('w, 'c, 'a) prog \<Rightarrow> 'a \<Rightarrow> 'c list \<Rightarrow> bool" where
  "emits w p x es \<longleftrightarrow> (\<forall>t. p w t = (Ret x, t @ es))"

lemma emits_ret: "emits w (ret x) x []"
  by (simp add: emits_def prog_run)

lemma emits_emit: "emits w (emit c) () [c]"
  by (simp add: emits_def prog_run)

lemma emits_then: "emits w p x es \<Longrightarrow> emits w q y es' \<Longrightarrow> emits w (thenp p q) y (es @ es')"
  by (simp add: emits_def bindp_run)

lemma emits_command: "gl_ok w \<Longrightarrow> emits w (gl_command n src as) () [Gl (GlCommand n as)]"
  by (simp add: emits_def gl_command_def gl_ok_def check_gl_error_def bindp_call_run prog_run)

lemma emits_with_bound:
  assumes "gl_ok w" "n \<noteq> 0" "emits w body x es"
  shows "emits w (with_bound tg n body) x ([Gl (GlBind tg n)] @ es @ [Gl (GlBind tg 0)])"
proof -
  have bind: "gl_bind tg m w u = (Ret (), u @ [Gl (GlBind tg m)])" for m u
    using assms(1) by (auto simp: gl_bind_def gl_ok_def check_gl_error_def check_gl_error_noexcept_def noexcept_def
        bindp_call_run prog_run)
  have "guarded (gl_bind tg 0) body w u = (Ret x, u @ es @ [Gl (GlBind tg 0)])" for u
    using guarded_run [of "gl_bind tg 0" w body u "u @ es @ [Gl (GlBind tg 0)]"] assms(3) bind by (simp add: emits_def)
  then show ?thesis
    using assms(2) bind by (simp add: emits_def with_bound_def sc_expect_def bindp_ret_left bindp_run)
qed

definition quad_events :: "converter \<Rightarrow> gl_target \<Rightarrow> u32 \<Rightarrow> u32 \<Rightarrow> gl_call list \<Rightarrow> gl_call list" where
  "quad_events c tg texture program uniforms =
     [GlBind tg texture, GlBind ProgramTarget program] @ uniforms @
     [GlCommand ''glDrawElements'' [GL_TRIANGLES, 6, GL_UNSIGNED_INT], GlBind ProgramTarget 0, GlBind tg 0]"

definition frame_events :: "converter \<Rightarrow> mouse_parameters option \<Rightarrow> gl_call list" where
  "frame_events c m =
     [GlBind VertexArrayTarget (cc_vao c), GlBind DrawFramebuffer (cc_fbo c), GlBind ElementArrayBuffer (cc_indices c),
      GlCommand ''glViewport'' [0, 0, sint (cc_width c), sint (cc_height c)], GlClearColor, GlCommand ''glClear'' [0x4000]] @
     quad_events c TextureExternal (cc_input c) (cc_program c) [] @
     (case m of None \<Rightarrow> [] | Some m \<Rightarrow> quad_events c TextureExternal (cc_mouse c) (cc_mouse_program c)
        [GlCommand ''glUniform2fv'' [cc_mouse_dimensions c, 1, uint (mp_width m), uint (mp_height m)],
         GlCommand ''glUniform2fv'' [cc_mouse_position c, 1, mp_x m, mp_y m]]) @
     [GlBind ElementArrayBuffer 0, GlBind DrawFramebuffer 0, GlBind VertexArrayTarget 0]"

lemma emits_uniform: "gl_ok w \<Longrightarrow> emits w (uniform l [a, b]) () [Gl (GlCommand ''glUniform2fv'' [l, 1, a, b])]"
proof -
  have two: "char_of (50 :: nat) = CHR ''2''" by code_simp
  show "gl_ok w \<Longrightarrow> ?thesis"
    using emits_command [of w "''glUniform2fv''" "''glUniform2fv''" "[l, 1, a, b]"]
    by (simp add: uniform_def two Let_def)
qed

lemma convert_ok:
  assumes ok: "gl_ok w" and names: "drawn c"
  shows "emits w (convert c m) () (map Gl (frame_events c m))"
proof -
  have nz: "cc_vao c \<noteq> 0" "cc_fbo c \<noteq> 0" "cc_indices c \<noteq> 0" "cc_input c \<noteq> 0" "cc_program c \<noteq> 0"
    "cc_mouse c \<noteq> 0" "cc_mouse_program c \<noteq> 0"
    using names by (auto simp: drawn_def)
  have quad: "emits w draw_quad () [Gl (GlCommand ''glDrawElements'' [GL_TRIANGLES, 6, GL_UNSIGNED_INT])]"
    unfolding draw_quad_def draw_elements_def by (rule emits_command [OF ok])
  have image: "emits w (with_bound TextureExternal (cc_input c) (with_bound ProgramTarget (cc_program c) draw_quad)) ()
      (map Gl (quad_events c TextureExternal (cc_input c) (cc_program c) []))"
    using emits_with_bound [OF ok nz(4) emits_with_bound [OF ok nz(5) quad]] by (simp add: quad_events_def)
  have mouse: "emits w (thenp (uniform d [x, y]) (thenp (uniform p [x', y']) draw_quad)) ()
      ([Gl (GlCommand ''glUniform2fv'' [d, 1, x, y])] @ [Gl (GlCommand ''glUniform2fv'' [p, 1, x', y'])] @
       [Gl (GlCommand ''glDrawElements'' [GL_TRIANGLES, 6, GL_UNSIGNED_INT])])" for d x y p x' y'
    by (rule emits_then [OF emits_uniform [OF ok] emits_then [OF emits_uniform [OF ok] quad]])
  have cursor: "emits w (case m of None \<Rightarrow> ret () | Some m \<Rightarrow> draw_mouse c m) () (map Gl
      (case m of None \<Rightarrow> [] | Some m \<Rightarrow> quad_events c TextureExternal (cc_mouse c) (cc_mouse_program c)
        [GlCommand ''glUniform2fv'' [cc_mouse_dimensions c, 1, uint (mp_width m), uint (mp_height m)],
         GlCommand ''glUniform2fv'' [cc_mouse_position c, 1, mp_x m, mp_y m]]))"
  proof (cases m)
    case (Some m')
    from emits_with_bound [OF ok nz(6) emits_with_bound [OF ok nz(7) mouse]] show ?thesis
      by (simp add: Some draw_mouse_def quad_events_def)
  qed (simp add: emits_ret)
  have body: "emits w (thenp (viewport 0 0 (sint (cc_width c)) (sint (cc_height c))) (thenp clear_color (thenp (clear 0x4000)
      (thenp (with_bound TextureExternal (cc_input c) (with_bound ProgramTarget (cc_program c) draw_quad))
      (case m of None \<Rightarrow> ret () | Some m \<Rightarrow> draw_mouse c m))))) ()
    ([Gl (GlCommand ''glViewport'' [0, 0, sint (cc_width c), sint (cc_height c)])] @ [Gl GlClearColor] @
     [Gl (GlCommand ''glClear'' [0x4000])] @
     map Gl (quad_events c TextureExternal (cc_input c) (cc_program c) []) @ map Gl
      (case m of None \<Rightarrow> [] | Some m \<Rightarrow> quad_events c TextureExternal (cc_mouse c) (cc_mouse_program c)
        [GlCommand ''glUniform2fv'' [cc_mouse_dimensions c, 1, uint (mp_width m), uint (mp_height m)],
         GlCommand ''glUniform2fv'' [cc_mouse_position c, 1, mp_x m, mp_y m]]))"
    unfolding viewport_def clear_def clear_color_def
    by (rule emits_then [OF emits_command [OF ok] emits_then [OF emits_emit emits_then [OF emits_command [OF ok]
        emits_then [OF image cursor]]]])
  from emits_with_bound [OF ok nz(1) emits_with_bound [OF ok nz(2) emits_with_bound [OF ok nz(3) body]]]
  show ?thesis
    unfolding convert_def by (simp add: frame_events_def quad_events_def)
qed

section \<open>Properties\<close>


end
