(* ===== verification/Drm_Video.thy ===== *)
theory Drm_Video
  imports Color_Converter Readiness
begin

text \<open>
  Capture on Wayland, \<open>src/services/drm_video_service.cpp\<close>: the service starts the helper
  process, asks it for the planes of the display at every frame, imports their buffers, draws
  them with the colour converter and hands the result to the frame handler as a CUDA array.
\<close>

section \<open>Talking to the helper\<close>

definition kSocketPath :: string where "kSocketPath = ''/tmp/shadow-cast.sock''"
definition kDRMConnectTimeoutMs :: size_t where "kDRMConnectTimeoutMs = 1000"
definition kDRMDataTimeoutMs :: size_t where "kDRMDataTimeoutMs = 1000"
definition kDRMBin :: string where "kDRMBin = ''shadow-cast-kms''"

definition get_drm_data :: "unix_socket \<Rightarrow> size_t \<Rightarrow> (int, drm_response) result io_prog" where
  "get_drm_data socket timeout =
     bindp (message_handler POLLOUT timeout send_handler (sock_fd socket)) (\<lambda>send_result.
     case send_result of
       Inl e \<Rightarrow> ret (Inl e)
     | Inr (n, _) \<Rightarrow>
         if n < sizeof_request then ret (Inl EAGAIN)
         else bindp (drm_response_receiver timeout (sock_fd socket)) (\<lambda>recv_result.
           case recv_result of
             Inl e \<Rightarrow> ret (Inl e)
           | Inr (n, response) \<Rightarrow>
               if n < sizeof_response then ret (Inl EAGAIN)
               else ret (Inr (case response of None \<Rightarrow> empty_response | Some r \<Rightarrow> r))))"

definition remove_filename :: "string \<Rightarrow> string" where
  "remove_filename path = rev (dropWhile (\<lambda>c. c \<noteq> CHR ''/'') (rev path))"

text \<open>The exception is thrown by pointer.\<close>

definition find_drm_helper_binary :: "string gpu_prog" where
  "find_drm_helper_binary =
     bindp (call gw_path ReadSymlink) (\<lambda>path. case path of
       None \<Rightarrow> throw (SystemError 2)
     | Some path \<Rightarrow>
         (let bin = remove_filename path @ kDRMBin in
          bindp (call gw_bool (FileExists bin)) (\<lambda>found.
          if \<not> found then throw (RuntimeErrorPtr (''Couldn't locate DRM helper at '' @ bin)) else ret bin)))"

section \<open>The service\<close>

record drm_video_service =
  dv_converter :: converter
  dv_socket :: unix_socket
  dv_process :: process
  dv_handler :: bool
  dv_frame_time :: u64

definition new_drm_video_service :: "u32 \<Rightarrow> u32 \<Rightarrow> drm_video_service" where
  "new_drm_video_service width height = \<lparr>dv_converter = new_converter width height, dv_socket = socket_none,
     dv_process = \<lparr>pid = - 1\<rparr>, dv_handler = False, dv_frame_time = 0\<rparr>"

definition close_socket :: "unix_socket \<Rightarrow> unit gpu_prog" where
  "close_socket s = emit (GpuIo (CloseFd (sock_fd s)))"

text \<open>
  The listening socket is closed by the guard and again by its destructor. The members that are
  assigned give up what they held.
\<close>

definition drm_on_init ::
  "shader_sources \<Rightarrow> nat \<Rightarrow> nat \<Rightarrow> size_t \<Rightarrow> reg_state \<Rightarrow> drm_video_service \<Rightarrow>
   (drm_video_service \<times> reg_state) gpu_prog" where
  "drm_on_init srcs svc dispatch frame_time reg self =
     bindp (initialize srcs (dv_converter self)) (\<lambda>cc.
     bindp (gpu_io (socket_bind kSocketPath)) (\<lambda>server_socket.
     guarded (close_socket server_socket)
     (guarded (thenp (close_socket server_socket) (emit UnlinkSocket))
       (thenp (gpu_io (socket_listen server_socket))
       (bindp find_drm_helper_binary (\<lambda>bin.
        bindp (gpu_io (spawn_process [bin, kSocketPath])) (\<lambda>proc.
        thenp (gpu_io (process_destruct (dv_process self)))
       (bindp (gpu_io (accept_handler kDRMConnectTimeoutMs (sock_fd server_socket))) (\<lambda>socket_result.
        case socket_result of
          Inl e \<Rightarrow> throw (SystemError e)
        | Inr fd \<Rightarrow>
            thenp (close_socket (dv_socket self))
           (thenp (emit SwapInterval)
           (case register_readiness svc frame_time (OnFrame (frame_time_ratio 1 1)) dispatch reg of
              None \<Rightarrow> terminate
            | Some reg' \<Rightarrow> ret (self\<lparr>dv_converter := cc, dv_process := proc, dv_socket := \<lparr>sock_fd = fd\<rparr>,
                dv_frame_time := frame_time\<rparr>, reg'))))))))))))"

definition drm_on_uninit :: "drm_video_service \<Rightarrow> drm_video_service gpu_prog" where
  "drm_on_uninit self =
     noexcept (bindp (gpu_io (terminate_and_wait (dv_process self))) (\<lambda>(_, p).
       thenp (close_socket (dv_socket self)) (ret (self\<lparr>dv_process := p\<rparr>))))"

section \<open>A frame\<close>

text \<open>The plane with the largest area, in 32-bit arithmetic; the first of several.\<close>

definition plane_area :: "plane_descriptor \<Rightarrow> u32" where
  "plane_area d = pd_width d * pd_height d"

fun largest_plane :: "plane_descriptor \<Rightarrow> plane_descriptor list \<Rightarrow> plane_descriptor" where
  "largest_plane best [] = best"
| "largest_plane best (d # ds) = largest_plane (if plane_area best < plane_area d then d else best) ds"

definition modifier_lo :: "u64 \<Rightarrow> u32" where
  "modifier_lo m = ucast (m AND 0xffffffff)"

definition modifier_hi :: "u64 \<Rightarrow> u32" where
  "modifier_hi m = ucast (drop_bit 32 m)"

definition plane_attributes :: "plane_descriptor \<Rightarrow> int list" where
  "plane_attributes d =
     [0x3271, uint (pd_pixel_format d), 0x3057, uint (pd_width d), 0x3056, uint (pd_height d),
      0x3272, pd_fd d, 0x3273, uint (pd_offset d), 0x3274, uint (pd_pitch d)]"

definition image_attributes :: "plane_descriptor \<Rightarrow> int list" where
  "image_attributes d = plane_attributes d @
     [0x3443, uint (modifier_lo (pd_modifier d)), 0x3444, uint (modifier_hi (pd_modifier d)), 0x3038]"

definition mouse_attributes :: "plane_descriptor \<Rightarrow> int list" where
  "mouse_attributes d = plane_attributes d @ [0x3038]"

definition create_image :: "int list \<Rightarrow> nat gpu_prog" where
  "create_image attributes = bindp (call gw_ptr (CreateImage attributes)) (\<lambda>image.
     if image = 0 then bindp (call gw_int EglError) (\<lambda>e.
       throw (RuntimeError (''eglCreateImage input failed: '' @ to_string e)))
     else ret image)"

definition import_image :: "u32 \<Rightarrow> int list \<Rightarrow> nat gpu_prog" where
  "import_image texture attributes =
     bindp (create_image attributes) (\<lambda>image.
     thenp (with_bound TextureExternal texture (emit (ImageTarget image))) (ret image))"

definition import_mouse :: "converter \<Rightarrow> plane_descriptor option \<Rightarrow> (nat \<times> mouse_parameters) option gpu_prog" where
  "import_mouse cc plane = (case plane of
       None \<Rightarrow> ret None
     | Some d \<Rightarrow> bindp (import_image (cc_mouse cc) (mouse_attributes d)) (\<lambda>image.
         ret (Some (image, \<lparr>mp_width = pd_width d, mp_height = pd_height d, mp_x = pd_x d, mp_y = pd_y d\<rparr>))))"

definition throw_cuda_text :: "string \<Rightarrow> int \<Rightarrow> 'a gpu_prog" where
  "throw_cuda_text msg r = bindp (call gw_cuda_text (CudaFrame (CuErrorText r))) (\<lambda>m.
     throw (RuntimeError (msg @ (case m of None \<Rightarrow> ''unknown'' | Some m \<Rightarrow> m))))"

definition cuda_made :: "gpu_world \<Rightarrow> gpu_call list \<Rightarrow> int \<times> nat" where
  "cuda_made w t = (gw_int w t, gw_ptr w t)"

definition register_gl_texture_in_cuda :: "u32 \<Rightarrow> (nat \<times> nat) gpu_prog" where
  "register_gl_texture_in_cuda texture =
     thenp (emit (CudaFrame CuPush))
     (guarded (emit (CudaFrame CuPop))
       (bindp (call cuda_made (CudaFrame (CuRegister texture))) (\<lambda>(r, resource).
        if r \<noteq> 0 then throw_cuda_text ''CUDA: Failed to register image with CUDA - '' r
        else bindp (call gw_int (CudaFrame (CuSetMapFlags resource))) (\<lambda>r.
        if r \<noteq> 0 then throw_cuda_text ''CUDA: Failed to set map flags - '' r
        else bindp (call gw_int (CudaFrame (CuMap resource))) (\<lambda>r.
        if r \<noteq> 0 then throw_cuda_text ''CUDA: cuGraphicsMapResources failed - '' r
        else bindp (call cuda_made (CudaFrame (CuGetArray resource))) (\<lambda>(r, array).
        if r \<noteq> 0 then throw_cuda_text ''CUDA: cuGraphicsSubResourceGetMappedArray dailed - '' r
        else ret (resource, array)))))))"

definition release_resource :: "nat \<Rightarrow> unit gpu_prog" where
  "release_resource resource =
     thenp (emit (CudaFrame CuPush))
     (guarded (emit (CudaFrame CuPop))
       (if resource \<noteq> 0 then thenp (emit (CudaFrame (CuUnmap resource))) (emit (CudaFrame (CuUnregister resource)))
        else ret ()))"

definition destroy_images :: "nat \<Rightarrow> (nat \<times> mouse_parameters) option \<Rightarrow> unit gpu_prog" where
  "destroy_images img mouse = thenp (emit (DestroyImage img))
     (case mouse of None \<Rightarrow> ret () | Some (m, _) \<Rightarrow> emit (DestroyImage m))"

definition handle_frame :: "nat \<Rightarrow> unit gpu_prog" where
  "handle_frame array = bindp (call gw_fails (HandleFrame array)) (\<lambda>e.
     case e of None \<Rightarrow> ret () | Some e \<Rightarrow> throw e)"

text \<open>
  The images are destroyed by a guard that is set up after the conversion; the descriptors are
  closed by one that is set up first.
\<close>

definition convert_planes :: "converter \<Rightarrow> plane_descriptor \<Rightarrow> plane_descriptor list \<Rightarrow> unit gpu_prog" where
  "convert_planes cc plane planes =
     bindp (import_image (cc_input cc) (image_attributes (largest_plane plane planes))) (\<lambda>image.
     bindp (import_mouse cc (find (is_flag_set IS_CURSOR) (plane # planes))) (\<lambda>mouse.
     thenp (convert cc (map_option snd mouse))
     (guarded (destroy_images image mouse)
       (bindp (register_gl_texture_in_cuda (cc_output cc)) (\<lambda>(resource, array).
        guarded (release_resource resource) (handle_frame array))))))"

definition close_planes :: "plane_descriptor list \<Rightarrow> unit gpu_prog" where
  "close_planes planes = for_each (\<lambda>d. emit (CloseReceived (pd_fd d))) planes"

definition capture_planes :: "converter \<Rightarrow> plane_descriptor list \<Rightarrow> unit gpu_prog" where
  "capture_planes cc planes = (case planes of
       [] \<Rightarrow> throw (RuntimeError ''No DRM planes received'')
     | p # ps \<Rightarrow> guarded (close_planes (p # ps)) (convert_planes cc p ps))"

definition drm_dispatch_frame :: "drm_video_service \<Rightarrow> unit gpu_prog" where
  "drm_dispatch_frame self =
     (if \<not> dv_handler self then ret ()
      else bindp (gpu_io (get_drm_data (dv_socket self) kDRMDataTimeoutMs)) (\<lambda>r. case r of
          Inl e \<Rightarrow> if e = EINTR then ret () else throw (SystemError e)
        | Inr drm_data \<Rightarrow>
            capture_planes (dv_converter self) (take (res_num_fds drm_data) (res_descriptors drm_data))))"

section \<open>What a frame holds\<close>

fun frame_left :: "gpu_handle \<Rightarrow> bool" where
  "frame_left (Image i) = True"
| "frame_left (Registered r) = True"
| "frame_left (Mapped r) = True"
| "frame_left _ = False"

definition frame_ends :: "unit outcome \<Rightarrow> gpu_handle multiset \<Rightarrow> bool" where
  "frame_ends r L = (case r of Ret _ \<Rightarrow> L = {#} | Exc e \<Rightarrow> L = filter_mset frame_left L | Abort \<Rightarrow> True)"

lemma frame_ends_simps [simp]: "frame_ends (Ret u) L \<longleftrightarrow> L = {#}"
  "frame_ends (Exc e) L \<longleftrightarrow> L = filter_mset frame_left L"
  by (simp_all add: frame_ends_def)

abbreviation all_left :: "gpu_handle multiset \<Rightarrow> bool" where
  "all_left R \<equiv> R = filter_mset frame_left R"

lemma throw_cuda_text_gains: "(\<And>e. G (Exc e) {#}) \<Longrightarrow> gains gpu_delta (throw_cuda_text m r) G"
  unfolding throw_cuda_text_def by (auto intro!: gains_call_bindp gains_throw)

lemma throw_cuda_text_scoped: "(\<And>e. G (Exc e) R) \<Longrightarrow> scoped gpu_delta R (throw_cuda_text m r) G"
  unfolding throw_cuda_text_def by (auto intro!: scoped_neutral_call scoped_throw)

text \<open>Images: one more when it is returned, none when the creation failed; binding it may fail after.\<close>

lemma import_image_gains:
  "gains gpu_delta (import_image tex as) (\<lambda>r L. case r of
     Ret i \<Rightarrow> L = {#Image i#} | Exc e \<Rightarrow> all_left L | Abort \<Rightarrow> True)"
proof -
  have create: "gains gpu_delta (create_image as) (\<lambda>r L. case r of Ret i \<Rightarrow> L = {#Image i#} | _ \<Rightarrow> L = {#})"
    unfolding create_image_def
    by (rule gains_acquire [where b = "\<lambda>x. x \<noteq> 0" and r = Image])
      (auto intro!: gains_call_bindp gains_throw scoped_ret)
  have bind: "neutral gpu_delta (with_bound TextureExternal tex (emit (ImageTarget i)))" for i
    by (intro with_bound_gains gains_emit) simp
  show ?thesis
    unfolding import_image_def
    by (rule gains_bindp [OF create]) (auto intro!: neutral_bindp [OF bind] gains_ret)
qed

definition mouse_held :: "(nat \<times> mouse_parameters) option \<Rightarrow> gpu_handle multiset" where
  "mouse_held m = (case m of None \<Rightarrow> {#} | Some (i, _) \<Rightarrow> {#Image i#})"

lemma import_mouse_gains:
  "gains gpu_delta (import_mouse cc plane) (\<lambda>r L. case r of
     Ret m \<Rightarrow> L = mouse_held m | Exc e \<Rightarrow> all_left L | Abort \<Rightarrow> True)"
proof (cases plane)
  case None
  then show ?thesis by (simp add: import_mouse_def gains_ret mouse_held_def)
next
  case (Some d)
  then show ?thesis
    by (auto simp: import_mouse_def mouse_held_def intro!: gains_bindp [OF import_image_gains] gains_ret)
qed

lemma destroy_images_releases:
  "scoped gpu_delta ({#Image i#} + mouse_held m) (destroy_images i m) (\<lambda>r L. r = Ret () \<longrightarrow> L = {#})"
proof -
  have "scoped gpu_delta (mouse_held m) (case m of None \<Rightarrow> ret () | Some (m, _) \<Rightarrow> emit (DestroyImage m))
      (\<lambda>r L. r = Ret () \<longrightarrow> L = {#})"
    by (cases m) (auto simp: mouse_held_def scoped_def release_def intro: held_by_ret held_by_emit)
  then show ?thesis
    unfolding destroy_images_def by (intro scoped_release [where r = "Image i"]) auto
qed

definition resource_held :: "nat \<Rightarrow> gpu_handle multiset" where
  "resource_held r = (if r = 0 then {#} else {#Mapped r, Registered r#})"

lemma release_resource_releases:
  "scoped gpu_delta (resource_held r) (release_resource r) (\<lambda>u L. u = Ret () \<longrightarrow> L = {#})"
proof -
  have pop: "scoped gpu_delta {#CurrentContext#} (emit (CudaFrame CuPop)) (\<lambda>r L. r = Ret () \<longrightarrow> L = {#})"
    by (auto simp: scoped_def release_def intro: held_by_emit)
  have body: "scoped gpu_delta (resource_held r)
      (if r \<noteq> 0 then thenp (emit (CudaFrame (CuUnmap r))) (emit (CudaFrame (CuUnregister r))) else ret ())
      (\<lambda>u L. u = Ret () \<longrightarrow> L = {#})"
    by (auto simp: resource_held_def intro!: scoped_release [where r = "Mapped r"] scoped_ret)
      (auto simp: scoped_def release_def intro: held_by_emit)
  from scoped_guard [OF body pop] show ?thesis
    unfolding release_resource_def bindp_emit
    by (intro scoped_acquire [where b = "\<lambda>_. True" and r = "\<lambda>_. CurrentContext"]) (auto simp: acquire_def)
qed

lemma register_gains:
  "gains gpu_delta (register_gl_texture_in_cuda tex) (\<lambda>r L. case r of
     Ret (res, arr) \<Rightarrow> L = resource_held res | Exc e \<Rightarrow> all_left L | Abort \<Rightarrow> True)"
proof -
  let ?G = "\<lambda>r L. case r of Ret (res, arr) \<Rightarrow> L = resource_held res | Exc e \<Rightarrow> all_left L | Abort \<Rightarrow> True"
  let ?held = "\<lambda>res. if res = 0 then {#} else {#Registered res#}"
  have array: "scoped gpu_delta (resource_held res) (bindp (call cuda_made (CudaFrame (CuGetArray res))) (\<lambda>(r, array).
      if r \<noteq> 0 then throw_cuda_text m r else ret (res, array))) ?G" for res m
    by (auto simp: resource_held_def intro!: scoped_neutral_call throw_cuda_text_scoped scoped_ret)
  have mapped: "scoped gpu_delta (?held res) (bindp (call gw_int (CudaFrame (CuMap res))) (\<lambda>r.
      if r \<noteq> 0 then throw_cuda_text m r
      else bindp (call cuda_made (CudaFrame (CuGetArray res))) (\<lambda>(r, array).
        if r \<noteq> 0 then throw_cuda_text m' r else ret (res, array)))) ?G" for res m m'
    by (rule scoped_acquire [where b = "\<lambda>r. r = 0 \<and> res \<noteq> 0" and r = "\<lambda>_. Mapped res"])
      (use array [of res m'] in \<open>auto simp: resource_held_def intro!: throw_cuda_text_scoped\<close>)
  have registered: "gains gpu_delta (bindp (call cuda_made (CudaFrame (CuRegister tex))) (\<lambda>(r, resource).
        if r \<noteq> 0 then throw_cuda_text m1 r
        else bindp (call gw_int (CudaFrame (CuSetMapFlags resource))) (\<lambda>r.
        if r \<noteq> 0 then throw_cuda_text m2 r
        else bindp (call gw_int (CudaFrame (CuMap resource))) (\<lambda>r.
        if r \<noteq> 0 then throw_cuda_text m3 r
        else bindp (call cuda_made (CudaFrame (CuGetArray resource))) (\<lambda>(r, array).
        if r \<noteq> 0 then throw_cuda_text m4 r
        else ret (resource, array)))))) ?G" for m1 m2 m3 m4
  proof (rule gains_acquire [where b = "\<lambda>x. fst x = 0 \<and> snd x \<noteq> 0" and r = "\<lambda>x. Registered (snd x)"], goal_cases)
    case (2 x)
    obtain r res where x: "x = (r, res)" by (cases x)
    with 2 mapped [of 0 m3 m4] show ?case
      by (cases "r = 0") (auto simp: scoped_nothing intro!: throw_cuda_text_gains
        gains_call_bindp [where c = "CudaFrame (CuSetMapFlags 0)"])
  next
    case (3 x)
    obtain r res where x: "x = (r, res)" by (cases x)
    with 3 mapped [of res m3 m4] show ?case
      by (auto intro!: throw_cuda_text_scoped scoped_neutral_call [where c = "CudaFrame (CuSetMapFlags n)" for n])
  qed (simp add: cuda_made_def)
  show ?thesis
    unfolding register_gl_texture_in_cuda_def bindp_emit
    by (rule gains_acquire [where b = "\<lambda>_. True" and r = "\<lambda>_. CurrentContext"])
      (auto simp: acquire_def intro!: scoped_guarded registered)
qed

lemma convert_planes_gains: "gains gpu_delta (convert_planes cc p ps) frame_ends"
proof -
  have handle: "gains gpu_delta (handle_frame a) frame_ends" for a
    unfolding handle_frame_def by (auto intro!: gains_call_bindp gains_ret gains_throw split: option.split)
  have cuda: "gains gpu_delta (bindp (register_gl_texture_in_cuda tex) (\<lambda>(resource, array).
      guarded (release_resource resource) (handle_frame array))) frame_ends" for tex
    by (rule gains_bindp_release [where R = "\<lambda>(res, arr). resource_held res"])
      (auto intro!: gains_weaken [OF register_gains] scoped_cleanup [OF handle release_resource_releases] split: outcome.splits)
  have drawn: "scoped gpu_delta ({#Image i#} + mouse_held m)
      (thenp (convert cc mp) (guarded (destroy_images i m) (bindp (register_gl_texture_in_cuda tex) (\<lambda>(resource, array).
      guarded (release_resource resource) (handle_frame array))))) frame_ends" for i m mp tex
  proof (rule scoped_seq [OF scoped_keep [where G = "\<lambda>_ L. L = {#Image i#} + mouse_held m"]], goal_cases)
    case 1
    show ?case by (rule gains_weaken [OF convert_neutral]) simp
  next
    case (2 x L)
    then show ?case by (auto simp only: intro: scoped_cleanup [OF cuda destroy_images_releases])
  qed (auto simp: mouse_held_def split: option.split)
  have mouse: "scoped gpu_delta {#Image i#} (bindp (import_mouse cc plane) (\<lambda>m. thenp (convert cc (mp m))
      (guarded (destroy_images i m) (bindp (register_gl_texture_in_cuda tex) (\<lambda>(resource, array).
      guarded (release_resource resource) (handle_frame array)))))) frame_ends" for i plane mp tex
  proof (rule scoped_seq [OF scoped_keep [where G = "\<lambda>r L. case r of
      Ret m \<Rightarrow> L = {#Image i#} + mouse_held m | Exc e \<Rightarrow> all_left L | Abort \<Rightarrow> True"]], goal_cases)
    case 1
    show ?case by (rule gains_weaken [OF import_mouse_gains]) (auto split: outcome.splits)
  qed (use drawn in auto)
  show ?thesis
    unfolding convert_planes_def
    by (rule gains_bindp_release [where R = "\<lambda>i. {#Image i#}"])
      (auto intro!: gains_weaken [OF import_image_gains] mouse split: outcome.splits)
qed

definition received :: "plane_descriptor list \<Rightarrow> gpu_handle multiset" where
  "received planes = mset (map (\<lambda>d. Received (pd_fd d)) planes)"

lemma close_planes_releases:
  "scoped gpu_delta (received planes) (close_planes planes) (\<lambda>r L. r = Ret () \<longrightarrow> L = {#})"
  unfolding close_planes_def
proof (induction planes)
  case (Cons d ds)
  then show ?case
    by (auto simp: received_def intro!: scoped_release [where r = "Received (pd_fd d)"])
qed (simp add: received_def scoped_ret)

lemma capture_planes_scoped: "scoped gpu_delta (received planes) (capture_planes cc planes) frame_ends"
  by (cases planes) (auto simp: capture_planes_def received_def [of "[]"] intro!: scoped_throw
      scoped_cleanup [OF convert_planes_gains close_planes_releases])

section \<open>The image of a plane\<close>

lemma bit_ffffffff: "bit (4294967295 :: 'a :: len word) n \<longleftrightarrow> n < min LENGTH('a) 32"
proof -
  have "(4294967295 :: 'a word) = mask 32" by (simp add: mask_eq_exp_minus_1)
  then show ?thesis by (simp only: bit_mask_iff) auto
qed

text \<open>The two halves of the modifier are the modifier.\<close>

lemma modifier_halves: "push_bit 32 (ucast (modifier_hi m)) OR ucast (modifier_lo m) = (m :: u64)"
  unfolding modifier_hi_def modifier_lo_def
  by (rule bit_word_eqI, simp only: bit_or_iff bit_push_bit_iff bit_unsigned_iff bit_and_iff bit_drop_bit_eq
      comp_def bit_ffffffff) auto

text \<open>The chosen plane is one of the planes, and no plane has a larger product.\<close>

lemma largest_plane_is_largest:
  "largest_plane p ps \<in> set (p # ps) \<and> (\<forall>d \<in> set (p # ps). plane_area d \<le> plane_area (largest_plane p ps))"
  by (induction p ps rule: largest_plane.induct) (auto split: if_splits)

section \<open>Properties\<close>

text \<open>What the helper's answer is to a dispatch.\<close>

definition planes_of :: "drm_response \<Rightarrow> plane_descriptor list" where
  "planes_of response = take (res_num_fds response) (res_descriptors response)"

text \<open>
  (C13) The buffers of a frame. When the helper's answer has arrived, the dispatch closes every
  descriptor that came with it exactly once, however EGL, OpenGL, CUDA and the frame handler
  answer. If it returns, the images are destroyed, the CUDA resource is unmapped and
  unregistered, and nothing is bound; if it throws, at most images and a registration are left.
\<close>

theorem frame_closes_received_descriptors:
  assumes "dv_handler self"
    and "gpu_io (get_drm_data (dv_socket self) kDRMDataTimeoutMs) w t = (Ret (Inr response), t')"
  shows "\<exists>new L. snd (drm_dispatch_frame self w t) = t' @ new \<and>
    track gpu_delta w t' new (received (planes_of response)) = Some L \<and>
    frame_ends (fst (drm_dispatch_frame self w t)) L"
proof -
  have run: "drm_dispatch_frame self w t = capture_planes (dv_converter self) (planes_of response) w t'"
    using assms by (simp add: drm_dispatch_frame_def planes_of_def bindp_run_simps)
  obtain new H where "snd (capture_planes (dv_converter self) (planes_of response) w t') = t' @ new"
    "track gpu_delta w t' new ({#} + received (planes_of response)) = Some H"
    "fst (capture_planes (dv_converter self) (planes_of response) w t') \<noteq> Abort \<longrightarrow>
      (\<exists>L. H = {#} + L \<and> frame_ends (fst (capture_planes (dv_converter self) (planes_of response) w t')) L)"
    by (rule held_byD [OF scopedD [OF capture_planes_scoped [where planes = "planes_of response" and cc = "dv_converter self"],
      where H = "{#}"], where w = w and t = t'])
  then show ?thesis unfolding run
    by (cases "fst (capture_planes (dv_converter self) (planes_of response) w t') = Abort")
      (auto simp: frame_ends_def)
qed

text \<open>A frame of two planes on a machine where every call succeeds.\<close>

definition demo_gpu :: gpu_world where
  "demo_gpu = \<lparr>gw_io = \<lambda>_. demo_io_world 600, gw_error = \<lambda>_. 0, gw_name = \<lambda>_. 3, gw_names = \<lambda>_. [],
     gw_int = \<lambda>_. 0, gw_ptr = \<lambda>_. 7, gw_text = \<lambda>_. '''', gw_cuda_text = \<lambda>_. None, gw_path = \<lambda>_. None,
     gw_bool = \<lambda>_. True, gw_fails = \<lambda>_. None, gw_location = ''''\<rparr>"

definition demo_service :: drm_video_service where
  "demo_service = (new_drm_video_service 1920 1080)\<lparr>dv_socket := \<lparr>sock_fd = 9\<rparr>, dv_handler := True\<rparr>"

lemma demo_get_drm_data: "\<exists>response t'.
  gpu_io (get_drm_data (dv_socket demo_service) kDRMDataTimeoutMs) demo_gpu [] = (Ret (Inr response), t') \<and>
  received (planes_of response) = {#Received 15, Received 16#}"
  by (simp add: get_drm_data_def gpu_io_def inside_def demo_gpu_def demo_service_def drm_response_receiver_def
      message_handler_def send_handler_def response_receive_handler_def bindp_call_run bindp_run prog_run
      demo_io_world_def sizeof_request_def sizeof_response_def kMaxPlaneDescriptors_def planes_of_def received_def
      control_buffer_def numeral_eq_Suc)

theorem frame_closes_received_descriptors_witness: "\<exists>t' new L.
  snd (drm_dispatch_frame demo_service demo_gpu []) = t' @ new \<and>
  track gpu_delta demo_gpu t' new {#Received 15, Received 16#} = Some L \<and>
  frame_ends (fst (drm_dispatch_frame demo_service demo_gpu [])) L"
proof -
  obtain response t' where r: "gpu_io (get_drm_data (dv_socket demo_service) kDRMDataTimeoutMs) demo_gpu [] =
      (Ret (Inr response), t')" "received (planes_of response) = {#Received 15, Received 16#}"
    using demo_get_drm_data by blast
  have "dv_handler demo_service" by (simp add: demo_service_def)
  from frame_closes_received_descriptors [OF this r(1)] show ?thesis unfolding r(2) by blast
qed

end
