(* ===== verification/Video.thy ===== *)
theory Video
  imports Encoding Readiness Resources Utils
begin

text \<open>
  Capture on X11, \<open>src/services/video_service.cpp\<close>, and the two handlers that turn a captured
  picture into a frame of the encoder, \<open>src/handlers/video_frame_writer.cpp\<close> (a device pointer of
  NvFBC) and \<open>src/handlers/drm_video_frame_writer.cpp\<close> (a CUDA array of the Wayland capture). A
  frame writer is an interface: one call takes the next item of the encoder's pool, fills its
  frame, numbers it and queues it.
\<close>

section \<open>Frames\<close>

record codec_params =
  cp_ptr :: nat
  cp_pix_fmt :: int
  cp_width :: int
  cp_height :: int
  cp_color_range :: int
  cp_color_primaries :: int
  cp_color_trc :: int
  cp_colorspace :: int
  cp_chroma_sample_location :: int
  cp_hw_frames_ctx :: nat

record video_frame =
  vf_hw_frames_ctx :: nat
  vf_buf :: nat
  vf_data :: nat
  vf_linesize :: int
  vf_format :: int
  vf_width :: int
  vf_height :: int
  vf_color_range :: int
  vf_color_primaries :: int
  vf_color_trc :: int
  vf_colorspace :: int
  vf_chroma_location :: int
  vf_pts :: int

text \<open>\<open>CUDA_MEMCPY2D\<close>; the value 0 of the memory type is that of an initialiser without it.\<close>

datatype memory_type = NoMemoryType | MemoryHost | MemoryDevice | MemoryArray | MemoryUnified

fun memory_type_value :: "memory_type \<Rightarrow> u32" where
  "memory_type_value NoMemoryType = 0"
| "memory_type_value MemoryHost = 1"
| "memory_type_value MemoryDevice = 2"
| "memory_type_value MemoryArray = 3"
| "memory_type_value MemoryUnified = 4"

record cuda_memcpy2d =
  src_x_in_bytes :: size_t
  src_y :: size_t
  src_memory_type :: memory_type
  src_host :: nat
  src_device :: u64
  src_array :: nat
  src_pitch :: size_t
  dst_x_in_bytes :: size_t
  dst_y :: size_t
  dst_memory_type :: memory_type
  dst_host :: nat
  dst_device :: u64
  dst_array :: nat
  dst_pitch :: size_t
  width_in_bytes :: size_t
  copy_height :: size_t

text \<open>\<open>SetFrame\<close> stands for the stores into the frame of an item, the rest are calls.\<close>

datatype video_call =
    EncCall enc_call | RefHwFrames nat | GetPoolBuffer nat | GetHwBuffer nat | SetFrame nat video_frame
  | Memcpy2D cuda_memcpy2d | CuErrorString int | GrabFrame u64 | LastErrorStr u64

record video_world =
  vw_enc :: "video_call list \<Rightarrow> enc_world"
  vw_ref :: "video_call list \<Rightarrow> nat"
  vw_hw_buffer :: "video_call list \<Rightarrow> int \<times> int \<times> nat"
  vw_int :: "video_call list \<Rightarrow> int"
  vw_text :: "video_call list \<Rightarrow> string"
  vw_error :: "video_call list \<Rightarrow> string option"
  vw_grab :: "video_call list \<Rightarrow> int \<times> nat"

type_synonym 'a video_prog = "(video_world, video_call, 'a) prog"

definition enc :: "'a enc_prog \<Rightarrow> 'a video_prog" where
  "enc p = inside vw_enc EncCall p"

text \<open>The fields that both writers copy from the codec context.\<close>

definition frame_of_codec :: "codec_params \<Rightarrow> u64 \<Rightarrow> video_frame" where
  "frame_of_codec cp number = \<lparr>vf_hw_frames_ctx = 0, vf_buf = 0, vf_data = 0, vf_linesize = 0,
     vf_format = cp_pix_fmt cp, vf_width = cp_width cp, vf_height = cp_height cp,
     vf_color_range = cp_color_range cp, vf_color_primaries = cp_color_primaries cp,
     vf_color_trc = cp_color_trc cp, vf_colorspace = cp_colorspace cp,
     vf_chroma_location = cp_chroma_sample_location cp, vf_pts = sint number\<rparr>"

section \<open>The writers\<close>

record frame_writer =
  fw_codec :: codec_params
  fw_stream :: nat
  fw_notify_fd :: int
  fw_frames :: "nat \<Rightarrow> nat option"

text \<open>What a call changes: the frame number and the encoder's queue.\<close>

type_synonym writer_state = "u64 \<times> stream_poll list"

text \<open>An item of the pool: \<open>fw_frames\<close> says which frame it holds.\<close>

definition pool_item :: "(nat \<Rightarrow> nat option) \<Rightarrow> nat \<Rightarrow> stream_poll" where
  "pool_item frames i = \<lparr>sp_id = i, sp_ctx = 0, sp_stream = 0, sp_frame = frames i\<rparr>"

text \<open>
  A call up to the stores has the item in an owning pointer that returns it to the pool when an
  exception is thrown; \<open>write_frame\<close> takes it over. The number is used and incremented last.
\<close>

definition write_next ::
  "frame_writer \<Rightarrow> (nat \<Rightarrow> u64 \<Rightarrow> unit video_prog) \<Rightarrow> writer_state \<Rightarrow> writer_state video_prog" where
  "write_next wr fill = (\<lambda>(number, pending).
     bindp (enc (prepare_frame (cp_ptr (fw_codec wr)) (fw_stream wr) (pool_item (fw_frames wr)))) (\<lambda>item.
     thenp (guarded_unless_ret (emit (EncCall (ReturnItem (sp_id item))))
       (case sp_frame item of None \<Rightarrow> terminate | Some frame \<Rightarrow> fill frame number))
     (bindp (enc (write_frame (fw_notify_fd wr) item pending)) (\<lambda>pending'.
      ret (number + 1, pending')))))"

text \<open>
  The frame of a device pointer. The size of a line is computed in \<open>size_t\<close> and stored as an
  \<open>int\<close>. The hardware context of the codec is dereferenced.
\<close>

definition pointer_linesize :: "int \<Rightarrow> int" where
  "pointer_linesize w = sint (ucast (word_of_int w * 4 :: size_t) :: u32)"

definition fill_pointer_frame :: "codec_params \<Rightarrow> nat \<Rightarrow> nat \<Rightarrow> u64 \<Rightarrow> unit video_prog" where
  "fill_pointer_frame cp device_ptr frame number =
     (if cp_hw_frames_ctx cp = 0 then terminate
      else bindp (call vw_ref (RefHwFrames (cp_hw_frames_ctx cp))) (\<lambda>hw.
        bindp (call vw_ref (GetPoolBuffer (cp_hw_frames_ctx cp))) (\<lambda>buf.
        emit (SetFrame frame ((frame_of_codec cp number)\<lparr>vf_hw_frames_ctx := hw, vf_buf := buf,
          vf_data := device_ptr, vf_linesize := pointer_linesize (cp_width cp)\<rparr>)))))"

definition video_frame_writer :: "frame_writer \<Rightarrow> nat \<Rightarrow> writer_state \<Rightarrow> writer_state video_prog" where
  "video_frame_writer wr device_ptr = write_next wr (fill_pointer_frame (fw_codec wr) device_ptr)"

text \<open>
  The frame of a CUDA array: a hardware buffer is allocated and the picture is copied into it,
  as many bytes of a line as the destination has.
\<close>

definition throw_copy_failed :: "u64 \<Rightarrow> int \<Rightarrow> 'a video_prog" where
  "throw_copy_failed number r = bindp (call vw_error (CuErrorString r)) (\<lambda>m.
     throw (RuntimeError (to_string (uint number) @ '' Failed to copy CUDA buffer: '' @
       (case m of None \<Rightarrow> ''unknown'' | Some m \<Rightarrow> m))))"

definition no_copy :: cuda_memcpy2d where
  "no_copy = \<lparr>src_x_in_bytes = 0, src_y = 0, src_memory_type = NoMemoryType, src_host = 0, src_device = 0,
     src_array = 0, src_pitch = 0, dst_x_in_bytes = 0, dst_y = 0, dst_memory_type = NoMemoryType, dst_host = 0,
     dst_device = 0, dst_array = 0, dst_pitch = 0, width_in_bytes = 0, copy_height = 0\<rparr>"

definition copy_of :: "nat \<Rightarrow> int \<Rightarrow> nat \<Rightarrow> int \<Rightarrow> cuda_memcpy2d" where
  "copy_of array linesize data height = no_copy\<lparr>src_memory_type := MemoryArray, dst_memory_type := MemoryDevice,
     src_array := array, dst_device := of_nat data, dst_pitch := word_of_int linesize,
     width_in_bytes := word_of_int linesize, copy_height := word_of_int height\<rparr>"

definition fill_array_frame :: "codec_params \<Rightarrow> nat \<Rightarrow> nat \<Rightarrow> u64 \<Rightarrow> unit video_prog" where
  "fill_array_frame cp array frame number =
     bindp (call vw_hw_buffer (GetHwBuffer (cp_hw_frames_ctx cp))) (\<lambda>(r, linesize, data).
     if r < 0 then throw (RuntimeError ''Failed to get H/W frame buffer'')
     else thenp (sc_expect (linesize \<noteq> 0)) (thenp (sc_expect (cp_height cp \<noteq> 0)) (thenp (sc_expect (data \<noteq> 0))
       (bindp (call vw_int (Memcpy2D (copy_of array linesize data (cp_height cp)))) (\<lambda>r.
        if r \<noteq> 0 then throw_copy_failed number r
        else emit (SetFrame frame ((frame_of_codec cp number)\<lparr>vf_hw_frames_ctx := cp_hw_frames_ctx cp,
          vf_data := data, vf_linesize := linesize\<rparr>)))))))"

definition drm_video_frame_writer :: "frame_writer \<Rightarrow> nat \<Rightarrow> writer_state \<Rightarrow> writer_state video_prog" where
  "drm_video_frame_writer wr array = (\<lambda>st.
     thenp (sc_expect (array \<noteq> 0)) (write_next wr (fill_array_frame (fw_codec wr) array) st))"

section \<open>The service\<close>

record video_service =
  vs_session :: u64
  vs_handler :: bool
  vs_frame_time :: u64

definition new_video_service :: "u64 \<Rightarrow> video_service" where
  "new_video_service session = \<lparr>vs_session = session, vs_handler = False, vs_frame_time = 0\<rparr>"

definition set_capture_frame_handler :: "video_service \<Rightarrow> video_service" where
  "set_capture_frame_handler self = self\<lparr>vs_handler := True\<rparr>"

definition video_on_init ::
  "nat \<Rightarrow> nat \<Rightarrow> size_t \<Rightarrow> reg_state \<Rightarrow> video_service \<Rightarrow> (video_service \<times> reg_state) option" where
  "video_on_init svc dispatch frame_time reg self =
     map_option (\<lambda>reg'. (self\<lparr>vs_frame_time := frame_time\<rparr>, reg'))
       (register_readiness svc frame_time (OnFrame (frame_time_ratio 1 1)) dispatch reg)"

definition video_dispatch_frame ::
  "video_service \<Rightarrow> (nat \<Rightarrow> 's \<Rightarrow> 's video_prog) \<Rightarrow> 's \<Rightarrow> 's video_prog" where
  "video_dispatch_frame self receiver st =
     bindp (call vw_grab (GrabFrame (vs_session self))) (\<lambda>(status, device_ptr).
     if status \<noteq> 0 then bindp (call vw_text (LastErrorStr (vs_session self))) (\<lambda>m. throw (NvFBCError m))
     else if vs_handler self then receiver device_ptr st
     else ret st)"

text \<open>A sequence of pictures given to a writer.\<close>

fun write_all :: "('p \<Rightarrow> 's \<Rightarrow> 's video_prog) \<Rightarrow> 'p list \<Rightarrow> 's \<Rightarrow> 's video_prog" where
  "write_all step [] st = ret st"
| "write_all step (p # ps) st = bindp (step p st) (write_all step ps)"

section \<open>Numbers and items\<close>

text \<open>What a history says: the time stamps that were stored, the items taken, queued and returned.\<close>

fun numbers :: "video_call list \<Rightarrow> int list" where
  "numbers [] = []"
| "numbers (SetFrame f v # es) = vf_pts v # numbers es"
| "numbers (_ # es) = numbers es"

fun taken :: "video_call list \<Rightarrow> nat list" where
  "taken [] = []"
| "taken (EncCall (ResetItem i) # es) = i # taken es"
| "taken (_ # es) = taken es"

fun queued :: "video_call list \<Rightarrow> nat list" where
  "queued [] = []"
| "queued (EncCall (PushPending i) # es) = i # queued es"
| "queued (_ # es) = queued es"

fun given_back :: "video_call list \<Rightarrow> nat list" where
  "given_back [] = []"
| "given_back (EncCall (ReturnItem i) # es) = i # given_back es"
| "given_back (_ # es) = given_back es"

lemma logs_append [simp]:
  shows "numbers (es @ es') = numbers es @ numbers es'"
    and "taken (es @ es') = taken es @ taken es'"
    and "queued (es @ es') = queued es @ queued es'"
    and "given_back (es @ es') = given_back es @ given_back es'"
proof -
  show "numbers (es @ es') = numbers es @ numbers es'" by (induction es rule: numbers.induct) auto
  show "taken (es @ es') = taken es @ taken es'" by (induction es rule: taken.induct) auto
  show "queued (es @ es') = queued es @ queued es'" by (induction es rule: queued.induct) auto
  show "given_back (es @ es') = given_back es @ given_back es'" by (induction es rule: given_back.induct) auto
qed

text \<open>
  The contract: started at number \<open>n\<close> with \<open>k\<close> pictures, the frames have the numbers from \<open>n\<close>
  without a gap and every item taken is queued; when a picture fails, the frames before it have
  theirs and the item of the failed one is back in the pool.
\<close>

definition numbered_from :: "u64 \<Rightarrow> nat \<Rightarrow> int list" where
  "numbered_from n k = map (\<lambda>i. sint (n + of_nat i)) [0..<k]"

definition frames_numbered ::
  "nat \<Rightarrow> u64 \<Rightarrow> stream_poll list \<Rightarrow> writer_state outcome \<Rightarrow> video_call list \<Rightarrow> bool" where
  "frames_numbered k n pending r es = (case r of
       Ret (n', pending') \<Rightarrow> n' = n + of_nat k \<and> numbers es = numbered_from n k \<and>
         (\<exists>its. pending' = pending @ its \<and> map sp_id its = taken es) \<and> queued es = taken es \<and>
         length (queued es) = k \<and> given_back es = []
     | Exc e \<Rightarrow> \<exists>j < k. numbers es = numbered_from n j \<and> length (queued es) = j \<and>
         taken es = queued es @ given_back es
     | Abort \<Rightarrow> True)"

lemma numbered_from_simps [simp]: "numbered_from n 0 = []"
  "numbered_from n (Suc k) = sint n # numbered_from (n + 1) k"
  unfolding numbered_from_def by (simp_all add: upt_conv_Cons map_Suc_upt [symmetric] comp_def algebra_simps
      del: map_Suc_upt upt_Suc)

lemma frames_numbered_step:
  assumes "frames_numbered 1 n q (Ret (n', q')) es" "frames_numbered k n' q' r es'"
  shows "frames_numbered (Suc k) n q r (es @ es')"
proof (cases r)
  case (Ret st)
  obtain n'' q'' where "st = (n'', q'')" by (cases st)
  with Ret assms show ?thesis by (fastforce simp: frames_numbered_def algebra_simps)
next
  case (Exc e)
  with assms(2) obtain j where "j < k" "numbers es' = numbered_from n' j" "length (queued es') = j"
    "taken es' = queued es' @ given_back es'" by (auto simp: frames_numbered_def)
  with Exc assms(1) show ?thesis by (auto simp: frames_numbered_def intro!: exI [of _ "Suc j"])
qed (simp add: frames_numbered_def)

locale frame_step =
  fixes step :: "'p \<Rightarrow> writer_state \<Rightarrow> writer_state video_prog"
  assumes step_numbers: "runs (step p (n, pending)) (frames_numbered 1 n pending)"
begin

lemma all_numbered: "runs (write_all step ps (n, pending)) (frames_numbered (length ps) n pending)"
proof (induction ps arbitrary: n pending)
  case Nil
  show ?case by (auto simp: frames_numbered_def intro!: runs_ret)
next
  case (Cons p ps)
  show ?case unfolding write_all.simps list.size
  proof (rule runs_bindp [OF step_numbers], goal_cases)
    case (1 st es)
    obtain n' q' where st: "st = (n', q')" by (cases st)
    show ?case unfolding st
      by (rule runs_weaken [OF Cons.IH]) (use 1 st frames_numbered_step in auto)
  next
    case (2 e es)
    then show ?case by (auto simp: frames_numbered_def)
  qed (simp add: frames_numbered_def)
qed

end

section \<open>The writers keep the contract\<close>

lemma prepare_frame_runs:
  "runs (prepare_frame ctx stream store) (\<lambda>r es. case r of
     Ret it \<Rightarrow> \<exists>i. es = [PoolGet, ResetItem i] \<and> sp_id it = sp_id (store i) \<and> sp_frame it \<noteq> None
   | Exc e \<Rightarrow> es = [PoolGet] | Abort \<Rightarrow> False)"
  unfolding prepare_frame_def stream_poll_reset_def
  by (auto intro!: runs_call_bindp runs_ret runs_throw split: sum.split option.split)

lemma write_frame_runs:
  "runs (write_frame fd it q) (\<lambda>r es. r = Ret (q @ [it]) \<and>
     es = [ELock, SendFrame (sp_ctx it) (sp_frame it), PushPending (sp_id it), EUnlock, WriteNotify fd])"
proof (rule runsI)
  fix w t
  show "\<exists>new. snd (write_frame fd it q w t) = t @ new \<and> fst (write_frame fd it q w t) = Ret (q @ [it]) \<and>
     new = [ELock, SendFrame (sp_ctx it) (sp_frame it), PushPending (sp_id it), EUnlock, WriteNotify fd]"
    by (simp add: write_frame_def locked_def bindp_run [of "bindp (emit ELock) f" for f] bindp_emit_run
        bindp_call_run guarded_run [of "emit EUnlock"] prog_run)
qed

text \<open>What the stores of a frame leave: its number, or nothing when they fail.\<close>

definition fills :: "u64 \<Rightarrow> unit outcome \<Rightarrow> video_call list \<Rightarrow> bool" where
  "fills n r es \<longleftrightarrow> taken es = [] \<and> queued es = [] \<and> given_back es = [] \<and>
     (case r of Ret _ \<Rightarrow> numbers es = [sint n] | Exc _ \<Rightarrow> numbers es = [] | Abort \<Rightarrow> True)"

lemma fill_pointer_frame_fills: "runs (fill_pointer_frame cp ptr frame n) (fills n)"
  unfolding fill_pointer_frame_def
  by (auto intro!: runs_terminate runs_call_bindp runs_emit simp: fills_def frame_of_codec_def)

lemma fill_array_frame_fills: "runs (fill_array_frame cp array frame n) (fills n)"
  unfolding fill_array_frame_def throw_copy_failed_def sc_expect_def contract_check_failed_def
  by (auto intro!: runs_call_bindp runs_emit runs_throw runs_ret runs_terminate
      runs_bindp [of terminate "\<lambda>r es. r = Abort \<and> es = []"]
      simp: fills_def frame_of_codec_def bindp_ret_left split: prod.split)

lemma write_next_numbers:
  assumes "\<And>frame n. runs (fill frame n) (fills n)"
  shows "runs (write_next wr fill (n, pending)) (frames_numbered 1 n pending)"
  unfolding write_next_def enc_def prod.case
proof (rule runs_bindp [OF runs_inside [OF prepare_frame_runs]], goal_cases)
  case (1 it es)
  then obtain i f where es: "es = map EncCall [PoolGet, ResetItem i]" and it: "sp_id it = i" "sp_frame it = Some f"
    by (auto simp: pool_item_def)
  have "runs (guarded_unless_ret (emit (EncCall (ReturnItem (sp_id it))))
      (case sp_frame it of None \<Rightarrow> terminate | Some frame \<Rightarrow> fill frame n))
    (\<lambda>r es. taken es = [] \<and> queued es = [] \<and> (case r of Ret _ \<Rightarrow> given_back es = [] \<and> numbers es = [sint n]
      | Exc _ \<Rightarrow> given_back es = [i] \<and> numbers es = [] | Abort \<Rightarrow> True))"
    by (rule runs_guarded_unless_ret [where P = "fills n" and fin = "[EncCall (ReturnItem i)]"])
      (auto simp: it fills_def intro: assms runs_emit)
  then show ?case
  proof (rule runs_bindp, goal_cases)
    case (1 u es')
    show ?case
      by (rule runs_bindp [OF runs_inside [OF write_frame_runs]])
        (use 1 es it in \<open>auto simp: frames_numbered_def intro!: runs_ret\<close>)
  qed (auto simp: es frames_numbered_def)
qed (auto simp: frames_numbered_def)

interpretation pointer_frames: frame_step "video_frame_writer wr" for wr
  by unfold_locales (unfold video_frame_writer_def, intro write_next_numbers fill_pointer_frame_fills)

interpretation array_frames: frame_step "drm_video_frame_writer wr" for wr
proof
  fix array n pending
  show "runs (drm_video_frame_writer wr array (n, pending)) (frames_numbered 1 n pending)"
    unfolding drm_video_frame_writer_def sc_expect_def contract_check_failed_def
    using write_next_numbers [OF fill_array_frame_fills]
    by (auto simp: bindp_ret_left frames_numbered_def
        intro!: runs_bindp [of terminate "\<lambda>r es. r = Abort \<and> es = []"] runs_terminate)
qed

text \<open>A dispatch of the service with a handler is a step as well: the picture comes from NvFBC.\<close>

interpretation grabbed_frames:
  frame_step "\<lambda>self. video_dispatch_frame (set_capture_frame_handler self) (video_frame_writer wr)" for wr
proof
  fix self n pending
  have first: "frames_numbered 1 n pending (Exc e) es" if "numbers es = []" "queued es = []" "taken es = given_back es"
    for e es using that by (auto simp: frames_numbered_def)
  show "runs (video_dispatch_frame (set_capture_frame_handler self) (video_frame_writer wr) (n, pending))
      (frames_numbered 1 n pending)"
    unfolding video_dispatch_frame_def set_capture_frame_handler_def
    by (auto intro!: runs_call_bindp runs_throw first runs_weaken [OF pointer_frames.step_numbers]
        simp: frames_numbered_def split: prod.split outcome.splits)
qed

section \<open>The timer\<close>

definition close_period :: "int \<Rightarrow> frame_time \<Rightarrow> bool" where
  "close_period n ft = (case tick_expiry (ft_value ft) (frame_time_ratio 1 1) of
       None \<Rightarrow> False
     | Some p \<Rightarrow> \<bar>uint p - uint (ft_value ft)\<bar> \<le> (if n < 60 then 2 else 0))"

definition period_close :: "int \<Rightarrow> bool" where
  "period_close n = (case from_fps (of_int n) of None \<Rightarrow> False
     | Some ft \<Rightarrow> close_period n ft \<and> close_period n (truncate_to_millisecond ft))"

lemma periods_computed: "list_all period_close [20..70]"
  by code_simp

section \<open>Properties\<close>

text \<open>
  (C17) The numbering of video frames. Whatever NvFBC, libav, CUDA and the pool answer: in any number of
  dispatches of the service, and for any pictures of the Wayland capture, the frames given to the
  encoder are numbered 0, 1, 2 and so on in the order of the pictures. Every item that was taken
  from the pool is queued exactly once; when a picture fails, the frames before it are numbered and
  queued and its item is back in the pool.
\<close>

theorem video_frames_are_numbered:
  "runs (write_all (\<lambda>self. video_dispatch_frame (set_capture_frame_handler self) (video_frame_writer wr)) svcs (0, pending))
     (frames_numbered (length svcs) 0 pending) \<and>
   runs (write_all (drm_video_frame_writer wr) arrays (0, pending)) (frames_numbered (length arrays) 0 pending)"
  by (intro conjI grabbed_frames.all_numbered array_frames.all_numbered)

text \<open>
  (C34) The rate of the video timer. For every frame rate the command line accepts (20 to 70), both with
  the exact frame time and with the one truncated to milliseconds, the initialisation of the capture
  service succeeds and registers one timer more, whose period, computed in single precision, is within
  two nanoseconds of the frame time; from 60 frames per second on it is the frame time.
\<close>

theorem video_timer_period:
  assumes "20 \<le> n" "n \<le> 70" "from_fps (of_int n) = Some exact" "ft \<in> {exact, truncate_to_millisecond exact}"
  shows "\<exists>reg' t. video_on_init svc dispatch (ft_value ft) reg self = Some (self\<lparr>vs_frame_time := ft_value ft\<rparr>, reg') \<and>
    set (timers reg') = insert t (set (timers reg)) \<and> length (timers reg') = Suc (length (timers reg)) \<and>
    t_svc t = svc \<and> t_dispatch t = dispatch \<and>
    \<bar>uint (t_frame_time t) - uint (ft_value ft)\<bar> \<le> (if n < 60 then 2 else 0)"
proof -
  have "n \<in> set [20..70]" unfolding set_upto using assms by simp
  with periods_computed have "period_close n" unfolding list_all_iff by (rule bspec)
  with assms(3,4) obtain p where p: "tick_expiry (ft_value ft) (frame_time_ratio 1 1) = Some p"
    "\<bar>uint p - uint (ft_value ft)\<bar> \<le> (if n < 60 then 2 else 0)"
    by (auto simp: period_close_def close_period_def split: option.splits)
  then show ?thesis
    by (auto simp: video_on_init_def register_readiness_def emplace_timer_set emplace_timer_length)
qed

theorem video_timer_period_witness: "\<exists>reg' t.
  video_on_init 3 0 33333333 \<lparr>notifications = [], timers = []\<rparr> (new_video_service 9) =
    Some ((new_video_service 9)\<lparr>vs_frame_time := 33333333\<rparr>, reg') \<and>
  timers reg' = [t] \<and> \<bar>uint (t_frame_time t) - 33333333\<bar> \<le> 2"
proof -
  let ?reg = "\<lparr>notifications = [], timers = []\<rparr> :: reg_state"
  have ft: "from_fps (of_int 30) = Some (FrameTime 33333333)" by (simp add: from_fps_def kNsPerSec_def)
  obtain reg' t where "video_on_init 3 0 33333333 ?reg (new_video_service 9) =
      Some ((new_video_service 9)\<lparr>vs_frame_time := 33333333\<rparr>, reg')"
    "set (timers reg') = {t}" "length (timers reg') = 1" "\<bar>uint (t_frame_time t) - 33333333\<bar> \<le> 2"
    using video_timer_period [OF _ _ ft, of "FrameTime 33333333" 3 0 ?reg "new_video_service 9"]
    by (auto simp: ft_value_def FrameTime_def)
  moreover from this have "timers reg' = [t]" by (cases "timers reg'") auto
  ultimately show ?thesis by blast
qed

end
