(* ===== verification/Metrics.thy ===== *)
theory Metrics
  imports Utils
begin

text \<open>
  The frame-time histograms, \<open>src/metrics/histogram.hpp\<close>, \<open>metrics.hpp\<close> and \<open>metrics.cpp\<close>, their
  table \<open>src/metrics/formatting.hpp\<close>, and the prefix of a log line, \<open>src/logging.cpp\<close>. The
  histogram finds the bucket of a value by binary search; the reference definition computes it
  by a division.
\<close>

section \<open>Histogram\<close>

record histogram =
  buckets :: "u64 list"
  counts :: "size_t list"

fun init_buckets :: "nat \<Rightarrow> u64 \<Rightarrow> u64 \<Rightarrow> u64 list" where
  "init_buckets 0 i bucket_val = []"
| "init_buckets (Suc n) i bucket_val = bucket_val # init_buckets n i (bucket_val + i)"

definition new_histogram :: "nat \<Rightarrow> u64 \<Rightarrow> histogram" where
  "new_histogram n i = \<lparr>buckets = init_buckets n i i, counts = replicate n 0\<rparr>"

text \<open>Indexing, with its contract.\<close>

definition histogram_at :: "histogram \<Rightarrow> nat \<Rightarrow> (u64 \<times> size_t) option" where
  "histogram_at h n = (if n < length (buckets h) then Some (buckets h ! n, counts h ! n) else None)"

text \<open>\<open>std::lower_bound\<close> over \<open>len\<close> elements from \<open>first\<close>: the index it returns.\<close>

fun lower_bound :: "u64 list \<Rightarrow> u64 \<Rightarrow> nat \<Rightarrow> nat \<Rightarrow> nat" where
  "lower_bound xs val first len =
     (if len = 0 then first
      else let half = len div 2; mid = first + half in
        if xs ! mid < val then lower_bound xs val (mid + 1) (len - half - 1)
        else lower_bound xs val first half)"

declare lower_bound.simps [simp del]

text \<open>The last bucket is outside of the search: it takes everything above the others.\<close>

definition add_value :: "u64 \<Rightarrow> histogram \<Rightarrow> histogram" where
  "add_value val h = (let n = lower_bound (buckets h) val 0 (length (buckets h) - 1)
     in h\<lparr>counts := (counts h)[n := counts h ! n + 1]\<rparr>)"

text \<open>Iteration from \<open>begin\<close> to \<open>end\<close>.\<close>

definition data_points :: "histogram \<Rightarrow> (u64 \<times> size_t) list" where
  "data_points h = map (\<lambda>n. (buckets h ! n, counts h ! n)) [0..<length (buckets h)]"

section \<open>The two series\<close>

datatype metrics_tag = AudioMetricsTag | VideoMetricsTag

definition kBucketSize :: u64 where "kBucketSize = 500000"
definition kBucketCount :: nat where "kBucketCount = 20"

record metrics =
  audio_histogram :: histogram
  video_histogram :: histogram

definition new_metrics :: metrics where
  "new_metrics = \<lparr>audio_histogram = new_histogram kBucketCount kBucketSize,
     video_histogram = new_histogram kBucketCount kBucketSize\<rparr>"

fun add_frame_time :: "metrics_tag \<Rightarrow> u64 \<Rightarrow> metrics \<Rightarrow> metrics" where
  "add_frame_time AudioMetricsTag val m = m\<lparr>audio_histogram := add_value val (audio_histogram m)\<rparr>"
| "add_frame_time VideoMetricsTag val m = m\<lparr>video_histogram := add_value val (video_histogram m)\<rparr>"

fun get_histogram :: "metrics_tag \<Rightarrow> metrics \<Rightarrow> histogram" where
  "get_histogram AudioMetricsTag m = audio_histogram m"
| "get_histogram VideoMetricsTag m = video_histogram m"

section \<open>The table\<close>

text \<open>A formatted output of a given width: filled on the left.\<close>

definition padded :: "char \<Rightarrow> nat \<Rightarrow> string \<Rightarrow> string" where
  "padded fill w s = replicate (w - length s) fill @ s"

definition newline :: char where "newline = CHR 0x0A"

definition format_row :: "nat \<Rightarrow> u64 \<times> size_t \<Rightarrow> string" where
  "format_row column_size p =
     ''| '' @ padded (CHR '' '') column_size (to_string (uint (fst p))) @ '' | '' @
     padded (CHR '' '') column_size (to_string (uint (snd p))) @ '' |'' @ [newline]"

definition format_histogram_rows :: "histogram \<Rightarrow> nat \<Rightarrow> string" where
  "format_histogram_rows h column_size = concat (map (format_row column_size) (data_points h))"

definition kColumnMargin :: nat where "kColumnMargin = 1"

definition format_header :: "nat \<Rightarrow> string \<Rightarrow> string" where
  "format_header column_width series_name =
     ''| '' @ padded (CHR '' '') column_width series_name @ '' | '' @
     padded (CHR '' '') column_width ''Frequency'' @ '' |'' @ [newline]"

definition format_rule :: "nat \<Rightarrow> string" where
  "format_rule column_width =
     ''|'' @ padded (CHR ''-'') (column_width + kColumnMargin * 2) ''-'' @ ''|'' @
     padded (CHR ''-'') (column_width + kColumnMargin * 2) ''-'' @ ''|'' @ [newline]"

definition format_histogram :: "histogram \<Rightarrow> string \<Rightarrow> string \<Rightarrow> string" where
  "format_histogram h series_name title =
     (let column_width = max (length series_name) 10 in
      (if length title \<noteq> 0 then title @ [newline] else []) @
      format_header column_width series_name @ format_rule column_width @
      format_histogram_rows h column_width)"

section \<open>Log lines\<close>

datatype level = debug | info | warning | error

fun level_to_string :: "level \<Rightarrow> string" where
  "level_to_string info = ''INFO''"
| "level_to_string warning = ''WARN''"
| "level_to_string error = ''ERROR''"
| "level_to_string debug = ''DEBUG''"

text \<open>
  Always five characters are copied from the literal: from a shorter name the terminating zero
  as well.
\<close>

definition kMaxLevelStringSize :: nat where "kMaxLevelStringSize = 5"

definition format_level :: "level \<Rightarrow> string" where
  "format_level l = ''['' @ take kMaxLevelStringSize (level_to_string l @ [CHR 0x00]) @ ''] ''"

definition log_write :: "level \<Rightarrow> string \<Rightarrow> string" where
  "log_write l msg = format_level l @ msg @ [newline]"

lemma short_levels_contain_zero: "CHR 0x00 \<in> set (format_level l) \<longleftrightarrow> l = info \<or> l = warning"
  by (cases l) (simp_all add: format_level_def kMaxLevelStringSize_def)

section \<open>Lemmas\<close>

lemma length_init_buckets [simp]: "length (init_buckets n i v) = n"
  by (induction n arbitrary: v) simp_all

lemma nth_init_buckets: "k < n \<Longrightarrow> init_buckets n i v ! k = v + of_nat k * i"
proof (induction n arbitrary: v k)
  case (Suc n)
  then show ?case by (cases k) (auto simp: algebra_simps)
qed simp

text \<open>The binary search counts the leading elements that are smaller.\<close>

lemma lower_bound_sorted:
  assumes "\<And>i j. i \<le> j \<Longrightarrow> j < first + len \<Longrightarrow> xs ! i \<le> xs ! j"
    and "\<And>i. i < first \<Longrightarrow> xs ! i < val"
    and "m \<le> first + len" "first \<le> m"
    and "\<And>i. i < m \<Longrightarrow> xs ! i < val" "\<And>i. m \<le> i \<Longrightarrow> i < first + len \<Longrightarrow> \<not> xs ! i < val"
  shows "lower_bound xs val first len = m"
  using assms
proof (induction xs val first len rule: lower_bound.induct)
  case (1 xs val first len)
  let ?mid = "first + len div 2"
  show ?case
  proof (cases "len = 0")
    case True
    with 1 show ?thesis by (simp add: lower_bound.simps)
  next
    case False
    then have mid: "?mid < first + len" by simp
    show ?thesis
    proof (cases "xs ! ?mid < val")
      case True
      with 1(8) [of ?mid] mid have "?mid < m" by force
      have "lower_bound xs val (?mid + 1) (len - len div 2 - 1) = m"
        by (rule 1(1)) (use 1(3-8) False True \<open>?mid < m\<close> in auto)
      then show ?thesis using False True by (simp add: lower_bound.simps [of xs val first len] Let_def)
    next
      case no: False
      then have "m \<le> ?mid" using 1(7) [of ?mid] by force
      have "lower_bound xs val first (len div 2) = m"
        by (rule 1(2)) (use 1(3-8) False no \<open>m \<le> ?mid\<close> in auto)
      then show ?thesis using False no by (simp add: lower_bound.simps [of xs val first len] Let_def)
    qed
  qed
qed

text \<open>
  The reference: bucket \<open>i\<close> counts the values above \<open>i\<close> and up to \<open>i + 1\<close> bucket sizes; the first
  one also counts zero and the last one everything above.
\<close>

definition bucket_of :: "nat \<Rightarrow> u64 \<Rightarrow> u64 \<Rightarrow> nat" where
  "bucket_of n i val = min (n - 1) ((unat val - 1) div unat i)"

definition bucket_counts :: "nat \<Rightarrow> u64 \<Rightarrow> u64 list \<Rightarrow> size_t list" where
  "bucket_counts n i vals = map (\<lambda>k. of_nat (length (filter (\<lambda>v. bucket_of n i v = k) vals))) [0..<n]"

lemma unat_init_buckets:
  assumes "n * unat i < 2 ^ 64" "k < n"
  shows "unat (init_buckets n i i ! k) = (k + 1) * unat i"
proof -
  have "(k + 1) * unat i \<le> n * unat i" using assms(2) by (intro mult_le_mono1) simp
  then have "(k + 1) * unat i < 2 ^ LENGTH(64)" using assms(1) by simp
  moreover have "init_buckets n i i ! k = of_nat ((k + 1) * unat i)"
    using nth_init_buckets [OF assms(2), of i i] by (simp add: algebra_simps)
  ultimately show ?thesis by (simp only: unat_of_nat) simp
qed

lemma lower_bound_bucket:
  assumes "1 \<le> n" "i \<noteq> 0" "n * unat i < 2 ^ 64"
  shows "lower_bound (init_buckets n i i) val 0 (n - 1) = bucket_of n i val"
proof -
  let ?q = "(unat val - 1) div unat i"
  have i: "0 < unat i" using assms(2) by (simp add: unat_gt_0)
  have below: "init_buckets n i i ! k < val \<longleftrightarrow> k < ?q" if "k < n - 1" for k
  proof -
    have "init_buckets n i i ! k < val \<longleftrightarrow> (k + 1) * unat i < unat val"
      using unat_init_buckets [OF assms(3), of k] that by (simp add: word_less_nat_alt)
    also have "\<dots> \<longleftrightarrow> (k + 1) * unat i \<le> unat val - 1" using i by auto
    also have "\<dots> \<longleftrightarrow> k + 1 \<le> ?q" by (rule less_eq_div_iff_mult_less_eq [OF i, symmetric])
    also have "\<dots> \<longleftrightarrow> k < ?q" by auto
    finally show ?thesis .
  qed
  have sorted: "init_buckets n i i ! k \<le> init_buckets n i i ! j" if "k \<le> j" "j < n - 1" for k j
    using unat_init_buckets [OF assms(3), of k] unat_init_buckets [OF assms(3), of j] that
    by (simp add: word_le_nat_alt)
  show ?thesis
    by (rule lower_bound_sorted) (use below sorted in \<open>auto simp: bucket_of_def min_def not_less split: if_splits\<close>)
qed

lemma add_value_bucket:
  assumes "1 \<le> n" "i \<noteq> 0" "n * unat i < 2 ^ 64" "buckets h = init_buckets n i i"
  shows "add_value val h = h\<lparr>counts := (counts h)[bucket_of n i val := counts h ! bucket_of n i val + 1]\<rparr>"
  unfolding add_value_def assms(4) length_init_buckets lower_bound_bucket [OF assms(1-3)] Let_def ..

lemma bucket_of_less: "1 \<le> n \<Longrightarrow> bucket_of n i val < n"
  by (auto simp: bucket_of_def)

lemma sum_list_increment:
  "k < length xs \<Longrightarrow> sum_list (xs[k := xs ! k + 1]) = sum_list xs + (1 :: size_t)"
  by (induction xs arbitrary: k) (auto simp: nth_Cons' list_update.simps split: nat.splits)

lemma bucket_counts_snoc:
  assumes "1 \<le> n"
  shows "bucket_counts n i (vals @ [v]) =
    (bucket_counts n i vals)[bucket_of n i v := bucket_counts n i vals ! bucket_of n i v + 1]"
  using bucket_of_less [OF assms, of i v]
  by (intro nth_equalityI) (auto simp: bucket_counts_def nth_list_update)

section \<open>Properties\<close>



end
