(* ===== verification/Interrupt.thy ===== *)
theory Interrupt
  imports Context Session
begin

text \<open>
  The interrupt of a recording: the event loop (theory Context), the signal service (theory
  Signals) and the handler that \<open>main.cpp\<close> gives it, put together. The loop dispatches the signal
  service when its descriptor is readable; the dispatch reads the waiting signals and calls the
  handler of SIGINT; the handler asks the loop to stop; the loop reads the flag.
\<close>

section \<open>The parts together\<close>

text \<open>Whether a dispatch of the signal service reaches the handler of SIGINT.\<close>

definition interrupts :: "nat \<Rightarrow> host_world \<Rightarrow> signal_service \<Rightarrow> bool" where
  "interrupts fuel hw svc = (case dispatch_signal fuel svc hw [] of
       (Ret _, new) \<Rightarrow> SIGINT_no \<in> set (handled new)
     | _ \<Rightarrow> False)"

fun is_dispatch_of :: "nat \<Rightarrow> ctx_call \<Rightarrow> bool" where
  "is_dispatch_of i (DispatchFd s d) = (s = i)"
| "is_dispatch_of i _ = False"

definition dispatched :: "nat \<Rightarrow> ctx_call list \<Rightarrow> bool" where
  "dispatched i t = list_ex (is_dispatch_of i) t"

text \<open>
  The handler is \<open>request_stop\<close>: after a dispatch of service \<open>i\<close> that reached it, the flag is set.
\<close>

definition with_signals :: "nat \<Rightarrow> host_world \<Rightarrow> signal_service \<Rightarrow> nat \<Rightarrow> ctx_world \<Rightarrow> ctx_world" where
  "with_signals fuel hw svc i w = w\<lparr>w_stop := \<lambda>t. w_stop w t \<or> dispatched i t \<and> interrupts fuel hw svc\<rparr>"

text \<open>What the services register, the signal service as \<open>signal_on_init\<close> does.\<close>

definition registers :: "(nat \<Rightarrow> (register_type \<times> nat) list) \<Rightarrow> ctx_world \<Rightarrow> bool" where
  "registers regs w \<longleftrightarrow> (\<forall>t i. fst (w_init w (t @ [InitSvc i])) = regs i)"

definition signal_registration :: "signal_service \<Rightarrow> nat \<Rightarrow> (register_type \<times> nat) list" where
  "signal_registration svc d = signal_on_init (\<lambda>fd rs. (OnFd fd, d) # rs) svc []"

text \<open>From the \<open>k\<close>-th sleep on, the kernel reports the descriptor as readable.\<close>

definition polls :: "ctx_call list \<Rightarrow> nat" where
  "polls t = length (filter (\<lambda>c. case c of PPoll fds s ns \<Rightarrow> True | _ \<Rightarrow> False) t)"

definition readable_from :: "nat \<Rightarrow> int \<Rightarrow> ctx_world \<Rightarrow> bool" where
  "readable_from k fd w \<longleftrightarrow> (\<forall>t. k \<le> polls t \<longrightarrow> 0 < fst (w_ppoll w t) \<and> fd \<in> set (snd (w_ppoll w t)))"

lemma polls_append [simp]: "polls (t @ t') = polls t + polls t'"
  and dispatched_append [simp]: "dispatched i (t @ t') \<longleftrightarrow> dispatched i t \<or> dispatched i t'"
  by (simp_all add: polls_def dispatched_def)

lemma polls_simps [simp]: "polls [] = 0" "polls (PPoll fds s ns # t) = Suc (polls t)" "polls (StopFlag # t) = polls t"
    "polls (ReadClock # t) = polls t"
  and dispatched_simps [simp]: "\<not> dispatched i []" "dispatched i (DispatchFd j d # t) \<longleftrightarrow> i = j \<or> dispatched i t"
    "dispatched i (ReadClock # t) = dispatched i t" "dispatched i (StopFlag # t) = dispatched i t" "dispatched i (PPoll fds s ns # t) = dispatched i t"
  by (auto simp: polls_def dispatched_def)

lemma quiet_with_signals [simp]: "quiet ft (with_signals fuel hw svc i w) \<longleftrightarrow> quiet ft w"
  and readable_with_signals [simp]: "readable_from k fd (with_signals fuel hw svc i w) \<longleftrightarrow> readable_from k fd w"
  and registers_with_signals [simp]: "registers regs (with_signals fuel hw svc i w) \<longleftrightarrow> registers regs w"
  and eventfd_with_signals [simp]: "w_eventfd (with_signals fuel hw svc i w) = w_eventfd w"
  and lock_with_signals [simp]: "w_lock (with_signals fuel hw svc i w) = w_lock w"
  by (simp_all add: quiet_def readable_from_def registers_def with_signals_def)

lemma returns_unitD: "returns w p \<Longrightarrow> \<exists>es. p w t = (Ret (), t @ es)"
  unfolding returns_def by (metis (full_types) old.unit.exhaust)

section \<open>An iteration that finds the descriptor readable\<close>

lemma handle_events_dispatch:
  assumes "quiet ft w" "fd \<noteq> efd" "map_of notes fd = Some r" "fd \<in> set readable" "fd \<in> set fds"
  shows "\<exists>es. for_each (handle_event efd notes readable) fds w t = (Ret (), t @ es) \<and> dispatched (r_svc r) es"
  using assms(5)
proof (induction fds arbitrary: t)
  case (Cons x fds)
  obtain es where es: "handle_event efd notes readable x w t = (Ret (), t @ es)"
    using returns_unitD [OF handle_event_returns [OF assms(1)]] by blast
  obtain es' where rest: "for_each (handle_event efd notes readable) fds w (t @ es) = (Ret (), (t @ es) @ es')"
    using returns_unitD [OF returns_for_each [where f = "handle_event efd notes readable",
      OF handle_event_returns [OF assms(1)]]] by blast
  show ?case
  proof (cases "x = fd")
    case True
    have "w_dispatch w (t @ [DispatchFd (r_svc r) (r_dispatch r)]) = None" using assms(1) by (simp add: quiet_def)
    then have "es = [DispatchFd (r_svc r) (r_dispatch r)]"
      using es True assms(2-4) by (simp add: handle_event_def dispatch_call_def bindp_call_run ret_run)
    with es rest show ?thesis by (auto simp: bindp_run_simps(1))
  next
    case False
    with Cons.prems have "fd \<in> set fds" by simp
    from Cons.IH [OF this, of "t @ es"] es show ?thesis by (auto simp: bindp_run_simps(1))
  qed
qed simp

lemma loop_body_dispatches:
  assumes "quiet ft w" "fd \<noteq> efd" "map_of notes fd = Some r" "readable_from k fd w"
  shows "\<exists>ts' fs es. loop_body ft efd notes ts start w t = (Ret (ts', fs), t @ es) \<and> 1 \<le> polls es \<and>
    (k \<le> polls t + 1 \<longrightarrow> dispatched (r_svc r) es)"
proof -
  let ?t1 = "t @ [ReadClock]" and ?fds = "efd # map fst notes"
  obtain ts' n e1 where tick: "tick_timers ts (w_clock w ?t1 - start) ft w ?t1 = (Ret (ts', n), ?t1 @ e1)"
    using returnsD [OF tick_returns [OF assms(1)]] unfolding tick_timers_def by (metis prod.collapse)
  let ?p = "PPoll ?fds (fst (from_nanoseconds n)) (snd (from_nanoseconds n))"
  let ?t2 = "(?t1 @ e1) @ [?p]"
  obtain res rd where poll: "w_ppoll w ?t2 = (res, rd)" by (cases "w_ppoll w ?t2")
  have nonneg: "\<not> res < 0" using quietD(2) [OF assms(1) poll] .
  have fds: "fd \<in> set ?fds" using map_of_SomeD [OF assms(3)] by force
  have "\<exists>e2. (if 0 < res then for_each (handle_event efd notes rd) ?fds else ret ()) w ?t2 = (Ret (), ?t2 @ e2) \<and>
      (k \<le> polls t + 1 \<longrightarrow> dispatched (r_svc r) e2)"
  proof (cases "k \<le> polls t + 1")
    case True
    then have "k \<le> polls ?t2" by simp
    with assms(4) have "0 < res" "fd \<in> set rd" unfolding readable_from_def using poll by (metis fst_conv, metis snd_conv)
    with handle_events_dispatch [OF assms(1-3) this(2) fds, of ?t2] show ?thesis by (auto simp del: for_each.simps)
  next
    case False
    have "returns w (if 0 < res then for_each (handle_event efd notes rd) ?fds else ret ())"
      by (simp del: for_each.simps add: returns_ret returns_for_each handle_event_returns [OF assms(1)])
    from returns_unitD [OF this, of ?t2] False show ?thesis by (auto simp del: for_each.simps)
  qed
  then obtain e2 where e2: "(if 0 < res then for_each (handle_event efd notes rd) ?fds else ret ()) w ?t2 = (Ret (), ?t2 @ e2)"
    "k \<le> polls t + 1 \<longrightarrow> dispatched (r_svc r) e2" by blast
  have "loop_body ft efd notes ts start w t = (Ret (ts', w_clock w ?t1), ?t2 @ e2)"
    unfolding loop_body_def
    by (simp add: bindp_call_run poll nonneg bindp_ret_run ret_run
        bindp_run_simps(1) [where p = "tick_timers ts (w_clock w ?t1 - start) ft", OF tick]
        bindp_run_simps(1) [where p = "if 0 < res then for_each (handle_event efd notes rd) ?fds else ret ()", OF e2(1)]
        del: for_each.simps append_assoc)
  with e2(2) show ?thesis by (intro exI [of _ ts'] exI [of _ "w_clock w ?t1"] exI [of _ "ReadClock # e1 @ [?p] @ e2"]) auto
qed

section \<open>The run\<close>

lemma run_loop_interrupted:
  assumes q: "quiet ft w" and fd: "fd \<noteq> efd" "map_of notes fd = Some r" "r_svc r = i" "readable_from k fd w"
    and stop: "\<And>t. dispatched i t \<Longrightarrow> w_stop w t"
  shows "(0 < fuel \<and> dispatched i t) \<or> (2 \<le> fuel \<and> k + 2 \<le> polls t + fuel) \<Longrightarrow>
    \<exists>es. run_loop fuel ft efd notes ts start w t = (Ret (), t @ es)"
proof (induction fuel arbitrary: t ts start)
  case (Suc fuel)
  let ?t = "t @ [StopFlag]"
  show ?case
  proof (cases "w_stop w ?t")
    case True
    then show ?thesis by (simp add: bindp_call_run ret_run)
  next
    case False
    with stop [of ?t] Suc.prems have more: "1 \<le> fuel" "k + 2 \<le> polls t + Suc fuel" by auto
    obtain ts' fs es where lb: "loop_body ft efd notes ts start w ?t = (Ret (ts', fs), ?t @ es)"
      "1 \<le> polls es" "k \<le> polls ?t + 1 \<longrightarrow> dispatched i es"
      using loop_body_dispatches [OF q fd(1,2,4), of ts start ?t] fd(3) by auto
    have "\<exists>es'. run_loop fuel ft efd notes ts' fs w (?t @ es) = (Ret (), (?t @ es) @ es')"
      by (rule Suc.IH) (use lb(2,3) more in auto)
    then show ?thesis
      using False by (auto simp: bindp_call_run bindp_run_simps(1) [of "loop_body ft efd notes ts start", OF lb(1)])
  qed
qed simp

text \<open>The registrations: the descriptor of the signal service belongs to it alone.\<close>

definition owned_by :: "nat \<Rightarrow> int \<Rightarrow> nat set \<Rightarrow> reg_state \<Rightarrow> bool" where
  "owned_by i fd seen st \<longleftrightarrow> (case map_of (notifications st) fd of None \<Rightarrow> i \<notin> seen | Some r \<Rightarrow> r_svc r = i)"

lemma register_owned:
  assumes "register_readiness j ft val d st = Some st'" "j \<noteq> i \<longrightarrow> val \<noteq> OnFd fd" "owned_by i fd seen st"
  shows "owned_by i fd seen st'"
  using assms by (auto simp: register_readiness_def owned_by_def emplace_map_of bind_eq_Some_conv
      split: register_type.splits option.splits if_splits)

lemma register_all_owned:
  "register_all j ft rs st = Some st' \<Longrightarrow> j \<noteq> i \<longrightarrow> OnFd fd \<notin> fst ` set rs \<Longrightarrow> owned_by i fd seen st \<Longrightarrow>
   owned_by i fd seen st'"
proof (induction rs arbitrary: st)
  case (Cons r rs)
  obtain val d where r: "r = (val, d)" by (cases r)
  with Cons.prems(1) obtain st1 where
    st1: "register_readiness j ft val d st = Some st1" "register_all j ft rs st1 = Some st'"
    by (auto simp: bind_eq_Some_conv)
  show ?case by (rule Cons.IH [OF st1(2)]) (use Cons.prems(2,3) r register_owned [OF st1(1)] in auto)
qed simp

lemma register_own:
  "register_all i ft [(OnFd fd, d)] st = Some st' \<Longrightarrow> owned_by i fd seen st \<Longrightarrow> owned_by i fd (insert i seen) st'"
  by (auto simp: register_readiness_def owned_by_def emplace_map_of split: option.splits)

lemma init_services_owned:
  assumes q: "quiet ft w" and regs: "registers regs w" "regs i = [(OnFd fd, d)]"
    and own: "\<And>j. j \<in> set ids \<Longrightarrow> j \<noteq> i \<Longrightarrow> OnFd fd \<notin> fst ` set (regs j)"
  shows "owned_by i fd seen st \<Longrightarrow> \<exists>st' es. init_services ft ini ids st w t = (Ret st', t @ es) \<and>
    owned_by i fd (seen \<union> set ids) st' \<and> polls es = 0"
  using own
proof (induction ids arbitrary: ini st t seen)
  case Nil
  then show ?case by (simp add: ret_run)
next
  case (Cons j ids)
  let ?t = "t @ [InitSvc j]"
  have w: "w_init w ?t = (regs j, None)"
    using regs(1) quietD(5) [OF q] unfolding registers_def by (metis prod.collapse)
  obtain st1 where st1: "register_all j ft (regs j) st = Some st1" using quietD(6) [OF q w] by blast
  have "owned_by i fd (insert j seen) st1"
  proof (cases "j = i")
    case True
    with register_own [of i ft fd d st st1 seen] st1 regs(2) Cons.prems(1) show ?thesis by simp
  next
    case False
    with register_all_owned [OF st1, of i fd seen] Cons.prems have "owned_by i fd seen st1" by simp
    with False show ?thesis by (auto simp: owned_by_def split: option.splits)
  qed
  from Cons.IH [OF this, of "ini @ [j]" ?t] Cons.prems(2) obtain st' es where
    "init_services ft (ini @ [j]) ids st1 w ?t = (Ret st', ?t @ es)" "owned_by i fd (insert j seen \<union> set ids) st'"
    "polls es = 0" by auto
  then show ?case
    by (simp add: bindp_call_run w st1) (simp add: polls_def insert_commute Un_insert_right)
qed

section \<open>Properties\<close>

text \<open>
  (C7) SIGINT stops the recording. Let the signal service be one of the services of a loop on which no
  call fails, alone on its descriptor, with a handler for SIGINT, and let SIGINT be among the signals
  waiting. If the kernel reports the descriptor as readable from the \<open>k\<close>-th sleep on, the run of the
  loop returns, after at most \<open>k + 1\<close> iterations, whatever else the services do and whenever the
  timers are due.
\<close>

theorem interrupt_stops_the_run:
  assumes "quiet ft w" "registers regs w" "regs i = signal_registration svc d" "i \<in> set ids"
    and "\<And>j. j \<in> set ids \<Longrightarrow> j \<noteq> i \<Longrightarrow> OnFd (notify_fd svc) \<notin> fst ` set (regs j)"
    and "\<And>t. w_eventfd w t \<noteq> notify_fd svc" and "readable_from k (notify_fd svc) w"
    and "signal_queue sigs hw" "length sigs < n" "SIGINT_no \<in> set sigs" "SIGINT_no \<in> set (handlers svc)"
  shows "\<exists>es. context_run (k + 2) ft ids (with_signals n hw svc i w) t = (Ret (), t @ es)"
proof -
  let ?w = "with_signals n hw svc i w" and ?fd = "notify_fd svc"
  obtain new where "dispatch_signal n svc hw [] = (Ret (), new)"
    "handled new = filter (\<lambda>s. s \<in> set (handlers svc)) sigs"
    using signals_read [OF assms(8,9)] by blast
  then have "interrupts n hw svc" using assms(10,11) by (simp add: interrupts_def)
  then have stop: "w_stop ?w t" if "dispatched i t" for t using that by (simp add: with_signals_def)
  have q: "quiet ft ?w" using assms(1) by simp
  have init: "\<exists>st es. init_services ft [] ids \<lparr>notifications = [], timers = []\<rparr> ?w t = (Ret st, t @ es) \<and>
      owned_by i ?fd (set ids) st" for t
    using init_services_owned [OF q, of regs i ?fd d ids "{}" "\<lparr>notifications = [], timers = []\<rparr>" "[]" t] assms(2,3,5)
    by (auto simp: owned_by_def signal_registration_def signal_on_init_def)
  have run: "returns ?w (run_initialized (k + 2) ft efd st)" if own: "owned_by i ?fd (set ids) st" and ne: "efd \<noteq> ?fd" for efd st
  proof -
    obtain r where r: "map_of (notifications st) ?fd = Some r" "r_svc r = i"
      using own assms(4) by (cases "map_of (notifications st) ?fd") (auto simp: owned_by_def)
    have "returns ?w (run_loop (k + 2) ft efd (notifications st) (timers st) start)" for start
      unfolding returns_def
      using run_loop_interrupted [OF q _ r, of efd k "k + 2"] ne assms(7) stop by auto
    then show ?thesis unfolding run_initialized_def
      by (auto intro!: returns_bindp returns_call returns_ret returns_emit simp del: run_loop.simps)
  qed
  have "returns ?w (bindp (init_services ft [] ids \<lparr>notifications = [], timers = []\<rparr>) (\<lambda>st.
      guarded (uninit_all ids) (run_initialized (k + 2) ft efd st)))" if "efd \<noteq> ?fd" for efd
    unfolding returns_def
  proof
    fix t
    obtain st es where st: "init_services ft [] ids \<lparr>notifications = [], timers = []\<rparr> ?w t = (Ret st, t @ es)"
      "owned_by i ?fd (set ids) st" using init by blast
    have "returns ?w (guarded (uninit_all ids) (run_initialized (k + 2) ft efd st))"
      by (intro returns_guarded run st(2) that) (simp add: uninit_all_def returns_for_each returns_emit)
    from returnsD [OF this, of "t @ es"] show "\<exists>x es. bindp (init_services ft [] ids \<lparr>notifications = [], timers = []\<rparr>)
        (\<lambda>st. guarded (uninit_all ids) (run_initialized (k + 2) ft efd st)) ?w t = (Ret x, t @ es)"
      by (auto simp: bindp_run_simps(1) [where p = "init_services ft [] ids \<lparr>notifications = [], timers = []\<rparr>", OF st(1)])
  qed
  then have "returns ?w (context_run (k + 2) ft ids)"
    unfolding context_run_def using quietD [OF q] assms(6)
    by (auto intro!: returns_call_bindp returns_guarded returns_emit)
  from returns_unitD [OF this] show ?thesis .
qed

text \<open>Two services, of which the second is the signal service; the third sleep finds it readable.\<close>

definition demo_loop :: ctx_world where
  "demo_loop = \<lparr>w_eventfd = (\<lambda>_. 3), w_lock = (\<lambda>_. True),
     w_init = (\<lambda>t. (if last t = InitSvc 2 then [(OnFd 5, 0)] else [(OnFd 7, 1)], None)),
     w_clock = (\<lambda>t. of_nat (length t)), w_ppoll = (\<lambda>t. if 3 \<le> polls t then (1, [5]) else (0, [])),
     w_read = (\<lambda>_. 8), w_dispatch = (\<lambda>_. None), w_stop = (\<lambda>_. False), w_errno = (\<lambda>_. 0)\<rparr>"

theorem interrupt_stops_the_run_witness:
  "\<exists>es. context_run 5 16666666 [1, 2] (with_signals 4 demo_signals \<lparr>notify_fd = 5, handlers = [2]\<rparr> 2 demo_loop) [] =
     (Ret (), es)"
proof -
  let ?regs = "\<lambda>i. if i = 2 then [(OnFd 5, 0)] else [(OnFd 7, 1)] :: (register_type \<times> nat) list"
  have q: "quiet 16666666 demo_loop" by (simp add: quiet_def demo_loop_def register_readiness_def)
  have r: "registers ?regs demo_loop" by (simp add: registers_def demo_loop_def)
  have sigs: "signal_queue [2, 17, 2] demo_signals"
    by (simp add: signal_queue_def demo_signals_def sizeof_siginfo_def)
  from interrupt_stops_the_run [OF q r, of 2 "\<lparr>notify_fd = 5, handlers = [2]\<rparr>" 0 "[1, 2]" 3 "[2, 17, 2]"
      demo_signals 4 "[]"] sigs
  show ?thesis by (simp add: signal_registration_def signal_on_init_def demo_loop_def readable_from_def
      SIGINT_no_def numeral_eq_Suc)
qed

end
