(* ===== verification/Pipeline.thy ===== *)
theory Pipeline
  imports Video
begin

text \<open>
  The writers and the encoder service together: any sequence of pictures written by either capture
  path, of end markers, and of dispatches of the encoder service, and then the end of the service.
  The items of the pool are followed through it: \<open>ResetItem\<close> is the last step of the pool's \<open>get\<close>,
  \<open>ReturnItem\<close> its \<open>put\<close>.
\<close>

section \<open>The operations\<close>

datatype encoder_op = WritePointer nat | WriteArray nat | Flush nat nat | Dispatch

text \<open>
  An exception ends the loop of one thread, and with it the operation; the queue stays, and the
  other threads go on.
\<close>

definition attempt :: "'s \<Rightarrow> 's video_prog \<Rightarrow> 's video_prog" where
  "attempt st p = catching p (\<lambda>e. Some (ret st))"

fun encoder_step :: "frame_writer \<Rightarrow> nat \<Rightarrow> encoder_op \<Rightarrow> writer_state \<Rightarrow> writer_state video_prog" where
  "encoder_step wr fuel (WritePointer p) st = attempt st (video_frame_writer wr p st)"
| "encoder_step wr fuel (WriteArray a) st = attempt st (drm_video_frame_writer wr a st)"
| "encoder_step wr fuel (Flush codec stream) (n, pending) = attempt (n, pending)
     (bindp (enc (flush (fw_notify_fd wr) codec stream (pool_item (fw_frames wr)) pending)) (\<lambda>pending'.
      ret (n, pending')))"
| "encoder_step wr fuel Dispatch (n, pending) = attempt (n, [])
     (thenp (enc (enc_dispatch fuel (fw_notify_fd wr) pending)) (ret (n, [])))"

text \<open>The steps of the service while it runs, and its end.\<close>

definition encoder_life :: "frame_writer \<Rightarrow> nat \<Rightarrow> encoder_op list \<Rightarrow> unit video_prog" where
  "encoder_life wr fuel ops =
     bindp (write_all (encoder_step wr fuel) ops (0, [])) (\<lambda>(n, pending).
     enc (enc_on_uninit fuel (fw_notify_fd wr) pending))"

section \<open>The items\<close>

fun item_delta :: "(enc_world, enc_call, nat) delta" where
  "item_delta w t (ResetItem i) = acquire True i"
| "item_delta w t (ReturnItem i) = release i"
| "item_delta w t _ = Some"

fun pool_delta :: "(video_world, video_call, nat) delta" where
  "pool_delta w t (EncCall (ResetItem i)) = acquire True i"
| "pool_delta w t (EncCall (ReturnItem i)) = release i"
| "pool_delta w t _ = Some"

lemma pool_item_delta: "pool_delta w t (EncCall c) H = item_delta v s c H"
  by (cases c) simp_all

lemma scoped_enc: "scoped item_delta R p G \<Longrightarrow> scoped pool_delta R (enc p) G"
  unfolding enc_def by (rule scoped_inside [where d' = item_delta]) (auto simp: pool_item_delta)

lemma gains_enc: "gains item_delta p G \<Longrightarrow> gains pool_delta (enc p) G"
  using scoped_enc [of "{#}"] by (simp add: scoped_nothing)

abbreviation items :: "stream_poll list \<Rightarrow> nat multiset" where
  "items its \<equiv> image_mset sp_id (mset its)"

lemma locked_gains:
  assumes "gains item_delta p G" shows "gains item_delta (locked p) G"
proof -
  have "guarded (emit EUnlock) p = guarded (emit EUnlock) p" ..
  have "scoped item_delta {#} (guarded (emit EUnlock) p) G"
    by (rule scoped_guarded_all [OF assms]) (auto intro: held_by_emit)
  then show ?thesis unfolding locked_def bindp_emit scoped_nothing by (intro gains_call_bindp) auto
qed

lemma prepare_frame_gains:
  "gains item_delta (prepare_frame codec stream (pool_item frames)) (\<lambda>r L. case r of
     Ret it \<Rightarrow> L = {#sp_id it#} | Exc e \<Rightarrow> L = {#} | Abort \<Rightarrow> True)"
proof -
  have "gains item_delta (bindp (call ew_frame_alloc (ResetItem i)) (\<lambda>f.
      ret ((stream_poll_reset f (pool_item frames i))\<lparr>sp_ctx := codec, sp_stream := stream\<rparr>))) (\<lambda>r L. case r of
     Ret it \<Rightarrow> L = {#sp_id it#} | Exc e \<Rightarrow> L = {#} | Abort \<Rightarrow> True)" for i
    by (rule gains_acquire [where b = "\<lambda>_. True" and r = "\<lambda>_. i"])
      (auto simp: stream_poll_reset_def pool_item_def intro!: scoped_ret)
  then show ?thesis
    unfolding prepare_frame_def
    by (intro gains_call_bindp) (auto intro!: gains_throw split: sum.split)
qed

lemma write_frame_gains:
  "gains item_delta (write_frame fd it pending) (\<lambda>r L. L = {#} \<and> r = Ret (pending @ [it]))"
proof -
  have l: "gains item_delta (locked (bindp (call ew_send (SendFrame (sp_ctx it) (sp_frame it))) (\<lambda>_.
      thenp (emit (PushPending (sp_id it))) (ret (pending @ [it]))))) (\<lambda>r L. L = {#} \<and> r = Ret (pending @ [it]))"
    unfolding bindp_emit by (intro locked_gains gains_call_bindp gains_ret) auto
  show ?thesis unfolding write_frame_def
    by (rule gains_bindp [OF l]) (auto simp: bindp_emit intro!: gains_call_bindp gains_ret)
qed

lemma drain_neutral: "neutral item_delta (drain fuel it)"
proof (induction fuel)
  case (Suc fuel)
  have l: "neutral item_delta (locked (call ew_receive (ReceivePacket (sp_ctx it))))"
    using gains_call_bindp [of item_delta "ReceivePacket (sp_ctx it)" ret] by (intro locked_gains)
      (auto simp: gains_def intro!: held_by_call)
  show ?case unfolding drain.simps throw_write_error_def bindp_emit
    by (rule neutral_bindp [OF l]) (auto intro!: gains_call_bindp gains_ret gains_throw Suc.IH)
qed (simp add: gains_terminate)

lemma return_items_releases:
  "scoped item_delta (items its) (for_each (\<lambda>it. emit (ReturnItem (sp_id it))) its) (\<lambda>r L. r = Ret () \<longrightarrow> L = {#})"
proof (induction its)
  case (Cons it its)
  then show ?case by (auto intro!: scoped_release [where r = "sp_id it"])
qed (simp add: scoped_ret)

lemma enc_dispatch_scoped: "scoped item_delta (items pending) (enc_dispatch fuel fd pending) (\<lambda>r L. L = {#})"
proof -
  have "gains item_delta (emit Splice) (\<lambda>r L. r = Ret () \<and> L = {#})"
    by (auto simp: gains_def intro!: held_by_emit)
  then have splice: "scoped item_delta (items pending) (locked (emit Splice)) (\<lambda>r L. r = Ret () \<and> L = items pending)"
    by (intro scoped_keep gains_weaken [OF locked_gains]) auto
  have "scoped item_delta (items pending) (guarded (for_each (\<lambda>it. emit (ReturnItem (sp_id it))) pending)
      (for_each (drain fuel) pending)) (\<lambda>r L. L = {#})"
    by (rule scoped_cleanup [OF neutral_for_each [OF drain_neutral] return_items_releases])
  then show ?thesis unfolding enc_dispatch_def
    by (intro scoped_neutral_emit scoped_seq [OF splice]) auto
qed

lemma enc_on_uninit_scoped: "scoped item_delta (items pending) (enc_on_uninit fuel fd pending) (\<lambda>r L. L = {#})"
proof -
  have clear: "neutral item_delta (emit PoolClear)" by (rule gains_emit) simp
  have "scoped item_delta (items pending) (thenp (enc_dispatch fuel fd pending) (emit PoolClear)) (\<lambda>r L. L = {#})"
    by (rule scoped_neutral_bindp [OF enc_dispatch_scoped clear]) simp
  then have "scoped item_delta (items pending) (catching (thenp (enc_dispatch fuel fd pending) (emit PoolClear))
      (\<lambda>e. Some (ret ()))) (\<lambda>r L. L = {#})"
    by (rule scoped_catching) (auto intro: scoped_ret)
  then show ?thesis unfolding enc_on_uninit_def
    by (intro scoped_noexcept scoped_neutral_emit) auto
qed

section \<open>Every operation keeps what is queued\<close>

text \<open>The items held are the ones queued, before and after; an exception leaves the writer without its item.\<close>

definition queue_held :: "writer_state outcome \<Rightarrow> nat multiset \<Rightarrow> bool" where
  "queue_held r L = (case r of Ret (n, pending) \<Rightarrow> L = items pending | Exc e \<Rightarrow> False | Abort \<Rightarrow> True)"

definition queue_held_or :: "nat multiset \<Rightarrow> writer_state outcome \<Rightarrow> nat multiset \<Rightarrow> bool" where
  "queue_held_or R r L = (case r of Exc e \<Rightarrow> L = R | _ \<Rightarrow> queue_held r L)"

lemma queue_held_simps [simp]: "queue_held (Ret (n, pending)) L = (L = items pending)" "\<not> queue_held (Exc e) L"
  "queue_held_or R (Ret st) L = queue_held (Ret st) L" "queue_held_or R (Exc e) L = (L = R)"
  by (auto simp: queue_held_def queue_held_or_def)

lemma attempt_scoped:
  assumes "scoped pool_delta R p (queue_held_or R')" "R' = items pending"
  shows "scoped pool_delta R (attempt (n, pending) p) queue_held"
  unfolding attempt_def
  by (rule scoped_catching [OF assms(1)]) (auto simp: assms(2) intro!: scoped_ret)

lemma fill_neutral: "neutral pool_delta (fill_pointer_frame cp ptr frame n)" "neutral pool_delta (fill_array_frame cp arr frame n)"
  unfolding fill_pointer_frame_def fill_array_frame_def throw_copy_failed_def sc_expect_def contract_check_failed_def
  by (auto intro!: gains_call_bindp gains_emit gains_throw gains_terminate neutral_bindp [OF gains_terminate] simp: bindp_ret_left split: prod.split)

definition item_kept :: "nat \<Rightarrow> unit outcome \<Rightarrow> nat multiset \<Rightarrow> bool" where
  "item_kept i r L = (case r of Ret _ \<Rightarrow> L = {#i#} | _ \<Rightarrow> L = {#})"

lemma write_next_scoped:
  assumes fill: "\<And>frame n. neutral pool_delta (fill frame n)"
  shows "scoped pool_delta (items pending) (write_next wr fill (n, pending)) (queue_held_or (items pending))"
  unfolding write_next_def prod.case
proof (rule scoped_keep, rule gains_bindp_release [where R = "\<lambda>it. {#sp_id it#}"])
  show "gains pool_delta (enc (prepare_frame (cp_ptr (fw_codec wr)) (fw_stream wr) (pool_item (fw_frames wr))))
      (\<lambda>r L. case r of Ret it \<Rightarrow> L = {#sp_id it#}
        | Exc e \<Rightarrow> queue_held_or (items pending) (Exc e) (items pending + L) | Abort \<Rightarrow> True)"
    by (rule gains_weaken [OF gains_enc [OF prepare_frame_gains]]) (auto split: outcome.splits)
next
  fix it :: stream_poll
  have body: "neutral pool_delta (case sp_frame it of None \<Rightarrow> terminate | Some frame \<Rightarrow> fill frame n)"
    by (auto intro: fill gains_terminate split: option.split)
  have fill: "scoped pool_delta {#sp_id it#} (guarded_unless_ret (emit (EncCall (ReturnItem (sp_id it))))
      (case sp_frame it of None \<Rightarrow> terminate | Some frame \<Rightarrow> fill frame n)) (item_kept (sp_id it))"
    by (rule scoped_returned, rule gains_weaken [OF body]) (auto simp: item_kept_def split: outcome.split)
  have queued: "scoped pool_delta {#sp_id it#} (bindp (enc (write_frame (fw_notify_fd wr) it pending))
      (\<lambda>pending'. ret (n + 1, pending'))) (\<lambda>r L. queue_held_or (items pending) r (items pending + L))"
  proof (rule scoped_seq)
    show "scoped pool_delta {#sp_id it#} (enc (write_frame (fw_notify_fd wr) it pending))
        (\<lambda>r L. r = Ret (pending @ [it]) \<and> L = {#sp_id it#})"
      by (rule scoped_keep, rule gains_weaken [OF gains_enc [OF write_frame_gains]]) auto
  qed (auto intro: scoped_ret)
  show "scoped pool_delta {#sp_id it#} (thenp (guarded_unless_ret (emit (EncCall (ReturnItem (sp_id it))))
      (case sp_frame it of None \<Rightarrow> terminate | Some frame \<Rightarrow> fill frame n))
      (bindp (enc (write_frame (fw_notify_fd wr) it pending)) (\<lambda>pending'. ret (n + 1, pending'))))
      (\<lambda>r L. queue_held_or (items pending) r (items pending + L))"
    by (rule scoped_seq [OF fill]) (use queued in \<open>auto simp: item_kept_def\<close>)
qed

lemma flush_scoped:
  "scoped pool_delta (items pending) (bindp (enc (flush fd codec stream (pool_item frames) pending)) (\<lambda>pending'.
      ret (n, pending'))) (queue_held_or (items pending))"
proof -
  have "gains item_delta (flush fd codec stream (pool_item frames) pending)
    (\<lambda>r L. case r of Ret pending' \<Rightarrow> items pending' = items pending + L | Exc e \<Rightarrow> L = {#} | Abort \<Rightarrow> True)"
    unfolding flush_def
  proof (rule gains_bindp_release [where R = "\<lambda>it. {#sp_id it#}"])
    show "gains item_delta (prepare_frame codec stream (pool_item frames)) (\<lambda>r L. case r of Ret it \<Rightarrow> L = {#sp_id it#}
        | Exc e \<Rightarrow> (case Exc e :: stream_poll list outcome of Ret pending' \<Rightarrow> items pending' = items pending + L
            | Exc e \<Rightarrow> L = {#} | Abort \<Rightarrow> True) | Abort \<Rightarrow> True)"
      by (rule gains_weaken [OF prepare_frame_gains]) (auto split: outcome.splits)
    show "scoped item_delta {#sp_id it#} (write_frame fd (it\<lparr>sp_frame := None\<rparr>) pending)
        (\<lambda>r L. case r of Ret pending' \<Rightarrow> items pending' = items pending + L | Exc e \<Rightarrow> L = {#} | Abort \<Rightarrow> True)" for it
      by (rule scoped_keep, rule gains_weaken [OF write_frame_gains]) auto
  qed
  then have "scoped pool_delta (items pending) (enc (flush fd codec stream (pool_item frames) pending))
    (\<lambda>r L. case r of Ret p \<Rightarrow> L = items p | Exc e \<Rightarrow> L = items pending | Abort \<Rightarrow> True)"
    by (intro scoped_keep, elim gains_enc [THEN gains_weaken]) (simp split: outcome.splits)
  then show ?thesis by (rule scoped_seq) (auto intro: scoped_ret)
qed

lemma drm_write_scoped:
  assumes "\<And>frame n. neutral pool_delta (fill frame n)"
  shows "scoped pool_delta (items pending) (thenp (sc_expect b) (write_next wr fill (n, pending)))
    (queue_held_or (items pending))"
proof (cases b)
  case False
  then have "thenp (sc_expect b) (write_next wr fill (n, pending)) = terminate"
    by (intro ext) (simp add: sc_expect_def contract_check_failed_def bindp_run prog_run)
  then show ?thesis by (simp add: scoped_terminate)
qed (simp add: sc_expect_def bindp_ret_left write_next_scoped assms)

lemma encoder_step_scoped: "scoped pool_delta (items (snd st)) (encoder_step wr fuel op st) queue_held"
proof (cases st, cases op)
  fix n pending p assume "st = (n, pending)" "op = WritePointer p"
  then show ?thesis
    by (auto simp: video_frame_writer_def intro!: attempt_scoped write_next_scoped fill_neutral)
next
  fix n pending a assume "st = (n, pending)" "op = WriteArray a"
  then show ?thesis
    by (auto simp: drm_video_frame_writer_def intro!: attempt_scoped drm_write_scoped fill_neutral)
next
  fix n pending codec stream assume "st = (n, pending)" "op = Flush codec stream"
  then show ?thesis by (auto intro!: attempt_scoped flush_scoped)
next
  fix n pending assume st: "st = (n, pending)" "op = Dispatch"
  have "scoped pool_delta (items pending) (thenp (enc (enc_dispatch fuel (fw_notify_fd wr) pending)) (ret (n, [])))
      (queue_held_or (items []))"
    by (rule scoped_neutral_bindp [OF scoped_enc [OF enc_dispatch_scoped]]) (auto intro: gains_ret)
  with st show ?thesis by (simp add: attempt_scoped)
qed

lemma write_all_scoped:
  "scoped pool_delta (items (snd st)) (write_all (encoder_step wr fuel) ops st) queue_held"
proof (induction ops arbitrary: st)
  case Nil
  then show ?case by (cases st) (auto intro: scoped_ret)
next
  case (Cons op ops)
  show ?case unfolding write_all.simps
    by (rule scoped_seq [OF encoder_step_scoped]) (use Cons.IH in \<open>auto split: prod.splits\<close>)
qed

lemma encoder_life_neutral: "neutral pool_delta (encoder_life wr fuel ops)"
  unfolding encoder_life_def scoped_nothing [symmetric]
proof (rule scoped_seq)
  show "scoped pool_delta {#} (write_all (encoder_step wr fuel) ops (0, [])) queue_held"
    using write_all_scoped [of "(0, [])"] by simp
qed (auto intro!: scoped_enc [OF enc_on_uninit_scoped] split: prod.split)

section \<open>Properties\<close>


end
