(* ===== verification/Pool_Use.thy ===== *)
theory Pool_Use
  imports Pool Pipeline
begin

text \<open>
  The encoder's events on the heap of the pool: what the encoder service and its writers do with
  items (theory Pipeline), replayed as operations of the object pool (theory Pool). Between the two
  stands the pool's contract: an item is put back only by whoever holds it.
\<close>

section \<open>The events as operations\<close>

text \<open>\<open>ResetItem\<close> is the end of a \<open>get\<close> that returns; one that throws leaves the store as it was.\<close>

fun pool_op_of :: "video_call \<Rightarrow> pool_op option" where
  "pool_op_of (EncCall (ResetItem i)) = Some Get"
| "pool_op_of (EncCall (ReturnItem i)) = Some (Put i)"
| "pool_op_of (EncCall PoolClear) = Some Clear"
| "pool_op_of _ = None"

definition pool_ops :: "video_call list \<Rightarrow> pool_op list" where
  "pool_ops es = List.map_filter pool_op_of es"

text \<open>Every \<open>get\<close> of the replay hands out the item that the history says it did.\<close>

fun given :: "video_call \<Rightarrow> addr list \<Rightarrow> addr list \<Rightarrow> bool" where
  "given (EncCall (ResetItem i)) hs hs' = (hs' = i # hs)"
| "given _ hs hs' = True"

fun answered ::
  "(pool_op \<Rightarrow> 'a store \<times> addr list \<Rightarrow> ('a store \<times> addr list) option) \<Rightarrow> video_call list
    \<Rightarrow> 'a store \<times> addr list \<Rightarrow> bool" where
  "answered step [] c = True"
| "answered step (e # es) c = (case pool_op_of e of
       None \<Rightarrow> answered step es c
     | Some x \<Rightarrow> (case step x c of
           None \<Rightarrow> True
         | Some c' \<Rightarrow> given e (snd c) (snd c') \<and> answered step es c'))"

lemma pool_ops_simps [simp]: "pool_ops [] = []"
  "pool_ops (e # es) = (case pool_op_of e of None \<Rightarrow> pool_ops es | Some x \<Rightarrow> x # pool_ops es)"
  by (auto simp: pool_ops_def map_filter_simps split: option.split)

lemma answered_clear: "answered step (es @ [EncCall PoolClear]) c = answered step es c"
  by (induction es arbitrary: c) (auto split: option.split)

section \<open>The replay\<close>

lemma pool_step_items:
  assumes "pool_step s alloc ctor reset x (st, hs) = Some (st', hs')"
  shows "x = Put i \<Longrightarrow> hs' = remove1 i hs" and "x = Clear \<Longrightarrow> hs' = hs"
  using assms by (auto split: if_splits)

lemma other_events: "pool_op_of e = None \<Longrightarrow> pool_delta w t e H = Some H"
  by (cases "(w, t, e)" rule: pool_delta.cases) auto

lemma replay_follows:
  assumes a: "alloc_ok {s} alloc"
  shows "pool_inv s c \<Longrightarrow> mset (snd c) = H \<Longrightarrow> track pool_delta w t es H = Some L \<Longrightarrow>
    answered (pool_step s alloc ctor reset) es c \<Longrightarrow>
    \<exists>c'. run_steps (pool_step s alloc ctor reset) (pool_ops es) c = Some c' \<and> pool_inv s c' \<and> mset (snd c') = L"
proof (induction es arbitrary: c t H)
  case (Cons e es)
  let ?step = "pool_step s alloc ctor reset"
  obtain H1 where H1: "pool_delta w (t @ [e]) e H = Some H1" "track pool_delta w (t @ [e]) es H1 = Some L"
    using Cons.prems(3) by (auto simp: bind_eq_Some_conv)
  show ?case
  proof (cases "pool_op_of e")
    case None
    with H1 other_events [OF None, of w "t @ [e]" H] Cons.IH [OF Cons.prems(1,2), of "t @ [e]"] Cons.prems(4)
    show ?thesis by simp
  next
    case (Some x)
    obtain st hs where c: "c = (st, hs)" by (cases c)
    have ok: "Pool.allowed x c"
      using Some H1(1) Cons.prems(2) by (cases e rule: pool_op_of.cases)
        (auto simp: c Pool.allowed_def release_def split: if_splits)
    obtain st1 hs1 where c1: "?step x (st, hs) = Some (st1, hs1)" "pool_inv s (st1, hs1)"
      using pool_step_inv [OF a Cons.prems(1) ok] unfolding c by (metis surj_pair)
    have "given e hs hs1" "answered ?step es (st1, hs1)" using Cons.prems(4) Some c1(1) by (simp_all add: c)
    moreover have "mset hs1 = H1"
      using Some H1(1) Cons.prems(2) c1(1) \<open>given e hs hs1\<close>
      by (cases e rule: pool_op_of.cases)
        (auto simp: c acquire_def release_def split: if_splits)
    ultimately show ?thesis using Cons.IH [OF c1(2) _ H1(2)] Some c1(1) by (simp add: c)
  qed
qed simp

section \<open>Properties\<close>


text \<open>An end marker, a round, a second end marker; the codec gives one packet for each.\<close>

definition demo_video :: video_world where
  "demo_video = \<lparr>vw_enc = (\<lambda>_. demo_codec\<lparr>ew_pool_get := \<lambda>_. Inr 5\<rparr>), vw_ref = (\<lambda>_. 1), vw_hw_buffer = (\<lambda>_. (0, 4, 8)),
     vw_int = (\<lambda>_. 0), vw_text = (\<lambda>_. []), vw_error = (\<lambda>_. None), vw_grab = (\<lambda>_. (0, 7))\<rparr>"

definition demo_writer :: frame_writer where
  "demo_writer = \<lparr>fw_codec = \<lparr>cp_ptr = 2, cp_pix_fmt = 0, cp_width = 4, cp_height = 2, cp_color_range = 0,
     cp_color_primaries = 0, cp_color_trc = 0, cp_colorspace = 0, cp_chroma_sample_location = 0, cp_hw_frames_ctx = 3\<rparr>,
     fw_stream = 1, fw_notify_fd = 6, fw_frames = (\<lambda>_. Some 4)\<rparr>"


end
