(* ===== verification/Tables.thy ===== *)
theory Tables
  imports Drm_Video Granting
begin

text \<open>
  The function tables of the graphics libraries, \<open>struct OpenGL\<close> (\<open>src/platform/opengl.hpp\<close>),
  \<open>struct EGL\<close> (\<open>src/platform/egl.hpp\<close>) and \<open>struct NvCuda\<close> (\<open>src/nvidia/cuda.hpp\<close>), and the
  calls that go through them while frames are captured. A table is a structure of function
  pointers: value-initialised, then filled slot by slot (theories Nvidia and Platform).
\<close>

section \<open>The slots\<close>

text \<open>In the order of the declarations.\<close>

definition opengl_slots :: "string list" where
  "opengl_slots =
     [''glCreateShader'', ''glDeleteShader'', ''glShaderSource'', ''glGetError'', ''glCompileShader'',
      ''glGetShaderInfoLog'', ''glGetShaderiv'', ''glCreateProgram'', ''glAttachShader'',
      ''glGetAttachedShaders'', ''glLinkProgram'', ''glDeleteProgram'', ''glGetProgramiv'',
      ''glGetProgramInfoLog'', ''glValidateProgram'', ''glDetachShader'', ''glGetUniformLocation'',
      ''glEnableVertexArrayAttrib'', ''glDisableVertexArrayAttrib'', ''glBindVertexArray'',
      ''glGenBuffers'', ''glDeleteBuffers'', ''glBindBuffer'', ''glBufferData'', ''glNamedBufferData'',
      ''glGenVertexArrays'', ''glDeleteVertexArrays'', ''glGenTextures'', ''glDeleteTextures'',
      ''glBindTexture'', ''glTexImage2D'', ''glTexParameterf'', ''glTexParameteri'', ''glTexParameterfv'',
      ''glTexParameteriv'', ''glTexParameterIiv'', ''glTexParameterIuiv'', ''glVertexAttribPointer'',
      ''glUseProgram'', ''glDrawArrays'', ''glFramebufferTexture'', ''glCheckFramebufferStatus'',
      ''glGenFramebuffers'', ''glDeleteFramebuffers'', ''glBindFramebuffer'', ''glDrawBuffers'',
      ''glViewport'', ''glGetTexImage'', ''glGetTexLevelParameterfv'', ''glGetTexLevelParameteriv'',
      ''glClear'', ''glClearColor'', ''glDrawElements'', ''glUniform1fv'', ''glUniform2fv'',
      ''glUniform3fv'', ''glUniform4fv'', ''glEnable'', ''glBlendFunc'', ''glEGLImageTargetTexture2DOES'']"

definition egl_slots :: "string list" where
  "egl_slots =
     [''eglCreateImage'', ''eglDestroyImage'', ''eglGetError'', ''eglSwapInterval'', ''eglGetDisplay'',
      ''eglGetPlatformDisplay'', ''eglInitialize'', ''eglTerminate'', ''eglBindAPI'', ''eglChooseConfig'',
      ''eglCreateContext'', ''eglDestroyContext'', ''eglCreateWindowSurface'', ''eglSwapBuffers'',
      ''eglDestroySurface'', ''eglQueryString'', ''eglGetProcAddress'', ''eglMakeCurrent'']"

definition cuda_slots :: "string list" where
  "cuda_slots = [''cuInit'', ''cuDeviceGetCount'', ''cuDeviceGet'', ''cuCtxCreate_v2'', ''cuCtxDestroy_v2'',
     ''cuCtxPushCurrent_v2'', ''cuCtxPopCurrent_v2'', ''cuGetErrorString'', ''cuMemsetD8_v2'', ''cuMemcpy2D_v2'',
     ''cuGraphicsEGLRegisterImage'', ''cuGraphicsGLRegisterImage'', ''cuGraphicsResourceSetMapFlags'',
     ''cuGraphicsMapResources'', ''cuGraphicsUnmapResources'', ''cuGraphicsUnregisterResource'',
     ''cuGraphicsSubResourceGetMappedArray'', ''cuArrayGetDescriptor_v2'']"

text \<open>
  What a slot holds: the null pointer of the value-initialised structure; for the extension the
  function of its default initialiser, which fails an assertion; or what was loaded.
\<close>

datatype slot = NullPointer | NotAttached | Loaded nat

definition opengl_default :: "string \<Rightarrow> slot" where
  "opengl_default name = (if name = ''glEGLImageTargetTexture2DOES'' then NotAttached else NullPointer)"

definition slot_of :: "string list \<Rightarrow> (string \<Rightarrow> slot) \<Rightarrow> (string \<times> nat) list \<Rightarrow> string \<Rightarrow> slot option" where
  "slot_of slots initial loaded name = (if name \<in> set slots
     then Some (case map_of loaded name of Some p \<Rightarrow> Loaded p | None \<Rightarrow> initial name) else None)"

datatype api = OpenGL | EGL | NvCuda

record modules =
  m_opengl :: "(string \<times> nat) list"
  m_egl :: "(string \<times> nat) list"
  m_cuda :: "(string \<times> nat) list"

fun module_slot :: "modules \<Rightarrow> api \<Rightarrow> string \<Rightarrow> slot option" where
  "module_slot m OpenGL = slot_of opengl_slots opengl_default (m_opengl m)"
| "module_slot m EGL = slot_of egl_slots (\<lambda>_. NullPointer) (m_egl m)"
| "module_slot m NvCuda = slot_of cuda_slots (\<lambda>_. NullPointer) (m_cuda m)"

text \<open>What a call through a slot does: the contract of the default fails, a null pointer is undefined.\<close>

fun call_slot :: "slot option \<Rightarrow> (nat \<Rightarrow> ('w, 'c, 'a) prog) \<Rightarrow> ('w, 'c, 'a) prog" where
  "call_slot (Some (Loaded p)) f = (if p = 0 then terminate else f p)"
| "call_slot (Some NotAttached) f = contract_check_failed"
| "call_slot _ f = terminate"

section \<open>Loading\<close>

text \<open>A pointer that the loader or the driver gave for the name.\<close>

definition resolves :: "host_world \<Rightarrow> string \<Rightarrow> nat \<Rightarrow> bool" where
  "resolves w name p \<longleftrightarrow> p \<noteq> 0 \<and> (\<exists>s c. h_ptr w (s @ [c]) = p \<and>
     ((\<exists>lib. c = Dl (DlSym lib name)) \<or> c = Egl (EglGetProcAddress name)))"

definition fills_slots :: "host_world \<Rightarrow> (string \<times> string) list \<Rightarrow> (string \<times> nat) list \<Rightarrow> bool" where
  "fills_slots w table loaded \<longleftrightarrow> fst ` set loaded = fst ` set table \<and>
     (\<forall>(s, p) \<in> set loaded. \<exists>n. (s, n) \<in> set table \<and> resolves w n p)"

lemma attach_all_fills: "attach_all lib fs w t = (Ret loaded, t') \<Longrightarrow> fills_slots w fs loaded"
proof (induction fs arbitrary: t loaded)
  case Nil
  then show ?case by (simp add: ret_run fills_slots_def)
next
  case (Cons f fs)
  obtain s n where f: "f = (s, n)" by (cases f)
  let ?t = "t @ [Dl (DlSym lib n)]"
  from Cons.prems have nz: "h_ptr w ?t \<noteq> 0"
    by (auto simp: f attach_symbol_def bindp_run prog_run split: if_splits)
  with Cons.prems obtain rest where rest: "attach_all lib fs w ?t = (Ret rest, t')" "loaded = (s, h_ptr w ?t) # rest"
    by (cases "attach_all lib fs w ?t")
      (auto simp: f attach_symbol_def bindp_run prog_run split: outcome.splits if_splits)
  have "resolves w n (h_ptr w ?t)" using nz by (auto simp: resolves_def)
  with Cons.IH [OF rest(1)] show ?case by (auto simp: f rest(2) fills_slots_def)
qed

lemma load_library_fills:
  assumes "load_library file msg table w t = (Ret loaded, t')" shows "fills_slots w table loaded"
  using assms attach_all_fills
  by (auto simp: load_library_def bindp_run prog_run split: if_splits)

lemma bindp_RetD: "bindp p f w t = (Ret y, t') \<Longrightarrow> \<exists>x u. p w t = (Ret x, u) \<and> f x w u = (Ret y, t')"
  by (cases "p w t") (auto simp: bindp_run split: outcome.splits)

lemma fills_slots_same: "set table = set table' \<Longrightarrow> fills_slots w table loaded \<longleftrightarrow> fills_slots w table' loaded"
  by (simp add: fills_slots_def)

lemma load_gl_extensions_fills:
  assumes "load_gl_extensions None None w t = (Ret (opengl, egl_module), t')"
  shows "\<exists>f loaded. opengl = (''glEGLImageTargetTexture2DOES'', f) # loaded \<and>
    resolves w ''glEGLImageTargetTexture2DOES'' f \<and> fills_slots w opengl_table loaded \<and>
    fills_slots w (map (\<lambda>n. (n, n)) egl_slots) egl_module"
proof -
  obtain loaded u where l: "load_opengl w t = (Ret loaded, u)"
    "bindp (egl None) (\<lambda>egl_module. bindp (attach_extension_symbol ''glEGLImageTargetTexture2DOES'') (\<lambda>f.
      ret ((''glEGLImageTargetTexture2DOES'', f) # loaded, egl_module))) w u = (Ret (opengl, egl_module), t')"
    using bindp_RetD [OF assms [unfolded load_gl_extensions_def]]
    by (auto simp: get_opengl_module_def static_module_def)
  obtain e u' where e: "load_egl w u = (Ret e, u')"
    "bindp (attach_extension_symbol ''glEGLImageTargetTexture2DOES'') (\<lambda>f.
      ret ((''glEGLImageTargetTexture2DOES'', f) # loaded, e)) w u' = (Ret (opengl, egl_module), t')"
    using bindp_RetD [OF l(2)] by (auto simp: egl_def static_module_def)
  obtain f where f: "opengl = (''glEGLImageTargetTexture2DOES'', f) # loaded" "egl_module = e"
    "resolves w ''glEGLImageTargetTexture2DOES'' f"
    using e(2) unfolding attach_extension_symbol_def resolves_def
    by (fastforce simp: bindp_run prog_run split: if_splits)
  have "fills_slots w opengl_table loaded"
    using l(1) unfolding load_opengl_def by (rule load_library_fills)
  moreover have "fills_slots w (map (\<lambda>n. (n, n)) egl_slots) e"
    using load_library_fills [OF e(1) [unfolded load_egl_def]]
    by (rule fills_slots_same [THEN iffD1, rotated]) (auto simp: egl_slots_def)
  ultimately show ?thesis using f by blast
qed

lemma load_cuda_fills:
  "load_cuda w t = (Ret loaded, t') \<Longrightarrow> fills_slots w (map (\<lambda>n. (n, n)) cuda_slots) loaded"
  using load_library_fills [of "''libcuda.so.1''" "''Couldn't load libcuda.so: ''"]
  by (simp add: load_cuda_def cuda_slots_def cuda_functions_def)

text \<open>What a filled slot holds.\<close>

lemma fills_slotsD:
  assumes "fills_slots w table loaded" "(s, n) \<in> set table" "\<And>n'. (s, n') \<in> set table \<Longrightarrow> n' = n"
  shows "\<exists>p. map_of loaded s = Some p \<and> resolves w n p"
proof -
  have "s \<in> fst ` set table" using image_eqI [of s fst, OF _ assms(2)] by simp
  then have "s \<in> fst ` set loaded" using assms(1) by (simp add: fills_slots_def)
  then obtain p where p: "map_of loaded s = Some p" by (cases "map_of loaded s") (auto simp: map_of_eq_None_iff)
  then have "(s, p) \<in> set loaded" by (rule map_of_SomeD)
  then obtain n' where "(s, n') \<in> set table" "resolves w n' p" using assms(1) unfolding fills_slots_def by blast
  with p assms(3) show ?thesis by blast
qed

section \<open>The functions behind the calls of a frame\<close>

text \<open>\<open>glGetError\<close> follows every command but \<open>glClearColor\<close> and the extension.\<close>

fun delete_command :: "gl_kind \<Rightarrow> string" where
  "delete_command VertexArrayKind = ''glDeleteVertexArrays''"
| "delete_command BufferKind = ''glDeleteBuffers''"
| "delete_command TextureKind = ''glDeleteTextures''"
| "delete_command ShaderKind = ''glDeleteShader''"
| "delete_command ProgramKind = ''glDeleteProgram''"
| "delete_command FramebufferKind = ''glDeleteFramebuffers''"

fun bind_command :: "gl_target \<Rightarrow> string" where
  "bind_command VertexArrayTarget = ''glBindVertexArray''"
| "bind_command ArrayBuffer = ''glBindBuffer''"
| "bind_command ElementArrayBuffer = ''glBindBuffer''"
| "bind_command Texture2D = ''glBindTexture''"
| "bind_command TextureExternal = ''glBindTexture''"
| "bind_command ProgramTarget = ''glUseProgram''"
| "bind_command DrawFramebuffer = ''glBindFramebuffer''"

fun gl_functions :: "gl_call \<Rightarrow> string list" where
  "gl_functions (GlCreate k a) = [create_command k, ''glGetError'']"
| "gl_functions (GlDelete k n) = [delete_command k, ''glGetError'']"
| "gl_functions (GlBind tg n) = [bind_command tg, ''glGetError'']"
| "gl_functions (GlCommand name as) = [name, ''glGetError'']"
| "gl_functions GlClearColor = [''glClearColor'']"
| "gl_functions (GlSource n src) = [''glShaderSource'', ''glGetError'']"
| "gl_functions (GlUniformName n name) = [''glGetUniformLocation'', ''glGetError'']"

fun cuda_frame_function :: "cuda_frame_call \<Rightarrow> string" where
  "cuda_frame_function CuPush = ''cuCtxPushCurrent_v2''"
| "cuda_frame_function CuPop = ''cuCtxPopCurrent_v2''"
| "cuda_frame_function (CuRegister n) = ''cuGraphicsGLRegisterImage''"
| "cuda_frame_function (CuSetMapFlags r) = ''cuGraphicsResourceSetMapFlags''"
| "cuda_frame_function (CuMap r) = ''cuGraphicsMapResources''"
| "cuda_frame_function (CuGetArray r) = ''cuGraphicsSubResourceGetMappedArray''"
| "cuda_frame_function (CuUnmap r) = ''cuGraphicsUnmapResources''"
| "cuda_frame_function (CuUnregister r) = ''cuGraphicsUnregisterResource''"
| "cuda_frame_function (CuErrorText e) = ''cuGetErrorString''"

text \<open>
  The flags of CUDA's graphics resources, and which the calls of a frame pass: the texture is
  registered and mapped for reading only. Arrays are only handed on, never described.
\<close>

datatype register_flag =
  RegisterNone | RegisterReadOnly | RegisterWriteDiscard | RegisterSurfaceLdst | RegisterTextureGather

fun register_flag_value :: "register_flag \<Rightarrow> u32" where
  "register_flag_value RegisterNone = 0x00"
| "register_flag_value RegisterReadOnly = 0x01"
| "register_flag_value RegisterWriteDiscard = 0x02"
| "register_flag_value RegisterSurfaceLdst = 0x04"
| "register_flag_value RegisterTextureGather = 0x08"

datatype map_flag = MapNone | MapReadOnly | MapWriteDiscard

fun map_flag_value :: "map_flag \<Rightarrow> u32" where
  "map_flag_value MapNone = 0x00"
| "map_flag_value MapReadOnly = 0x01"
| "map_flag_value MapWriteDiscard = 0x02"

datatype array_format =
  UnsignedInt8 | UnsignedInt16 | UnsignedInt32 | SignedInt8 | SignedInt16 | SignedInt32 | Half | Float

fun array_format_value :: "array_format \<Rightarrow> u32" where
  "array_format_value UnsignedInt8 = 0x01"
| "array_format_value UnsignedInt16 = 0x02"
| "array_format_value UnsignedInt32 = 0x03"
| "array_format_value SignedInt8 = 0x08"
| "array_format_value SignedInt16 = 0x09"
| "array_format_value SignedInt32 = 0x0a"
| "array_format_value Half = 0x10"
| "array_format_value Float = 0x20"

record cuda_array_descriptor =
  ad_width :: u64
  ad_height :: u64
  ad_format :: array_format
  ad_num_channels :: u32

fun cuda_frame_flags :: "cuda_frame_call \<Rightarrow> u32 option" where
  "cuda_frame_flags (CuRegister n) = Some (register_flag_value RegisterReadOnly)"
| "cuda_frame_flags (CuSetMapFlags r) = Some (map_flag_value MapReadOnly)"
| "cuda_frame_flags _ = None"

text \<open>Neither call asks to write to the texture that OpenGL has drawn.\<close>

lemma texture_is_only_read:
  "cuda_frame_flags c = Some f \<Longrightarrow> f \<noteq> register_flag_value RegisterWriteDiscard \<and> f \<noteq> map_flag_value MapWriteDiscard"
  by (cases c) auto

fun gpu_functions :: "gpu_call \<Rightarrow> (api \<times> string) list" where
  "gpu_functions (Gl c) = map (Pair OpenGL) (gl_functions c)"
| "gpu_functions (CudaFrame c) = [(NvCuda, cuda_frame_function c)]"
| "gpu_functions (CreateImage as) = [(EGL, ''eglCreateImage'')]"
| "gpu_functions (DestroyImage i) = [(EGL, ''eglDestroyImage'')]"
| "gpu_functions EglError = [(EGL, ''eglGetError'')]"
| "gpu_functions SwapInterval = [(EGL, ''eglSwapInterval'')]"
| "gpu_functions (ImageTarget i) = [(OpenGL, ''glEGLImageTargetTexture2DOES'')]"
| "gpu_functions _ = []"

text \<open>A program whose calls are all of a kind, as a program that may not make the others.\<close>

definition permit :: "('c \<Rightarrow> bool) \<Rightarrow> ('w, 'c, unit) delta" where
  "permit P w t c H = (if P c then Some H else None)"

lemma track_permit: "track (permit P) w t new H = (if list_all P new then Some H else None)"
  by (induction new arbitrary: t) (auto simp: permit_def)

abbreviation confined :: "('c \<Rightarrow> bool) \<Rightarrow> ('w, 'c, 'a) prog \<Rightarrow> bool" where
  "confined P p \<equiv> neutral (permit P) p"

lemma confined_run: "confined P p \<Longrightarrow> \<exists>new. snd (p w t) = t @ new \<and> list_all P new"
  by (erule gains_run [where w = w and t = t]) (auto simp: track_permit split: if_splits)

lemma confined_call: "P c \<Longrightarrow> (\<And>x. confined P (f x)) \<Longrightarrow> confined P (bindp (call g c) f)"
  by (rule gains_call_bindp) (auto simp: permit_def)

lemma confined_emit: "P c \<Longrightarrow> confined P (emit c)"
  by (rule gains_emit) (simp add: permit_def)

lemma confined_guarded: "confined P p \<Longrightarrow> confined P f \<Longrightarrow> confined P (guarded f p)"
  unfolding scoped_nothing [symmetric, of "permit P" "guarded f p"]
  by (rule scoped_cleanup) (auto simp: scoped_nothing elim: gains_weaken)

lemma confined_guarded_unless_ret: "confined P p \<Longrightarrow> confined P f \<Longrightarrow> confined P (guarded_unless_ret f p)"
  unfolding scoped_nothing [symmetric, of "permit P" "guarded_unless_ret f p"]
  by (rule scoped_guarded_unless_ret)
    (auto simp: scoped_nothing split: outcome.split elim: gains_weaken)

lemma confined_noexcept: "confined P p \<Longrightarrow> confined P (noexcept p)"
  using scoped_noexcept [of "permit P" "{#}" p "\<lambda>_ L. L = {#}" "\<lambda>_ L. L = {#}"] by (simp add: scoped_nothing)

lemma confined_inside: "(\<And>c. P (ev c)) \<Longrightarrow> confined P (inside view ev p)"
  by (rule gains_inside) (auto simp: permit_def)

lemma confined_sc_expect: "confined P (sc_expect b)" "confined P contract_check_failed"
  by (rule sc_expect_neutral) (simp add: contract_check_failed_def gains_terminate)

lemmas confined_rules = seq_neutral gains_ret gains_throw gains_terminate confined_call confined_emit
  confined_guarded confined_guarded_unless_ret confined_noexcept neutral_for_each confined_sc_expect
  throw_gl_error_gains check_gl_error_neutral

text \<open>The slots that the calls of a frame use.\<close>

definition of_slots :: "gpu_call \<Rightarrow> bool" where
  "of_slots c = list_all (\<lambda>(a, name). case a of OpenGL \<Rightarrow> name \<in> set opengl_slots - {''glGetTexLevelParameterfv''}
     | EGL \<Rightarrow> name \<in> set egl_slots | NvCuda \<Rightarrow> name \<in> set cuda_slots) (gpu_functions c)"

lemma gl_command_confined: "of_slots (Gl (GlCommand name as)) \<Longrightarrow> confined of_slots (gl_command name src as)"
  unfolding gl_command_def by (intro confined_rules) auto

lemma gl_query_confined: "of_slots (Gl c) \<Longrightarrow> confined of_slots (gl_query f src c)"
  unfolding gl_query_def by (auto intro!: confined_rules split: prod.split)

lemma of_slots_objects [simp]:
  shows "of_slots (Gl (GlCreate k a))" and "of_slots (Gl (GlDelete k n))" and "of_slots (Gl (GlBind tg n))"
proof -
  show "of_slots (Gl (GlCreate k a))" by (cases k; hypsubst; code_simp)
  show "of_slots (Gl (GlDelete k n))" by (cases k; hypsubst; code_simp)
  show "of_slots (Gl (GlBind tg n))" by (cases tg; hypsubst; code_simp)
qed

lemma of_slots_cuda [simp]: "of_slots (CudaFrame c)"
  by (cases c; hypsubst; code_simp)

lemma of_slots_calls [simp]: "of_slots (Gl GlClearColor)" "of_slots (Gl (GlSource n src))"
    "of_slots (Gl (GlUniformName n name))" "of_slots (CreateImage as)" "of_slots (DestroyImage i)" "of_slots EglError"
    "of_slots SwapInterval" "of_slots (ImageTarget i)" "of_slots (GpuIo io)" "of_slots (CloseReceived fd)"
    "of_slots UnlinkSocket" "of_slots ReadSymlink" "of_slots (FileExists path)" "of_slots (HandleFrame arr)"
  by (code_simp+)

lemma of_slots_command:
  "of_slots (Gl (GlCommand name as)) \<longleftrightarrow> name \<in> set opengl_slots - {''glGetTexLevelParameterfv''}"
  by (simp add: of_slots_def opengl_slots_def)

lemma gl_create_confined: "confined of_slots (gl_create k a)"
  unfolding gl_create_def by (rule gl_query_confined) simp

lemma check_noexcept_confined: "confined P (check_gl_error_noexcept e)"
  by (auto simp: check_gl_error_noexcept_def intro: confined_rules)

lemma gl_destroy_confined: "confined of_slots (gl_destroy k n)"
  unfolding gl_destroy_def by (auto intro!: confined_rules check_noexcept_confined)

lemma gl_bind_confined: "confined of_slots (gl_bind tg n)"
  unfolding gl_bind_def by (auto intro!: confined_rules check_noexcept_confined)

lemma with_bound_confined: "confined of_slots p \<Longrightarrow> confined of_slots (with_bound tg n p)"
  unfolding with_bound_def by (auto intro!: confined_rules gl_bind_confined)

lemma with_object_confined: "(\<And>n. confined of_slots (body n)) \<Longrightarrow> confined of_slots (with_object k a body)"
  unfolding with_object_def by (intro confined_rules gl_create_confined gl_destroy_confined)

lemma giving_object_confined: "(\<And>n. confined of_slots (body n)) \<Longrightarrow> confined of_slots (giving_object k a body)"
  unfolding giving_object_def by (intro confined_rules gl_create_confined gl_destroy_confined)

lemmas gl_confined = confined_rules gl_command_confined gl_query_confined with_bound_confined with_object_confined
  giving_object_confined gl_destroy_confined gl_create_confined

section \<open>The programs\<close>

text \<open>The commands that a frame gives, by name.\<close>

lemma commands_in_slots: "list_all (\<lambda>name. name \<in> set opengl_slots - {''glGetTexLevelParameterfv''})
     [''glViewport'', ''glClear'', ''glEnable'', ''glBlendFunc'', ''glBufferData'', ''glVertexAttribPointer'',
      ''glEnableVertexArrayAttrib'', ''glDrawElements'', ''glTexImage2D'', ''glTexParameteri'',
      ''glFramebufferTexture'', ''glDrawBuffers'', ''glAttachShader'', ''glCheckFramebufferStatus'',
      ''glCompileShader'', ''glGetShaderiv'', ''glGetShaderInfoLog'', ''glLinkProgram'', ''glGetProgramiv'',
      ''glGetProgramInfoLog'', ''glGetAttachedShaders'', ''glDetachShader'', ''glValidateProgram'',
      ''glUniform2fv'']"
  by code_simp

lemma of_slots_commands [simp]:
    "of_slots (Gl (GlCommand ''glViewport'' as))" "of_slots (Gl (GlCommand ''glClear'' as))"
    "of_slots (Gl (GlCommand ''glEnable'' as))" "of_slots (Gl (GlCommand ''glBlendFunc'' as))"
    "of_slots (Gl (GlCommand ''glBufferData'' as))" "of_slots (Gl (GlCommand ''glVertexAttribPointer'' as))"
    "of_slots (Gl (GlCommand ''glEnableVertexArrayAttrib'' as))" "of_slots (Gl (GlCommand ''glDrawElements'' as))"
    "of_slots (Gl (GlCommand ''glTexImage2D'' as))" "of_slots (Gl (GlCommand ''glTexParameteri'' as))"
    "of_slots (Gl (GlCommand ''glFramebufferTexture'' as))" "of_slots (Gl (GlCommand ''glDrawBuffers'' as))"
    "of_slots (Gl (GlCommand ''glAttachShader'' as))" "of_slots (Gl (GlCommand ''glCheckFramebufferStatus'' as))"
    "of_slots (Gl (GlCommand ''glCompileShader'' as))" "of_slots (Gl (GlCommand ''glGetShaderiv'' as))"
    "of_slots (Gl (GlCommand ''glGetShaderInfoLog'' as))" "of_slots (Gl (GlCommand ''glLinkProgram'' as))"
    "of_slots (Gl (GlCommand ''glGetProgramiv'' as))" "of_slots (Gl (GlCommand ''glGetProgramInfoLog'' as))"
    "of_slots (Gl (GlCommand ''glGetAttachedShaders'' as))" "of_slots (Gl (GlCommand ''glDetachShader'' as))"
    "of_slots (Gl (GlCommand ''glValidateProgram'' as))" "of_slots (Gl (GlCommand ''glUniform2fv'' as))"
  using commands_in_slots by (simp_all only: of_slots_command list.pred_inject)

lemma uniform_confined: "length params = 2 \<Longrightarrow> confined of_slots (uniform loc params)"
proof -
  assume "length params = 2"
  moreover have "char_of (48 + (2 :: nat)) = CHR ''2''" by code_simp
  ultimately have "''glUniform'' @ [char_of (48 + length params)] @ ''fv'' = ''glUniform2fv''" by simp
  then show ?thesis unfolding uniform_def Let_def by (intro gl_command_confined) (simp only: of_slots_commands)
qed

lemma setup_vertices_confined: "confined of_slots (setup_vertices a b c d)"
  unfolding setup_vertices_def setup_attribute_def gl_command_defs by (intro gl_confined) simp_all

lemma setup_output_confined: "confined of_slots (setup_output a b c)"
  unfolding setup_output_def gl_command_defs by (intro gl_confined) simp_all

lemma compile_shader_confined: "confined of_slots (compile_shader s)"
  unfolding compile_shader_def gl_query_defs by (auto intro!: gl_confined)

lemma link_program_confined: "confined of_slots (link_program p n)"
  unfolding link_program_def detach_shaders_def gl_query_defs by (auto intro!: gl_confined)

lemma validate_program_confined: "confined of_slots (validate_program p)"
  unfolding validate_program_def gl_query_defs by (auto intro!: gl_confined)

lemma setup_mouse_program_confined: "confined of_slots (setup_mouse_program p a b)"
  unfolding setup_mouse_program_def gl_query_defs by (auto intro!: gl_confined uniform_confined)

lemma setup_framebuffer_confined: "confined of_slots (setup_framebuffer a b)"
  unfolding setup_framebuffer_def check_framebuffer_status_def gl_command_defs gl_query_defs by (auto intro!: gl_confined)

lemma with_shader_confined: "(\<And>s. confined of_slots (k s)) \<Longrightarrow> confined of_slots (with_shader ty src k)"
  unfolding with_shader_def shader_source_def by (auto intro!: gl_confined compile_shader_confined)

lemma with_program_confined: "(\<And>p. confined of_slots (k p)) \<Longrightarrow> confined of_slots (with_program v f k)"
  unfolding with_program_def attach_shader_def
  by (auto intro!: with_shader_confined gl_confined link_program_confined validate_program_confined)

lemma initialize_confined: "confined of_slots (initialize srcs self)"
proof -
  have finish: "confined of_slots (finish_initialize self fbo out vao vb tb ib p mp u)" for fbo out vao vb tb ib p mp u
    unfolding finish_initialize_def assign_object_def by (intro gl_confined) simp_all
  show ?thesis unfolding initialize_def
    by (auto intro!: gl_confined setup_vertices_confined setup_output_confined with_program_confined
        setup_mouse_program_confined setup_framebuffer_confined finish)
qed

lemma converter_destruct_confined: "confined of_slots (converter_destruct self)"
  unfolding converter_destruct_def by (intro gl_confined)

lemma convert_confined: "confined of_slots (convert self m)"
proof -
  have quad: "confined of_slots draw_quad" unfolding draw_quad_def gl_command_defs by (intro gl_confined) simp
  have mouse: "confined of_slots (draw_mouse self x)" for x
    unfolding draw_mouse_def by (auto intro!: gl_confined uniform_confined quad)
  have color: "confined of_slots clear_color" unfolding clear_color_def by (rule confined_emit) simp
  show ?thesis unfolding convert_def gl_command_defs
    by (auto intro!: gl_confined quad mouse color split: option.split)
qed

lemma find_helper_confined: "confined of_slots find_drm_helper_binary"
  unfolding find_drm_helper_binary_def Let_def by (auto intro!: confined_rules split: option.split)

lemma gpu_io_confined: "confined of_slots (gpu_io p)"
  unfolding gpu_io_def by (rule confined_inside) simp

lemma drm_on_init_confined: "confined of_slots (drm_on_init srcs svc dispatch frame_time reg self)"
  unfolding drm_on_init_def close_socket_def
  by (auto intro!: confined_rules initialize_confined gpu_io_confined find_helper_confined split: sum.split option.split)

lemma import_image_confined: "confined of_slots (import_image texture attributes)"
  unfolding import_image_def create_image_def by (auto intro!: confined_rules with_bound_confined)

lemma throw_cuda_text_confined: "confined of_slots (throw_cuda_text m r)"
  unfolding throw_cuda_text_def by (auto intro!: confined_rules)

lemma register_texture_confined: "confined of_slots (register_gl_texture_in_cuda texture)"
  unfolding register_gl_texture_in_cuda_def
  by (auto intro!: confined_rules throw_cuda_text_confined split: prod.split)

lemma release_resource_confined: "confined of_slots (release_resource r)"
  unfolding release_resource_def by (auto intro!: confined_rules)

lemma convert_planes_confined: "confined of_slots (convert_planes cc plane planes)"
  unfolding convert_planes_def import_mouse_def destroy_images_def handle_frame_def
  by (auto intro!: confined_rules import_image_confined convert_confined register_texture_confined
      release_resource_confined split: option.split prod.split)

lemma drm_dispatch_frame_confined: "confined of_slots (drm_dispatch_frame self)"
  unfolding drm_dispatch_frame_def capture_planes_def close_planes_def
  by (auto intro!: confined_rules gpu_io_confined convert_planes_confined simp del: for_each.simps
      split: sum.split list.split)

section \<open>Properties\<close>

text \<open>The calls of a program, all through slots that hold what their name resolved to.\<close>

definition calls_loaded :: "host_world \<Rightarrow> modules \<Rightarrow> gpu_call list \<Rightarrow> bool" where
  "calls_loaded hw m es \<longleftrightarrow> (\<forall>c \<in> set es. \<forall>(a, name) \<in> set (gpu_functions c).
     \<exists>p. module_slot m a name = Some (Loaded p) \<and> resolves hw name p)"

lemma fills_own_slots:
  assumes "fills_slots w (map (\<lambda>n. (n, n)) slots) loaded" "name \<in> set slots"
  shows "\<exists>p. map_of loaded name = Some p \<and> resolves w name p"
  by (rule fills_slotsD [OF assms(1)]) (use assms(2) in auto)

lemma opengl_table_slots:
  "list_all (\<lambda>s. s = ''glEGLImageTargetTexture2DOES'' \<or> s = ''glGetTexLevelParameterfv'' \<or>
     filter (\<lambda>(s', n). s' = s) opengl_table = [(s, s)]) opengl_slots"
  by code_simp

lemma opengl_slot_loaded:
  assumes "fills_slots w opengl_table loaded" "resolves w ''glEGLImageTargetTexture2DOES'' f"
    and "name \<in> set opengl_slots - {''glGetTexLevelParameterfv''}"
  shows "\<exists>p. map_of ((''glEGLImageTargetTexture2DOES'', f) # loaded) name = Some p \<and> resolves w name p"
proof (cases "name = ''glEGLImageTargetTexture2DOES''")
  case False
  with assms(3) opengl_table_slots have "filter (\<lambda>(s', n). s' = name) opengl_table = [(name, name)]"
    by (auto simp: list_all_iff)
  then have "set (filter (\<lambda>(s', n). s' = name) opengl_table) = {(name, name)}" by simp
  then have "(name, name) \<in> set opengl_table" "\<And>n. (name, n) \<in> set opengl_table \<Longrightarrow> n = name" by auto
  from fills_slotsD [OF assms(1) this] False show ?thesis by simp
qed (use assms(2) in simp)

lemma of_slots_loaded:
  assumes "load_gl_extensions None None hw ht = (Ret (opengl, egl_module), ht')" "load_cuda hw ht1 = (Ret cuda, ht2)"
    and "list_all of_slots es"
  shows "calls_loaded hw \<lparr>m_opengl = opengl, m_egl = egl_module, m_cuda = cuda\<rparr> es"
proof -
  obtain f loaded where l: "opengl = (''glEGLImageTargetTexture2DOES'', f) # loaded"
    "resolves hw ''glEGLImageTargetTexture2DOES'' f" "fills_slots hw opengl_table loaded"
    "fills_slots hw (map (\<lambda>n. (n, n)) egl_slots) egl_module"
    using load_gl_extensions_fills [OF assms(1)] by blast
  show ?thesis unfolding calls_loaded_def
  proof (clarify)
    fix c a name assume c: "c \<in> set es" "(a, name) \<in> set (gpu_functions c)"
    then have of_slots: "case a of OpenGL \<Rightarrow> name \<in> set opengl_slots - {''glGetTexLevelParameterfv''}
       | EGL \<Rightarrow> name \<in> set egl_slots | NvCuda \<Rightarrow> name \<in> set cuda_slots"
      using assms(3) by (fastforce simp: list_all_iff of_slots_def)
    show "\<exists>p. module_slot \<lparr>m_opengl = opengl, m_egl = egl_module, m_cuda = cuda\<rparr> a name = Some (Loaded p) \<and>
        resolves hw name p"
    proof (cases a)
      case OpenGL
      with of_slots have "name \<in> set opengl_slots - {''glGetTexLevelParameterfv''}" by simp
      with opengl_slot_loaded [OF l(3,2) this] show ?thesis by (auto simp: OpenGL slot_of_def l(1) simp del: map_of.simps)
    next
      case EGL
      with of_slots have "name \<in> set egl_slots" by simp
      with fills_own_slots [OF l(4) this] show ?thesis by (auto simp: EGL slot_of_def)
    next
      case NvCuda
      with of_slots have "name \<in> set cuda_slots" by simp
      with fills_own_slots [OF load_cuda_fills [OF assms(2)] this] show ?thesis by (auto simp: NvCuda slot_of_def)
    qed
  qed
qed


lemma yields_run:
  assumes "yields w p Q" obtains x t' where "p w t = (Ret x, t')"
  using assms unfolding yields_def by meson


text \<open>Before the extensions are loaded, the extension's slot reports the call; the others are loaded.\<close>

lemma extension_not_attached:
  assumes "load_opengl hw ht = (Ret opengl, ht')"
  shows "module_slot \<lparr>m_opengl = opengl, m_egl = e, m_cuda = c\<rparr> OpenGL ''glEGLImageTargetTexture2DOES'' = Some NotAttached"
proof -
  have "fills_slots hw opengl_table opengl" using assms unfolding load_opengl_def by (rule load_library_fills)
  moreover have "''glEGLImageTargetTexture2DOES'' \<notin> fst ` set opengl_table" by code_simp
  ultimately have "map_of opengl ''glEGLImageTargetTexture2DOES'' = None"
    by (simp only: fills_slots_def map_of_eq_None_iff simp_thms)
  moreover have "''glEGLImageTargetTexture2DOES'' \<in> set opengl_slots" by code_simp
  ultimately show ?thesis by (simp add: slot_of_def opengl_default_def)
qed

text \<open>Every function of the tables is loaded, and all but one by their own names.\<close>

lemma misnamed_slot: "filter (\<lambda>(s, n). s \<noteq> n) opengl_table = [(''glGetTexLevelParameterfv'', ''glGetTexImage'')]"
  by code_simp

end
