(* ===== verification/Nvfbc.thy ===== *)
theory Nvfbc
  imports Nvidia Video
begin

text \<open>
  The interface of NvFBC, \<open>src/nvidia/NvFBC.h\<close>: the structures with their layout and the version word
  that tells the library which structure it was given, the functions and the table of pointers to
  them, and what the program (\<open>src/nvidia.cpp\<close>, \<open>src/services/video_service.cpp\<close>) passes. The calls
  themselves are events of the theories Nvidia and Video.
\<close>

section \<open>Layout\<close>

text \<open>
  Members in order, each at the next multiple of its alignment, and the whole padded to a multiple
  of the largest; integers and enumerations are aligned to their size, pointers have 8 bytes.
\<close>

datatype ctype = CInt nat | CPointer | CArray nat ctype | CStruct "ctype list"

definition round_up :: "nat \<Rightarrow> nat \<Rightarrow> nat" where
  "round_up n a = (n + a - 1) div a * a"

fun c_align :: "ctype \<Rightarrow> nat" where
  "c_align (CInt n) = n"
| "c_align CPointer = 8"
| "c_align (CArray n t) = c_align t"
| "c_align (CStruct ts) = foldr (\<lambda>t m. max (c_align t) m) ts 1"

fun c_size :: "ctype \<Rightarrow> nat" where
  "c_size (CInt n) = n"
| "c_size CPointer = 8"
| "c_size (CArray n t) = n * c_size t"
| "c_size (CStruct ts) =
     round_up (fold (\<lambda>t off. round_up off (c_align t) + c_size t) ts 0) (c_align (CStruct ts))"

abbreviation c_u32 :: ctype where "c_u32 \<equiv> CInt 4"
abbreviation c_enum :: ctype where "c_enum \<equiv> CInt 4"
abbreviation c_u64 :: ctype where "c_u64 \<equiv> CInt 8"

definition box_layout :: ctype where
  "box_layout = CStruct [c_u32, c_u32, c_u32, c_u32]"

definition size_layout :: ctype where
  "size_layout = CStruct [c_u32, c_u32]"

definition frame_grab_info_layout :: ctype where
  "frame_grab_info_layout = CStruct [c_u32, c_u32, c_u32, c_u32, c_enum, c_u64, c_u32, c_enum, c_enum]"

definition create_handle_layout :: ctype where
  "create_handle_layout = CStruct [c_u32, CPointer, c_u32, c_enum, CPointer, CPointer]"

definition destroy_handle_layout :: ctype where
  "destroy_handle_layout = CStruct [c_u32]"

definition create_capture_session_layout :: ctype where
  "create_capture_session_layout = CStruct [c_u32, c_enum, c_enum, c_u32, box_layout, size_layout,
     c_enum, c_enum, c_enum, c_u32, c_enum, c_enum]"

definition destroy_capture_session_layout :: ctype where
  "destroy_capture_session_layout = CStruct [c_u32]"

definition tocuda_setup_layout :: ctype where
  "tocuda_setup_layout = CStruct [c_u32, c_enum]"

definition tocuda_grab_frame_layout :: ctype where
  "tocuda_grab_frame_layout = CStruct [c_u32, c_u32, CPointer, CPointer, c_u32]"

definition OUTPUT_MAX :: nat where "OUTPUT_MAX = 5"
definition OUTPUT_NAME_LEN :: nat where "OUTPUT_NAME_LEN = 128"
definition TOGL_TEXTURES_MAX :: nat where "TOGL_TEXTURES_MAX = 2"

definition randr_output_info_layout :: ctype where
  "randr_output_info_layout = CStruct [c_u32, CArray OUTPUT_NAME_LEN (CInt 1), box_layout]"

definition get_status_layout :: ctype where
  "get_status_layout = CStruct [c_u32, c_enum, c_enum, c_enum, size_layout, c_enum,
     CArray OUTPUT_MAX randr_output_info_layout, c_u32, c_u32, c_enum]"

definition bind_context_layout :: ctype where
  "bind_context_layout = CStruct [c_u32]"

definition release_context_layout :: ctype where
  "release_context_layout = CStruct [c_u32]"

definition tosys_setup_layout :: ctype where
  "tosys_setup_layout = CStruct [c_u32, c_enum, CPointer, c_enum, CPointer, c_u32, size_layout]"

definition tosys_grab_frame_layout :: ctype where
  "tosys_grab_frame_layout = CStruct [c_u32, c_u32, CPointer, c_u32]"

definition togl_setup_layout :: ctype where
  "togl_setup_layout = CStruct [c_u32, c_enum, c_enum, CPointer, c_u32, CArray TOGL_TEXTURES_MAX c_u32,
     c_u32, c_u32, c_u32, size_layout]"

definition togl_grab_frame_layout :: ctype where
  "togl_grab_frame_layout = CStruct [c_u32, c_u32, c_u32, CPointer, c_u32]"

lemmas layouts = box_layout_def size_layout_def create_handle_layout_def destroy_handle_layout_def
  create_capture_session_layout_def destroy_capture_session_layout_def tocuda_setup_layout_def
  tocuda_grab_frame_layout_def frame_grab_info_layout_def

section \<open>Versions\<close>

definition NVFBC_VERSION_MAJOR :: u32 where "NVFBC_VERSION_MAJOR = 1"
definition NVFBC_VERSION_MINOR :: u32 where "NVFBC_VERSION_MINOR = 7"

definition NVFBC_VERSION :: u32 where
  "NVFBC_VERSION = (NVFBC_VERSION_MINOR OR push_bit 8 NVFBC_VERSION_MAJOR)"

text \<open>The size is of the type \<open>size_t\<close>; the shifts of the number and the version are 32-bit ones.\<close>

definition struct_version :: "ctype \<Rightarrow> u32 \<Rightarrow> u32" where
  "struct_version layout ver =
     ucast ((of_nat (c_size layout) :: size_t) OR ucast (push_bit 16 ver) OR ucast (push_bit 24 NVFBC_VERSION))"

definition CREATE_HANDLE_VER :: u32 where
  "CREATE_HANDLE_VER = struct_version create_handle_layout 2"
definition DESTROY_HANDLE_VER :: u32 where
  "DESTROY_HANDLE_VER = struct_version destroy_handle_layout 1"
definition CREATE_CAPTURE_SESSION_VER :: u32 where
  "CREATE_CAPTURE_SESSION_VER = struct_version create_capture_session_layout 6"
definition DESTROY_CAPTURE_SESSION_VER :: u32 where
  "DESTROY_CAPTURE_SESSION_VER = struct_version destroy_capture_session_layout 1"
definition TOCUDA_SETUP_VER :: u32 where
  "TOCUDA_SETUP_VER = struct_version tocuda_setup_layout 1"
definition TOCUDA_GRAB_FRAME_VER :: u32 where
  "TOCUDA_GRAB_FRAME_VER = struct_version tocuda_grab_frame_layout 2"

definition GET_STATUS_VER :: u32 where
  "GET_STATUS_VER = struct_version get_status_layout 2"
definition BIND_CONTEXT_VER :: u32 where
  "BIND_CONTEXT_VER = struct_version bind_context_layout 1"
definition RELEASE_CONTEXT_VER :: u32 where
  "RELEASE_CONTEXT_VER = struct_version release_context_layout 1"
definition TOSYS_SETUP_VER :: u32 where
  "TOSYS_SETUP_VER = struct_version tosys_setup_layout 3"
definition TOSYS_GRAB_FRAME_VER :: u32 where
  "TOSYS_GRAB_FRAME_VER = struct_version tosys_grab_frame_layout 2"
definition TOGL_SETUP_VER :: u32 where
  "TOGL_SETUP_VER = struct_version togl_setup_layout 2"
definition TOGL_GRAB_FRAME_VER :: u32 where
  "TOGL_GRAB_FRAME_VER = struct_version togl_grab_frame_layout 2"

lemmas struct_versions = CREATE_HANDLE_VER_def DESTROY_HANDLE_VER_def CREATE_CAPTURE_SESSION_VER_def
  DESTROY_CAPTURE_SESSION_VER_def TOCUDA_SETUP_VER_def TOCUDA_GRAB_FRAME_VER_def GET_STATUS_VER_def BIND_CONTEXT_VER_def
  RELEASE_CONTEXT_VER_def TOSYS_SETUP_VER_def TOSYS_GRAB_FRAME_VER_def TOGL_SETUP_VER_def TOGL_GRAB_FRAME_VER_def

lemma layout_sizes: "map c_size [create_handle_layout, destroy_handle_layout, create_capture_session_layout,
    destroy_capture_session_layout, tocuda_setup_layout, tocuda_grab_frame_layout, frame_grab_info_layout] =
  [40, 4, 64, 4, 8, 32, 48]"
  by code_simp

lemma other_layout_sizes: "map c_size [get_status_layout, bind_context_layout, release_context_layout,
    tosys_setup_layout, tosys_grab_frame_layout, togl_setup_layout, togl_grab_frame_layout] =
  [780, 4, 4, 48, 24, 56, 32]"
  by code_simp

section \<open>Constants\<close>

datatype capture_type = CAPTURE_TO_SYS | CAPTURE_SHARED_CUDA | CAPTURE_TO_GL

fun capture_type_value :: "capture_type \<Rightarrow> int" where
  "capture_type_value CAPTURE_TO_SYS = 0"
| "capture_type_value CAPTURE_SHARED_CUDA = 1"
| "capture_type_value CAPTURE_TO_GL = 3"

datatype tracking_type = TRACKING_DEFAULT | TRACKING_OUTPUT | TRACKING_SCREEN

datatype buffer_format =
  BUFFER_FORMAT_ARGB | BUFFER_FORMAT_RGB | BUFFER_FORMAT_NV12 | BUFFER_FORMAT_YUV444P | BUFFER_FORMAT_RGBA
  | BUFFER_FORMAT_BGRA

definition GRAB_NOWAIT :: u32 where "GRAB_NOWAIT = push_bit 0 1"
definition GRAB_FORCE_REFRESH :: u32 where "GRAB_FORCE_REFRESH = push_bit 1 1"
definition GRAB_NOWAIT_IF_NEW_FRAME_READY :: u32 where "GRAB_NOWAIT_IF_NEW_FRAME_READY = push_bit 2 1"

datatype nvfbc_status =
  FbcSuccess | ErrApiVersion | ErrInternal | ErrInvalidParam | ErrInvalidPtr | ErrInvalidHandle | ErrMaxClients
  | ErrUnsupported | ErrOutOfMemory | ErrBadRequest | ErrX | ErrGlx | ErrGl | ErrCuda | ErrEncoder | ErrContext
  | ErrMustRecreate | ErrVulkan

definition nvfbc_statuses :: "nvfbc_status list" where
  "nvfbc_statuses = [FbcSuccess, ErrApiVersion, ErrInternal, ErrInvalidParam, ErrInvalidPtr, ErrInvalidHandle,
     ErrMaxClients, ErrUnsupported, ErrOutOfMemory, ErrBadRequest, ErrX, ErrGlx, ErrGl, ErrCuda, ErrEncoder,
     ErrContext, ErrMustRecreate, ErrVulkan]"

definition status_of_value :: "int \<Rightarrow> nvfbc_status option" where
  "status_of_value r = (if 0 \<le> r \<and> nat r < length nvfbc_statuses then Some (nvfbc_statuses ! nat r) else None)"

lemma success_is_zero: "status_of_value r = Some FbcSuccess \<longleftrightarrow> r = NVFBC_SUCCESS"
proof -
  have "nvfbc_statuses ! n = FbcSuccess \<longleftrightarrow> n = 0" if "n < 18" for n
    using that unfolding nvfbc_statuses_def by (cases n) (auto simp: nth_Cons split: nat.splits)
  then show ?thesis
    by (auto simp: status_of_value_def NVFBC_SUCCESS_def) (simp_all add: nvfbc_statuses_def)
qed

text \<open>The flags of the other two ways to capture have the same values.\<close>

datatype grab_flag = NoFlags | NoWait | ForceRefresh | NoWaitIfNewFrameReady

fun tosys_grab_flag :: "grab_flag \<Rightarrow> u32" where
  "tosys_grab_flag NoFlags = 0"
| "tosys_grab_flag NoWait = push_bit 0 1"
| "tosys_grab_flag ForceRefresh = push_bit 1 1"
| "tosys_grab_flag NoWaitIfNewFrameReady = push_bit 2 1"

fun togl_grab_flag :: "grab_flag \<Rightarrow> u32" where
  "togl_grab_flag NoFlags = 0"
| "togl_grab_flag NoWait = push_bit 0 1"
| "togl_grab_flag ForceRefresh = push_bit 1 1"
| "togl_grab_flag NoWaitIfNewFrameReady = push_bit 2 1"

section \<open>The functions and their table\<close>

datatype fbc_function =
    GetLastErrorStr | CreateHandle | DestroyHandle | BindContext | ReleaseContext | GetStatus
  | CreateCaptureSession | DestroyCaptureSession | ToSysSetUp | ToSysGrabFrame | ToCudaSetUp
  | ToCudaGrabFrame | ToGLSetUp | ToGLGrabFrame

text \<open>The structure that a function takes, by its layout and the version word defined for it.\<close>

fun parameter_of :: "fbc_function \<Rightarrow> (ctype \<times> u32) option" where
  "parameter_of GetLastErrorStr = None"
| "parameter_of CreateHandle = Some (create_handle_layout, CREATE_HANDLE_VER)"
| "parameter_of DestroyHandle = Some (destroy_handle_layout, DESTROY_HANDLE_VER)"
| "parameter_of BindContext = Some (bind_context_layout, BIND_CONTEXT_VER)"
| "parameter_of ReleaseContext = Some (release_context_layout, RELEASE_CONTEXT_VER)"
| "parameter_of GetStatus = Some (get_status_layout, GET_STATUS_VER)"
| "parameter_of CreateCaptureSession = Some (create_capture_session_layout, CREATE_CAPTURE_SESSION_VER)"
| "parameter_of DestroyCaptureSession = Some (destroy_capture_session_layout, DESTROY_CAPTURE_SESSION_VER)"
| "parameter_of ToSysSetUp = Some (tosys_setup_layout, TOSYS_SETUP_VER)"
| "parameter_of ToSysGrabFrame = Some (tosys_grab_frame_layout, TOSYS_GRAB_FRAME_VER)"
| "parameter_of ToCudaSetUp = Some (tocuda_setup_layout, TOCUDA_SETUP_VER)"
| "parameter_of ToCudaGrabFrame = Some (tocuda_grab_frame_layout, TOCUDA_GRAB_FRAME_VER)"
| "parameter_of ToGLSetUp = Some (togl_setup_layout, TOGL_SETUP_VER)"
| "parameter_of ToGLGrabFrame = Some (togl_grab_frame_layout, TOGL_GRAB_FRAME_VER)"

datatype table_slot = Version | Fn fbc_function | Retired

definition function_list :: "table_slot list" where
  "function_list = [Version, Fn GetLastErrorStr, Fn CreateHandle, Fn DestroyHandle, Fn GetStatus,
     Fn CreateCaptureSession, Fn DestroyCaptureSession, Fn ToSysSetUp, Fn ToSysGrabFrame, Fn ToCudaSetUp,
     Fn ToCudaGrabFrame, Retired, Retired, Retired, Fn BindContext, Fn ReleaseContext, Retired, Retired,
     Retired, Retired, Fn ToGLSetUp, Fn ToGLGrabFrame]"

section \<open>The structures\<close>

record nvfbc_box =
  box_x :: u32
  box_y :: u32
  box_w :: u32
  box_h :: u32

record nvfbc_size =
  size_w :: u32
  size_h :: u32

text \<open>Private data is a pointer to the bytes it is read from.\<close>

record create_handle_params =
  ch_version :: u32
  private_data :: "u8 list"
  private_data_size :: u32
  externally_managed_context :: bool
  glx_ctx :: nat
  glx_fb_config :: nat

record create_capture_session_params =
  cs_version :: u32
  cs_capture_type :: capture_type
  cs_tracking_type :: tracking_type
  cs_output_id :: u32
  cs_capture_box :: nvfbc_box
  cs_frame_size :: nvfbc_size
  cs_with_cursor :: bool
  cs_disable_auto_modeset_recovery :: bool
  cs_round_frame_size :: bool
  cs_sampling_rate_ms :: u32
  cs_push_model :: bool
  cs_allow_direct_capture :: bool

record tocuda_setup_params =
  ts_version :: u32
  ts_buffer_format :: buffer_format

record frame_grab_info =
  gi_width :: u32
  gi_height :: u32
  gi_byte_size :: u32
  gi_current_frame :: u32
  gi_is_new_frame :: bool
  gi_timestamp_us :: u64
  gi_missed_frames :: u32
  gi_required_post_processing :: bool
  gi_direct_capture :: bool

text \<open>The places for the device pointer and the description of the frame are locals of the dispatch.\<close>

record tocuda_grab_frame_params =
  gf_version :: u32
  gf_flags :: u32
  gf_device_buffer :: "u64 option"
  gf_frame_grab_info :: "frame_grab_info option"
  gf_timeout_ms :: u32

section \<open>What the program passes\<close>

definition create_handle_request :: "u8 list \<Rightarrow> create_handle_params" where
  "create_handle_request key = \<lparr>ch_version = CREATE_HANDLE_VER, private_data = key,
     private_data_size = of_nat (length key), externally_managed_context = False, glx_ctx = 0, glx_fb_config = 0\<rparr>"

definition no_capture_session_params :: create_capture_session_params where
  "no_capture_session_params = \<lparr>cs_version = 0, cs_capture_type = CAPTURE_TO_SYS, cs_tracking_type = TRACKING_DEFAULT,
     cs_output_id = 0, cs_capture_box = \<lparr>box_x = 0, box_y = 0, box_w = 0, box_h = 0\<rparr>,
     cs_frame_size = \<lparr>size_w = 0, size_h = 0\<rparr>, cs_with_cursor = False, cs_disable_auto_modeset_recovery = False,
     cs_round_frame_size = False, cs_sampling_rate_ms = 0, cs_push_model = False, cs_allow_direct_capture = False\<rparr>"

text \<open>The sampling rate is converted to 32 bits.\<close>

definition create_capture_session_request :: "u64 \<Rightarrow> create_capture_session_params" where
  "create_capture_session_request rate = no_capture_session_params\<lparr>cs_version := CREATE_CAPTURE_SESSION_VER,
     cs_capture_type := CAPTURE_SHARED_CUDA, cs_with_cursor := True, cs_tracking_type := TRACKING_SCREEN,
     cs_sampling_rate_ms := ucast rate, cs_allow_direct_capture := False, cs_push_model := False\<rparr>"

definition tocuda_setup_request :: tocuda_setup_params where
  "tocuda_setup_request = \<lparr>ts_version = TOCUDA_SETUP_VER, ts_buffer_format = BUFFER_FORMAT_BGRA\<rparr>"

definition grab_frame_request :: tocuda_grab_frame_params where
  "grab_frame_request = \<lparr>gf_version = TOCUDA_GRAB_FRAME_VER, gf_flags = GRAB_NOWAIT, gf_device_buffer = Some 0,
     gf_frame_grab_info = Some \<lparr>gi_width = 0, gi_height = 0, gi_byte_size = 0, gi_current_frame = 0,
       gi_is_new_frame = False, gi_timestamp_us = 0, gi_missed_frames = 0, gi_required_post_processing = False,
       gi_direct_capture = False\<rparr>, gf_timeout_ms = 0\<rparr>"

text \<open>The table of the functions is value-initialised and its version is left so.\<close>

definition create_instance_request :: u32 where
  "create_instance_request = 0"

text \<open>The slot of the table that a call goes through, and the version word of the structure it passes.\<close>

fun called_function :: "fbc_call \<Rightarrow> fbc_function option" where
  "called_function FbcCreateInstance = None"
| "called_function (FbcCreateHandle key) = Some CreateHandle"
| "called_function (FbcDestroyHandle h) = Some DestroyHandle"
| "called_function (FbcCreateCaptureSession h rate) = Some CreateCaptureSession"
| "called_function (FbcToCudaSetUp h) = Some ToCudaSetUp"
| "called_function (FbcDestroyCaptureSession h) = Some DestroyCaptureSession"
| "called_function (FbcGrabFrame h) = Some ToCudaGrabFrame"
| "called_function (FbcGetLastErrorStr h) = Some GetLastErrorStr"

fun passed_version :: "fbc_call \<Rightarrow> u32 option" where
  "passed_version (FbcCreateHandle key) = Some (ch_version (create_handle_request key))"
| "passed_version (FbcDestroyHandle h) = Some DESTROY_HANDLE_VER"
| "passed_version (FbcCreateCaptureSession h rate) = Some (cs_version (create_capture_session_request rate))"
| "passed_version (FbcToCudaSetUp h) = Some (ts_version tocuda_setup_request)"
| "passed_version (FbcDestroyCaptureSession h) = Some DESTROY_CAPTURE_SESSION_VER"
| "passed_version (FbcGrabFrame h) = Some (gf_version grab_frame_request)"
| "passed_version FbcCreateInstance = None"
| "passed_version (FbcGetLastErrorStr h) = None"

text \<open>How a library reads the word: the size, the number of the structure, the minor version of the interface.\<close>

definition read_version :: "u32 \<Rightarrow> u32 \<times> u32 \<times> u32" where
  "read_version v = (v AND 0xffff, drop_bit 16 v AND 0xff, drop_bit 24 v)"

text \<open>
  The number that the header gives for the structure of a function. The size fits into its bits for
  all of them, the 780 bytes of \<open>NVFBC_GET_STATUS_PARAMS\<close> included.
\<close>

fun structure_number :: "fbc_function \<Rightarrow> u32" where
  "structure_number GetLastErrorStr = 0"
| "structure_number CreateHandle = 2"
| "structure_number DestroyHandle = 1"
| "structure_number BindContext = 1"
| "structure_number ReleaseContext = 1"
| "structure_number GetStatus = 2"
| "structure_number CreateCaptureSession = 6"
| "structure_number DestroyCaptureSession = 1"
| "structure_number ToSysSetUp = 3"
| "structure_number ToSysGrabFrame = 2"
| "structure_number ToCudaSetUp = 1"
| "structure_number ToCudaGrabFrame = 2"
| "structure_number ToGLSetUp = 2"
| "structure_number ToGLGrabFrame = 2"

lemma versions_read:
  "read_version CREATE_HANDLE_VER = (of_nat (c_size create_handle_layout), 2, NVFBC_VERSION_MINOR)"
  "read_version DESTROY_HANDLE_VER = (of_nat (c_size destroy_handle_layout), 1, NVFBC_VERSION_MINOR)"
  "read_version BIND_CONTEXT_VER = (of_nat (c_size bind_context_layout), 1, NVFBC_VERSION_MINOR)"
  "read_version RELEASE_CONTEXT_VER = (of_nat (c_size release_context_layout), 1, NVFBC_VERSION_MINOR)"
  "read_version GET_STATUS_VER = (of_nat (c_size get_status_layout), 2, NVFBC_VERSION_MINOR)"
  "read_version CREATE_CAPTURE_SESSION_VER = (of_nat (c_size create_capture_session_layout), 6, NVFBC_VERSION_MINOR)"
  "read_version DESTROY_CAPTURE_SESSION_VER = (of_nat (c_size destroy_capture_session_layout), 1, NVFBC_VERSION_MINOR)"
  "read_version TOSYS_SETUP_VER = (of_nat (c_size tosys_setup_layout), 3, NVFBC_VERSION_MINOR)"
  "read_version TOSYS_GRAB_FRAME_VER = (of_nat (c_size tosys_grab_frame_layout), 2, NVFBC_VERSION_MINOR)"
  "read_version TOCUDA_SETUP_VER = (of_nat (c_size tocuda_setup_layout), 1, NVFBC_VERSION_MINOR)"
  "read_version TOCUDA_GRAB_FRAME_VER = (of_nat (c_size tocuda_grab_frame_layout), 2, NVFBC_VERSION_MINOR)"
  "read_version TOGL_SETUP_VER = (of_nat (c_size togl_setup_layout), 2, NVFBC_VERSION_MINOR)"
  "read_version TOGL_GRAB_FRAME_VER = (of_nat (c_size togl_grab_frame_layout), 2, NVFBC_VERSION_MINOR)"
  by (simp_all add: struct_versions struct_version_def layout_sizes [simplified] other_layout_sizes [simplified]
      read_version_def NVFBC_VERSION_def NVFBC_VERSION_MAJOR_def NVFBC_VERSION_MINOR_def)

lemma version_words_read:
  assumes "parameter_of f = Some (layout, v)"
  shows "read_version v = (of_nat (c_size layout), structure_number f, NVFBC_VERSION_MINOR)"
  using assms versions_read by (cases f) auto

section \<open>Properties\<close>


end
