(* ===== verification/Queue.thy ===== *)
theory Queue
  imports Encoding
begin

text \<open>
  The queue of the encoder service between the threads, \<open>write_frame\<close> and \<open>dispatch\<close> of
  \<open>src/services/encoder_service.cpp\<close> at the granularity of the lock: any number of threads write
  frames (the audio thread, the media thread, the main thread with its end markers) while the loop
  of the media thread dispatches the service, and their steps interleave in any order. Theory
  Encoding has the same two functions run alone, with what the codec and the muxer answer.
\<close>

section \<open>States\<close>

text \<open>A thread in \<open>write_frame\<close>: before the lock, with the lock, after the push, after the unlock.\<close>

datatype writer_pc = Idle | HasItem nat | InLock nat | Pushed | Unlocked

text \<open>
  The thread of the loop: asleep or elsewhere; woken by the descriptor; in the scope that takes the
  queue over; with the items of a round and those not yet drained; at a request for a packet; out of
  its loop, and through with the service.
\<close>

datatype encoder_pc =
    Waiting | Woken | Splicing | Spliced "nat list" | Draining "nat list" "nat list"
  | Receiving "nat list" "nat list" | LoopLeft | Finished

datatype lock_owner = Writer nat | EncoderLoop

record queue_state =
  q_lock :: "lock_owner option"
  q_pending :: "nat list"
  q_counter :: nat
  q_open :: bool
  q_writers :: "nat \<Rightarrow> writer_pc"
  q_encoder :: encoder_pc
  q_closed :: bool
  q_failed :: bool
  q_pushed :: "nat list"
  q_returned :: "nat list"
  q_late :: nat

text \<open>
  \<open>q_closed\<close>: no thread will write again, after which alone the media loop is asked to stop
  (\<open>Shutdown.shutdown_order\<close>). \<open>q_failed\<close>: a round has thrown. The last three are histories: the
  items pushed, the items given back to the pool, and the notifications of a closed descriptor.
\<close>

definition queue_start :: queue_state where
  "queue_start = \<lparr>q_lock = None, q_pending = [], q_counter = 0, q_open = True, q_writers = (\<lambda>_. Idle),
     q_encoder = Waiting, q_closed = False, q_failed = False, q_pushed = [], q_returned = [], q_late = 0\<rparr>"

section \<open>Steps\<close>

definition writer_at :: "nat \<Rightarrow> writer_pc \<Rightarrow> queue_state \<Rightarrow> queue_state" where
  "writer_at t p s = s\<lparr>q_writers := (q_writers s)(t := p)\<rparr>"

definition encoder_at :: "encoder_pc \<Rightarrow> queue_state \<Rightarrow> queue_state" where
  "encoder_at p s = s\<lparr>q_encoder := p\<rparr>"

text \<open>A round ends: back to the loop, or through when it was the last one.\<close>

definition round_over :: "nat list \<Rightarrow> bool \<Rightarrow> queue_state \<Rightarrow> queue_state" where
  "round_over its failed s = s\<lparr>q_returned := q_returned s @ its, q_failed := q_failed s \<or> failed,
     q_encoder := (if \<not> q_open s then Finished else if failed then LoopLeft else Waiting)\<rparr>"

text \<open>What the threads do by themselves.\<close>

inductive work_step :: "queue_state \<Rightarrow> queue_state \<Rightarrow> bool" where
  writer_locks: "q_writers s t = HasItem i \<Longrightarrow> q_lock s = None \<Longrightarrow>
    work_step s (writer_at t (InLock i) (s\<lparr>q_lock := Some (Writer t)\<rparr>))"
| writer_pushes: "q_writers s t = InLock i \<Longrightarrow>
    work_step s (writer_at t Pushed (s\<lparr>q_pending := q_pending s @ [i], q_pushed := q_pushed s @ [i]\<rparr>))"
| writer_unlocks: "q_writers s t = Pushed \<Longrightarrow> work_step s (writer_at t Unlocked (s\<lparr>q_lock := None\<rparr>))"
| writer_notifies: "q_writers s t = Unlocked \<Longrightarrow>
    work_step s (writer_at t Idle (if q_open s then s\<lparr>q_counter := q_counter s + 1\<rparr> else s\<lparr>q_late := q_late s + 1\<rparr>))"
| loop_wakes: "q_encoder s = Waiting \<Longrightarrow> 0 < q_counter s \<Longrightarrow> work_step s (encoder_at Woken (s\<lparr>q_counter := 0\<rparr>))"
| loop_locks: "q_encoder s = Woken \<Longrightarrow> q_lock s = None \<Longrightarrow>
    work_step s (encoder_at Splicing (s\<lparr>q_lock := Some EncoderLoop\<rparr>))"
| loop_splices: "q_encoder s = Splicing \<Longrightarrow> work_step s (encoder_at (Spliced (q_pending s)) (s\<lparr>q_pending := []\<rparr>))"
| loop_unlocks: "q_encoder s = Spliced its \<Longrightarrow> work_step s (encoder_at (Draining its its) (s\<lparr>q_lock := None\<rparr>))"
| loop_requests: "q_encoder s = Draining its (i # rest) \<Longrightarrow> q_lock s = None \<Longrightarrow>
    work_step s (encoder_at (Receiving its (i # rest)) (s\<lparr>q_lock := Some EncoderLoop\<rparr>))"
| codec_is_empty: "q_encoder s = Receiving its (i # rest) \<Longrightarrow>
    work_step s (encoder_at (Draining its rest) (s\<lparr>q_lock := None\<rparr>))"
| items_return: "q_encoder s = Draining its [] \<Longrightarrow> work_step s (round_over its False s)"
| service_ends: "q_encoder s = LoopLeft \<Longrightarrow> work_step s (encoder_at Woken (s\<lparr>q_open := False\<rparr>))"

text \<open>
  What the outside makes them do: a picture is taken from the pool or given up, the codec has a
  packet or a round throws, the writers are over, the loop is asked to stop.
\<close>

inductive outside_step :: "queue_state \<Rightarrow> queue_state \<Rightarrow> bool" where
  item_taken: "q_writers s t = Idle \<Longrightarrow> \<not> q_closed s \<Longrightarrow> outside_step s (writer_at t (HasItem i) s)"
| item_given_up: "q_writers s t = HasItem i \<Longrightarrow> outside_step s (writer_at t Idle s)"
| packet_received: "q_encoder s = Receiving its rest \<Longrightarrow>
    outside_step s (encoder_at (Draining its rest) (s\<lparr>q_lock := None\<rparr>))"
| round_throws: "q_encoder s = Draining its rest \<Longrightarrow> outside_step s (round_over its True s)"
| writers_over: "(\<And>t. q_writers s t = Idle) \<Longrightarrow> outside_step s (s\<lparr>q_closed := True\<rparr>)"
| loop_stops: "q_encoder s = Waiting \<Longrightarrow> q_closed s \<Longrightarrow> outside_step s (encoder_at LoopLeft s)"

inductive queue_reachable :: "queue_state \<Rightarrow> bool" where
  initially: "queue_reachable queue_start"
| works: "queue_reachable s \<Longrightarrow> work_step s s' \<Longrightarrow> queue_reachable s'"
| outside: "queue_reachable s \<Longrightarrow> outside_step s s' \<Longrightarrow> queue_reachable s'"

inductive_cases work_stepE: "work_step s s'"
inductive_cases outside_stepE: "outside_step s s'"

lemmas step_defs = writer_at_def encoder_at_def round_over_def

section \<open>The lock\<close>

fun has_lock :: "writer_pc \<Rightarrow> bool" where
  "has_lock (InLock i) = True"
| "has_lock Pushed = True"
| "has_lock _ = False"

fun loop_has_lock :: "encoder_pc \<Rightarrow> bool" where
  "loop_has_lock Splicing = True"
| "loop_has_lock (Spliced its) = True"
| "loop_has_lock (Receiving its rest) = True"
| "loop_has_lock _ = False"

definition lock_held :: "queue_state \<Rightarrow> bool" where
  "lock_held s \<longleftrightarrow> (\<forall>t. q_lock s = Some (Writer t) \<longleftrightarrow> has_lock (q_writers s t)) \<and>
     (q_lock s = Some EncoderLoop \<longleftrightarrow> loop_has_lock (q_encoder s))"

lemma lock_of_writer: "lock_held s \<Longrightarrow> has_lock (q_writers s t) \<Longrightarrow> q_lock s = Some (Writer t)"
  by (simp add: lock_held_def)

lemma lock_work:
  assumes "work_step s s'" "lock_held s" shows "lock_held s'"
  using assms(1)
proof cases
  case (writer_pushes t i)
  with lock_of_writer [OF assms(2), of t] assms(2) show ?thesis by (auto simp: lock_held_def step_defs)
next
  case (writer_unlocks t)
  with lock_of_writer [OF assms(2), of t] assms(2) show ?thesis by (auto simp: lock_held_def step_defs)
qed (use assms(2) in \<open>auto simp: lock_held_def step_defs\<close>)

lemma lock_outside: "outside_step s s' \<Longrightarrow> lock_held s \<Longrightarrow> lock_held s'"
  by (erule outside_stepE) (auto simp: lock_held_def step_defs)

section \<open>The items\<close>

text \<open>The items of the round that is going on.\<close>

fun round_of :: "encoder_pc \<Rightarrow> nat list" where
  "round_of (Spliced its) = its"
| "round_of (Draining its rest) = its"
| "round_of (Receiving its rest) = its"
| "round_of _ = []"

definition in_order :: "queue_state \<Rightarrow> bool" where
  "in_order s \<longleftrightarrow> q_pushed s = q_returned s @ round_of (q_encoder s) @ q_pending s \<and>
     (\<forall>its. q_encoder s \<noteq> Receiving its [])"

lemma order_work: "work_step s s' \<Longrightarrow> in_order s \<Longrightarrow> in_order s'"
  by (erule work_stepE) (auto simp: in_order_def step_defs)

lemma order_outside: "outside_step s s' \<Longrightarrow> in_order s \<Longrightarrow> in_order s'"
  by (erule outside_stepE) (auto simp: in_order_def step_defs)

section \<open>Wake-ups and the end\<close>

text \<open>
  Whatever was pushed after the queue was last taken over has its notification, or gets it: the
  loop does not sleep over an item.
\<close>

fun notifying :: "writer_pc \<Rightarrow> bool" where
  "notifying Pushed = True"
| "notifying Unlocked = True"
| "notifying _ = False"

lemma notifying_update:
  "\<not> notifying (f t) \<Longrightarrow> (\<exists>u. notifying ((f(t := p)) u)) \<longleftrightarrow> notifying p \<or> (\<exists>u. notifying (f u))"
  "notifying p \<Longrightarrow> \<exists>u. notifying ((f(t := p)) u)"
  by (metis fun_upd_apply)+

definition awake :: "queue_state \<Rightarrow> bool" where
  "awake s \<longleftrightarrow> (q_open s \<longrightarrow> q_encoder s \<noteq> Woken \<longrightarrow> q_encoder s \<noteq> Splicing \<longrightarrow> q_pending s \<noteq> [] \<longrightarrow>
     0 < q_counter s \<or> (\<exists>t. notifying (q_writers s t))) \<and>
     (q_encoder s = Waiting \<or> q_encoder s = LoopLeft \<longrightarrow> q_open s)"

lemma awake_work:
  assumes "work_step s s'" "awake s" shows "awake s'"
  using assms(1) by cases (use assms(2) in \<open>auto simp: awake_def step_defs notifying_update simp del: fun_upd_apply\<close>)

lemma awake_outside:
  assumes "outside_step s s'" "awake s" shows "awake s'"
  using assms(1) by cases (use assms(2) in \<open>auto simp: awake_def step_defs notifying_update simp del: fun_upd_apply\<close>)

text \<open>
  Nobody writes after the writers are over; without a failure the loop ends only then, the last
  round takes everything, and no notification comes too late.
\<close>

fun after_splice :: "encoder_pc \<Rightarrow> bool" where
  "after_splice (Spliced its) = True"
| "after_splice (Draining its rest) = True"
| "after_splice (Receiving its rest) = True"
| "after_splice Finished = True"
| "after_splice _ = False"

definition ends_well :: "queue_state \<Rightarrow> bool" where
  "ends_well s \<longleftrightarrow> (q_closed s \<longrightarrow> (\<forall>t. q_writers s t = Idle)) \<and> (q_encoder s = Finished \<longrightarrow> \<not> q_open s) \<and>
     (\<not> q_failed s \<longrightarrow> (\<not> q_open s \<or> q_encoder s = LoopLeft \<longrightarrow> q_closed s) \<and>
       (\<not> q_open s \<longrightarrow> after_splice (q_encoder s) \<longrightarrow> q_pending s = []) \<and> q_late s = 0)"

lemma ends_well_work:
  assumes "work_step s s'" "ends_well s" shows "ends_well s'"
  using assms(1) by cases (use assms(2) in \<open>auto simp: ends_well_def step_defs\<close>)

lemma ends_well_outside:
  assumes "outside_step s s'" "ends_well s" shows "ends_well s'"
  using assms(1) by cases (use assms(2) in \<open>auto simp: ends_well_def step_defs\<close>)

text \<open>Together, for every state that is reached; only finitely many threads are at work.\<close>

definition queue_inv :: "queue_state \<Rightarrow> bool" where
  "queue_inv s \<longleftrightarrow> lock_held s \<and> in_order s \<and> awake s \<and> ends_well s \<and> finite {t. q_writers s t \<noteq> Idle}"

lemma finite_update: "finite {t. f t \<noteq> z} \<Longrightarrow> finite {t. (f(u := x)) t \<noteq> z}"
  by (rule finite_subset [of _ "insert u {t. f t \<noteq> z}"]) auto

lemma writers_finite:
  "work_step s s' \<Longrightarrow> finite {t. q_writers s t \<noteq> Idle} \<Longrightarrow> finite {t. q_writers s' t \<noteq> Idle}"
  "outside_step s s' \<Longrightarrow> finite {t. q_writers s t \<noteq> Idle} \<Longrightarrow> finite {t. q_writers s' t \<noteq> Idle}"
  by (erule work_stepE; simp only: step_defs; simp add: finite_update del: fun_upd_apply)
    (erule outside_stepE; simp only: step_defs; simp add: finite_update del: fun_upd_apply)

lemma queue_inv_reachable: "queue_reachable s \<Longrightarrow> queue_inv s"
proof (induction rule: queue_reachable.induct)
  case initially
  show ?case
    by (simp add: queue_inv_def queue_start_def lock_held_def in_order_def awake_def ends_well_def)
next
  case (works s s')
  then show ?case
    unfolding queue_inv_def using lock_work order_work awake_work ends_well_work writers_finite(1) by blast
next
  case (outside s s')
  then show ?case
    unfolding queue_inv_def using lock_outside order_outside awake_outside ends_well_outside writers_finite(2) by blast
qed

section \<open>Progress\<close>

text \<open>A state in which no thread can go on by itself has nothing left to do.\<close>

lemma work_free_lock:
  assumes "lock_held s" "in_order s" "\<nexists>s'. work_step s s'"
  shows "q_lock s = None"
proof (cases "q_lock s")
  case (Some w)
  show ?thesis
  proof (cases w)
    case (Writer t)
    with Some assms(1) have "has_lock (q_writers s t)" unfolding lock_held_def by blast
    then show ?thesis using assms(3) writer_pushes writer_unlocks
      by (cases "q_writers s t" rule: has_lock.cases) (auto, metis+)
  next
    case EncoderLoop
    with Some assms(1) have "loop_has_lock (q_encoder s)" by (simp add: lock_held_def)
    then show ?thesis
    proof (cases "q_encoder s" rule: loop_has_lock.cases)
      case (3 its rest)
      with assms(2) obtain i rest' where "q_encoder s = Receiving its (i # rest')"
        by (cases rest) (auto simp: in_order_def)
      with assms(3) codec_is_empty show ?thesis by blast
    next
      case 1
      with assms(3) loop_splices show ?thesis by blast
    next
      case (2 its)
      with assms(3) loop_unlocks show ?thesis by blast
    qed simp_all
  qed
qed

lemma work_idle_writers:
  assumes "q_lock s = None" "\<nexists>s'. work_step s s'"
  shows "q_writers s t = Idle"
  using assms writer_locks writer_pushes writer_unlocks writer_notifies by (cases "q_writers s t") metis+

lemma no_work_left:
  assumes "queue_inv s" "\<nexists>s'. work_step s s'"
  shows "(q_encoder s = Waiting \<or> q_encoder s = Finished) \<and> (\<forall>t. q_writers s t = Idle) \<and>
    (q_encoder s = Waiting \<or> \<not> q_failed s \<longrightarrow> q_returned s = q_pushed s)"
proof -
  have inv: "lock_held s" "in_order s" "awake s" "ends_well s" using assms(1) by (auto simp: queue_inv_def)
  have lock: "q_lock s = None" by (rule work_free_lock [OF inv(1,2) assms(2)])
  have idle: "q_writers s t = Idle" for t by (rule work_idle_writers [OF lock assms(2)])
  have enc: "q_encoder s = Waiting \<or> q_encoder s = Finished"
  proof (cases "q_encoder s")
    case (Draining its rest)
    then show ?thesis using assms(2) lock loop_requests items_return by (cases rest) metis+
  next
    case Woken
    then show ?thesis using assms(2) lock loop_locks by metis
  next
    case LoopLeft
    then show ?thesis using assms(2) service_ends by metis
  qed (use lock inv(1) in \<open>auto simp: lock_held_def\<close>)
  have "q_pending s = []" if waiting: "q_encoder s = Waiting"
  proof -
    have "\<not> 0 < q_counter s" using assms(2) loop_wakes [OF waiting] by blast
    then show ?thesis using inv(3) waiting idle by (auto simp: awake_def)
  qed
  moreover have "q_pending s = []" if "q_encoder s = Finished" "\<not> q_failed s"
    using inv(4) that by (auto simp: ends_well_def)
  ultimately have "q_pending s = []" if "q_encoder s = Waiting \<or> \<not> q_failed s" using that enc by blast
  then show ?thesis using enc idle inv(2) by (auto simp: in_order_def)
qed

text \<open>What is left to do, which every step of a thread makes less.\<close>

fun writer_work :: "writer_pc \<Rightarrow> nat" where
  "writer_work Idle = 0"
| "writer_work (HasItem i) = 13"
| "writer_work (InLock i) = 12"
| "writer_work Pushed = 9"
| "writer_work Unlocked = 8"

fun loop_work :: "encoder_pc \<Rightarrow> nat" where
  "loop_work Waiting = 0"
| "loop_work Woken = 6"
| "loop_work Splicing = 5"
| "loop_work (Spliced its) = 4 + 2 * length its"
| "loop_work (Draining its rest) = 3 + 2 * length rest"
| "loop_work (Receiving its rest) = 2 + 2 * length rest"
| "loop_work LoopLeft = 7"
| "loop_work Finished = 0"

definition work_left :: "queue_state \<Rightarrow> nat" where
  "work_left s = (\<Sum>t \<in> {t. q_writers s t \<noteq> Idle}. writer_work (q_writers s t)) + 2 * length (q_pending s) +
     7 * q_counter s + loop_work (q_encoder s)"

lemma sum_update:
  assumes "finite {t. f t \<noteq> Idle}" "writer_work p < writer_work (f u)"
  shows "(\<Sum>t \<in> {t. (f(u := p)) t \<noteq> Idle}. writer_work ((f(u := p)) t)) + writer_work (f u) =
    (\<Sum>t \<in> {t. f t \<noteq> Idle}. writer_work (f t)) + writer_work p"
proof -
  let ?T = "{t. f t \<noteq> Idle}"
  have u: "u \<in> ?T" using assms(2) by (cases "f u") auto
  have "(\<Sum>t \<in> {t. (f(u := p)) t \<noteq> Idle}. writer_work ((f(u := p)) t)) = (\<Sum>t \<in> ?T. writer_work ((f(u := p)) t))"
    by (rule sum.mono_neutral_left [OF assms(1)]) (use u in auto)
  also have "\<dots> = writer_work p + (\<Sum>t \<in> ?T - {u}. writer_work (f t))"
    using sum.remove [OF assms(1) u, of "\<lambda>t. writer_work ((f(u := p)) t)"] by simp
  finally show ?thesis using sum.remove [OF assms(1) u, of "\<lambda>t. writer_work (f t)"] by simp
qed

lemma work_decreases:
  assumes "work_step s s'" "finite {t. q_writers s t \<noteq> Idle}"
  shows "work_left s' < work_left s"
  using assms(1)
proof cases
  case (writer_locks t i)
  then show ?thesis using sum_update [OF assms(2), of "InLock i" t] by (simp add: work_left_def step_defs del: fun_upd_apply)
next
  case (writer_pushes t i)
  then show ?thesis using sum_update [OF assms(2), of Pushed t] by (simp add: work_left_def step_defs del: fun_upd_apply)
next
  case (writer_unlocks t)
  then show ?thesis using sum_update [OF assms(2), of Unlocked t] by (simp add: work_left_def step_defs del: fun_upd_apply)
next
  case (writer_notifies t)
  then show ?thesis using sum_update [OF assms(2), of Idle t] by (simp add: work_left_def step_defs del: fun_upd_apply)
qed (simp_all add: work_left_def step_defs)

lemma work_bounded: "(work_step ^^ n) s s' \<Longrightarrow> finite {t. q_writers s t \<noteq> Idle} \<Longrightarrow> n + work_left s' \<le> work_left s"
proof (induction n arbitrary: s')
  case (Suc n)
  then obtain s1 where s1: "(work_step ^^ n) s s1" "work_step s1 s'" by auto
  have "finite {t. q_writers s1 t \<noteq> Idle}"
    using s1(1) Suc.prems(2) by (induction n arbitrary: s1) (auto intro: writers_finite(1))
  with work_decreases [OF s1(2)] Suc.IH [OF s1(1) Suc.prems(2)] show ?case by simp
qed simp

section \<open>A run\<close>

text \<open>The states of a run in which one thread writes, and its steps.\<close>

definition one_writer ::
  "lock_owner option \<Rightarrow> nat list \<Rightarrow> nat \<Rightarrow> bool \<Rightarrow> writer_pc \<Rightarrow> encoder_pc \<Rightarrow> bool \<Rightarrow> nat list \<Rightarrow> nat list \<Rightarrow> nat \<Rightarrow> queue_state" where
  "one_writer l pending n opened w e failed pushed returned late = \<lparr>q_lock = l, q_pending = pending, q_counter = n,
     q_open = opened, q_writers = (\<lambda>_. Idle)(0 := w), q_encoder = e, q_closed = False, q_failed = failed,
     q_pushed = pushed, q_returned = returned, q_late = late\<rparr>"

lemma one_writer_start: "queue_start = one_writer None [] 0 True Idle Waiting False [] [] 0"
  by (auto simp: queue_start_def one_writer_def)

lemma one_writer_writes:
  assumes "queue_reachable (one_writer None ps n opened Idle e f pushed back late)"
  shows "queue_reachable (one_writer None (ps @ [i]) (if opened then n + 1 else n) opened Idle e f (pushed @ [i]) back
    (if opened then late else late + 1))"
proof -
  have "queue_reachable (one_writer None ps n opened (HasItem i) e f pushed back late)"
    using outside [OF assms item_taken [where t = 0 and i = i]] by (simp add: one_writer_def step_defs)
  from works [OF this writer_locks [where t = 0 and i = i]]
  have "queue_reachable (one_writer (Some (Writer 0)) ps n opened (InLock i) e f pushed back late)"
    by (simp add: one_writer_def step_defs)
  from works [OF this writer_pushes [where t = 0 and i = i]]
  have "queue_reachable (one_writer (Some (Writer 0)) (ps @ [i]) n opened Pushed e f (pushed @ [i]) back late)"
    by (simp add: one_writer_def step_defs)
  from works [OF this writer_unlocks [where t = 0]]
  have "queue_reachable (one_writer None (ps @ [i]) n opened Unlocked e f (pushed @ [i]) back late)"
    by (simp add: one_writer_def step_defs)
  from works [OF this writer_notifies [where t = 0]] show ?thesis
    by (cases opened) (simp_all add: one_writer_def step_defs)
qed

lemma one_writer_takes_over:
  assumes "queue_reachable (one_writer None ps n opened w Woken f pushed back late)"
  shows "queue_reachable (one_writer None [] n opened w (Draining ps ps) f pushed back late)"
proof -
  from works [OF assms loop_locks]
  have "queue_reachable (one_writer (Some EncoderLoop) ps n opened w Splicing f pushed back late)"
    by (simp add: one_writer_def step_defs)
  from works [OF this loop_splices]
  have "queue_reachable (one_writer (Some EncoderLoop) [] n opened w (Spliced ps) f pushed back late)"
    by (simp add: one_writer_def step_defs)
  from works [OF this loop_unlocks] show ?thesis by (simp add: one_writer_def step_defs)
qed

text \<open>A whole round over one item, and the rest after it.\<close>

lemma one_writer_round:
  "(work_step ^^ 7) (one_writer None [5] 1 True Idle Waiting False [5] [] 0)
     (one_writer None [] 0 True Idle Waiting False [5] [5] 0)"
proof -
  let ?at = "\<lambda>l ps n e r. one_writer l ps n True Idle e False [5] r 0"
  have "work_step (?at None [5] 1 Waiting []) (?at None [5] 0 Woken [])"
    using loop_wakes [of "?at None [5] 1 Waiting []"] by (simp add: one_writer_def step_defs)
  moreover have "work_step (?at None [5] 0 Woken []) (?at (Some EncoderLoop) [5] 0 Splicing [])"
    using loop_locks [of "?at None [5] 0 Woken []"] by (simp add: one_writer_def step_defs)
  moreover have "work_step (?at (Some EncoderLoop) [5] 0 Splicing []) (?at (Some EncoderLoop) [] 0 (Spliced [5]) [])"
    using loop_splices [of "?at (Some EncoderLoop) [5] 0 Splicing []"] by (simp add: one_writer_def step_defs)
  moreover have "work_step (?at (Some EncoderLoop) [] 0 (Spliced [5]) []) (?at None [] 0 (Draining [5] [5]) [])"
    using loop_unlocks [of "?at (Some EncoderLoop) [] 0 (Spliced [5]) []" "[5]"] by (simp add: one_writer_def step_defs)
  moreover have "work_step (?at None [] 0 (Draining [5] [5]) []) (?at (Some EncoderLoop) [] 0 (Receiving [5] [5]) [])"
    using loop_requests [of "?at None [] 0 (Draining [5] [5]) []" "[5]" 5 "[]"] by (simp add: one_writer_def step_defs)
  moreover have "work_step (?at (Some EncoderLoop) [] 0 (Receiving [5] [5]) []) (?at None [] 0 (Draining [5] []) [])"
    using codec_is_empty [of "?at (Some EncoderLoop) [] 0 (Receiving [5] [5]) []" "[5]" 5 "[]"]
    by (simp add: one_writer_def step_defs)
  moreover have "work_step (?at None [] 0 (Draining [5] []) []) (?at None [] 0 Waiting [5])"
    using items_return [of "?at None [] 0 (Draining [5] []) []" "[5]"] by (simp add: one_writer_def step_defs)
  ultimately have "(work_step ^^ Suc (Suc (Suc (Suc (Suc (Suc (Suc 0))))))) (?at None [5] 1 Waiting []) (?at None [] 0 Waiting [5])"
    by (intro relpowp_Suc_I) (rule relpowp_0_I | assumption)+
  then show ?thesis by (simp add: eval_nat_numeral)
qed

lemma one_writer_rests: "\<nexists>s'. work_step (one_writer None [] 0 True Idle Waiting False [5] [5] 0) s'"
  by (auto simp: one_writer_def elim!: work_stepE split: if_splits)

lemma late_write_reached:
  "queue_reachable (one_writer None [8] 0 False Idle Finished True [5, 8] [5] 1)"
proof -
  have "queue_reachable (one_writer None [5] 1 True Idle Waiting False [5] [] 0)"
    using one_writer_writes [of "[]" 0 True Waiting False "[]" "[]" 0 5] initially by (simp add: one_writer_start)
  from works [OF this loop_wakes] have "queue_reachable (one_writer None [5] 0 True Idle Woken False [5] [] 0)"
    by (simp add: one_writer_def step_defs)
  from outside [OF one_writer_takes_over [OF this] round_throws]
  have "queue_reachable (one_writer None [] 0 True Idle LoopLeft True [5] [5] 0)"
    by (simp add: one_writer_def step_defs)
  from works [OF this service_ends] have "queue_reachable (one_writer None [] 0 False Idle Woken True [5] [5] 0)"
    by (simp add: one_writer_def step_defs)
  from works [OF one_writer_takes_over [OF this] items_return]
  have "queue_reachable (one_writer None [] 0 False Idle Finished True [5] [5] 0)"
    by (simp add: one_writer_def step_defs)
  from one_writer_writes [OF this, of 8] show ?thesis by simp
qed

section \<open>Properties\<close>



text \<open>
  (C40) A failure in the loop leaves the other threads writing. When a round throws, the loop ends and
  the service is taken down while the writers go on: there is a run that ends with an item in the
  queue that nobody will ever give back, after its writer has notified a descriptor that was closed.
\<close>

theorem late_writer_after_failure:
  "\<exists>s. queue_reachable s \<and> (\<nexists>s'. work_step s s') \<and> q_encoder s = Finished \<and> q_pending s = [8] \<and>
     8 \<notin> set (q_returned s) \<and> q_late s = 1"
proof -
  let ?s = "one_writer None [8] 0 False Idle Finished True [5, 8] [5] 1"
  have "\<nexists>s'. work_step ?s s'"
    by (auto simp: one_writer_def elim!: work_stepE split: if_splits)
  then show ?thesis using late_write_reached by (intro exI [of _ ?s]) (simp add: one_writer_def)
qed

end
