(* ===== verification/Wiring.thy ===== *)
theory Wiring
  imports Readiness "HOL-Library.AList"
begin

text \<open>
  How \<open>run\<close>, \<open>run_wayland\<close> and \<open>run_loop\<close> of \<open>src/main.cpp\<close> put the services into the registries of
  the three contexts and attach the listeners, on the registry of theory Readiness. A registry keeps
  pointers to the base class; what is taken out of it is cast to the type it is asked for, and used
  without a check of the pointer.
\<close>

section \<open>Services by type\<close>

datatype service_type = TSignal | TAudio | TVideo | TDRMVideo | TEncoder

datatype attached = SigintHandler | ChunkListener | StreamEndListener | FrameHandler | DRMFrameHandler

record wired =
  w_type :: service_type
  w_listeners :: "attached list"

definition new_wired :: "service_type \<Rightarrow> wired" where
  "new_wired T = \<lparr>w_type = T, w_listeners = []\<rparr>"

text \<open>
  \<open>service_id<T>\<close>: each type draws its number from the counter once, in the order in which the
  program initialises them, which is not specified.
\<close>

fun number_services :: "size_t \<Rightarrow> service_type list \<Rightarrow> (service_type \<times> nat) list" where
  "number_services counter [] = []"
| "number_services counter (T # Ts) = (case service_id_impl counter of (i, counter') \<Rightarrow>
     (T, unat i) # number_services counter' Ts)"

definition service_id :: "service_type list \<Rightarrow> service_type \<Rightarrow> nat" where
  "service_id order T = the (map_of (number_services 1 order) T)"

section \<open>The registries\<close>

datatype context_name = MainContext | MediaContext | AudioContext

type_synonym registries = "context_name \<Rightarrow> wired registry"

text \<open>\<open>None\<close>: a failed assertion, a null pointer, or a cast to a type that the service is not of.\<close>

type_synonym wiring = "registries \<Rightarrow> ((exn + unit) \<times> registries) option"

definition new_contexts :: registries where
  "new_contexts = (\<lambda>_. \<lparr>services = [], lock_flag = False\<rparr>)"

fun in_sequence :: "wiring list \<Rightarrow> wiring" where
  "in_sequence [] regs = Some (Inr (), regs)"
| "in_sequence (p # ps) regs = (case p regs of
       None \<Rightarrow> None
     | Some (Inl e, regs') \<Rightarrow> Some (Inl e, regs')
     | Some (Inr _, regs') \<Rightarrow> in_sequence ps regs')"

text \<open>Services are constructed as arguments of \<open>add\<close> or in the factory; either may throw.\<close>

definition add_service :: "(service_type \<Rightarrow> nat) \<Rightarrow> exn option \<Rightarrow> context_name \<Rightarrow> service_type \<Rightarrow> wiring" where
  "add_service ids made c T regs = (case made of
       Some e \<Rightarrow> Some (Inl e, regs)
     | None \<Rightarrow> (case registry_add (ids T) (new_wired T) (regs c) of
           None \<Rightarrow> None
         | Some reg \<Rightarrow> Some (Inr (), regs(c := reg))))"

definition add_made_service :: "(service_type \<Rightarrow> nat) \<Rightarrow> exn option \<Rightarrow> context_name \<Rightarrow> service_type \<Rightarrow> wiring" where
  "add_made_service ids made c T regs =
     (case add_from_factory (ids T) (case made of Some e \<Rightarrow> Inl e | None \<Rightarrow> Inr (new_wired T)) (regs c) of
        None \<Rightarrow> None
      | Some (r, reg) \<Rightarrow> Some (r, regs(c := reg)))"

definition with_service :: "(service_type \<Rightarrow> nat) \<Rightarrow> context_name \<Rightarrow> service_type \<Rightarrow> (wired \<Rightarrow> wired) \<Rightarrow> wiring" where
  "with_service ids c T f regs = (case use_if (ids T) (regs c) of
       None \<Rightarrow> None
     | Some svc \<Rightarrow> if w_type svc \<noteq> T then None
         else Some (Inr (), regs(c := (regs c)\<lparr>services := AList.update (ids T) (f svc) (services (regs c))\<rparr>)))"

definition listen_with :: "attached \<Rightarrow> wired \<Rightarrow> wired" where
  "listen_with l svc = svc\<lparr>w_listeners := List.insert l (w_listeners svc)\<rparr>"

section \<open>The helpers of \<open>main.cpp\<close>\<close>

text \<open>Blocking the signal may throw before the handler is stored.\<close>

definition main_add_signal_handler :: "(service_type \<Rightarrow> nat) \<Rightarrow> exn option \<Rightarrow> context_name \<Rightarrow> wiring" where
  "main_add_signal_handler ids blocked c regs = (case blocked of
       None \<Rightarrow> with_service ids c TSignal (listen_with SigintHandler) regs
     | Some e \<Rightarrow> (case with_service ids c TSignal (\<lambda>svc. svc) regs of
           None \<Rightarrow> None
         | Some (_, regs') \<Rightarrow> Some (Inl e, regs')))"

definition set_audio_chunk_handler :: "(service_type \<Rightarrow> nat) \<Rightarrow> context_name \<Rightarrow> wiring" where
  "set_audio_chunk_handler ids c = with_service ids c TAudio (listen_with ChunkListener)"

definition set_stream_end_handler :: "(service_type \<Rightarrow> nat) \<Rightarrow> context_name \<Rightarrow> wiring" where
  "set_stream_end_handler ids c = with_service ids c TAudio (listen_with StreamEndListener)"

definition set_video_frame_handler :: "(service_type \<Rightarrow> nat) \<Rightarrow> context_name \<Rightarrow> wiring" where
  "set_video_frame_handler ids c = with_service ids c TVideo (listen_with FrameHandler)"

definition set_drm_video_frame_handler :: "(service_type \<Rightarrow> nat) \<Rightarrow> context_name \<Rightarrow> wiring" where
  "set_drm_video_frame_handler ids c = with_service ids c TDRMVideo (listen_with DRMFrameHandler)"

text \<open>\<open>Encoder media_writer { media_ctx }\<close>: the handle expects the service.\<close>

definition encoder_of :: "(service_type \<Rightarrow> nat) \<Rightarrow> context_name \<Rightarrow> wiring" where
  "encoder_of ids c = with_service ids c TEncoder (\<lambda>svc. svc)"

section \<open>The wiring of a recording\<close>

text \<open>What constructing the services answers, and blocking the signal (twice each for the first).\<close>

record set_up =
  made :: "service_type \<Rightarrow> exn option"
  made_again :: "exn option"
  blocked :: "exn option"
  blocked_again :: "exn option"

definition wire_wayland :: "(service_type \<Rightarrow> nat) \<Rightarrow> set_up \<Rightarrow> wiring" where
  "wire_wayland ids u = in_sequence
     [add_service ids (made u TSignal) MainContext TSignal,
      main_add_signal_handler ids (blocked u) MainContext,
      add_made_service ids (made u TAudio) AudioContext TAudio,
      add_made_service ids (made u TDRMVideo) MainContext TDRMVideo,
      add_made_service ids (made u TEncoder) MediaContext TEncoder,
      encoder_of ids MediaContext,
      set_audio_chunk_handler ids AudioContext,
      set_drm_video_frame_handler ids MainContext]"

definition wire_x11 :: "(service_type \<Rightarrow> nat) \<Rightarrow> set_up \<Rightarrow> wiring" where
  "wire_x11 ids u = in_sequence
     [add_service ids (made u TSignal) MainContext TSignal,
      main_add_signal_handler ids (blocked u) MainContext,
      add_made_service ids (made u TAudio) AudioContext TAudio,
      add_made_service ids (made u TVideo) MainContext TVideo,
      add_made_service ids (made u TEncoder) MediaContext TEncoder,
      encoder_of ids MediaContext,
      set_audio_chunk_handler ids AudioContext,
      set_video_frame_handler ids MainContext]"

text \<open>\<open>run_loop\<close> makes its own handle, adds the service again, and the handler again.\<close>

definition wire_run_loop :: "(service_type \<Rightarrow> nat) \<Rightarrow> set_up \<Rightarrow> wiring" where
  "wire_run_loop ids u = in_sequence
     [encoder_of ids MediaContext,
      add_service ids (made_again u) MainContext TSignal,
      main_add_signal_handler ids (blocked_again u) MainContext]"

section \<open>Numbers of services\<close>

lemma number_services_from:
  "unat c + length Ts < 2 ^ 64 \<Longrightarrow> number_services c Ts = zip Ts [unat c ..< unat c + length Ts]"
proof (induction Ts arbitrary: c)
  case (Cons T Ts)
  have "unat (c + 1) = unat c + 1"
    using Cons.prems by (simp add: unat_word_ariths)
  with Cons show ?case by (simp add: service_id_impl_def upt_rec)
qed simp

text \<open>Every type is numbered, each by a number of its own.\<close>

definition numbered :: "service_type list \<Rightarrow> bool" where
  "numbered order \<longleftrightarrow> distinct order \<and> set order = UNIV"

lemma service_types: "(UNIV :: service_type set) = {TSignal, TAudio, TVideo, TDRMVideo, TEncoder}"
  using service_type.exhaust by auto

lemma numbered_length: "numbered order \<Longrightarrow> length order = 5"
  using distinct_card [of order] unfolding numbered_def service_types by simp

lemma service_id_inj:
  assumes "numbered order"
  shows "inj (service_id order)"
proof (rule injI)
  fix S T assume same: "service_id order S = service_id order T"
  have ns: "number_services 1 order = zip order [1..<6]"
    using number_services_from [of 1 order] numbered_length [OF assms] by simp
  have "\<exists>i. map_of (number_services 1 order) S = Some i" for S
    unfolding ns using assms numbered_length [OF assms] map_of_zip_is_Some [of order "[1..<6]" S]
    by (simp add: numbered_def)
  then obtain i j where "map_of (zip order [1..<6]) S = Some i" "map_of (zip order [1..<6]) T = Some j"
    unfolding ns by blast
  moreover from this same have "i = j" by (simp add: service_id_def ns)
  ultimately show "S = T"
    using numbered_length [OF assms] by (auto dest!: map_of_SomeD simp: in_set_zip nth_eq_iff_index_eq)
qed

section \<open>Registries hold what their numbers say\<close>

definition typed :: "(service_type \<Rightarrow> nat) \<Rightarrow> registries \<Rightarrow> bool" where
  "typed ids regs \<longleftrightarrow> (\<forall>c. \<not> lock_flag (regs c) \<and>
     (\<forall>i svc. use_if i (regs c) = Some svc \<longrightarrow> i = ids (w_type svc)))"

lemmas wiring_defs = add_service_def add_made_service_def with_service_def add_from_factory_def registry_add_def
  registry_lock_def registry_unlock_def use_if_def new_wired_def listen_with_def emplace_def
  main_add_signal_handler_def set_audio_chunk_handler_def set_video_frame_handler_def set_drm_video_frame_handler_def
  encoder_of_def new_contexts_def

lemma ids_differ:
  assumes "inj (ids :: service_type \<Rightarrow> nat)" "S \<noteq> T"
  shows "ids S \<noteq> ids T"
  using assms by (auto dest: injD)

text \<open>The registries when everything is in place.\<close>

definition wired_contexts :: "(service_type \<Rightarrow> nat) \<Rightarrow> service_type \<Rightarrow> attached \<Rightarrow> registries" where
  "wired_contexts ids video l = new_contexts(
     MainContext := \<lparr>services = [(ids TSignal, \<lparr>w_type = TSignal, w_listeners = [SigintHandler]\<rparr>),
       (ids video, \<lparr>w_type = video, w_listeners = [l]\<rparr>)], lock_flag = False\<rparr>,
     AudioContext := \<lparr>services = [(ids TAudio, \<lparr>w_type = TAudio, w_listeners = [ChunkListener]\<rparr>)], lock_flag = False\<rparr>,
     MediaContext := \<lparr>services = [(ids TEncoder, \<lparr>w_type = TEncoder, w_listeners = []\<rparr>)], lock_flag = False\<rparr>)"

text \<open>The first of several steps that throws decides.\<close>

fun first_failure :: "exn option list \<Rightarrow> exn + unit" where
  "first_failure [] = Inr ()"
| "first_failure (None # es) = first_failure es"
| "first_failure (Some e # es) = Inl e"

text \<open>A set-up as it should be: defined, well typed, and complete unless something failed.\<close>

definition well_wired ::
  "(service_type \<Rightarrow> nat) \<Rightarrow> set_up \<Rightarrow> service_type \<Rightarrow> attached \<Rightarrow> ((exn + unit) \<times> registries) option \<Rightarrow> bool" where
  "well_wired ids u video l result = (case result of
       None \<Rightarrow> False
     | Some (r, regs) \<Rightarrow> typed ids regs \<and>
         r = first_failure [made u TSignal, blocked u, made u TAudio, made u video, made u TEncoder] \<and>
         (r = Inr () \<longrightarrow> regs = wired_contexts ids video l))"

lemma wire_x11_well_wired:
  assumes "inj ids"
  shows "well_wired ids u TVideo FrameHandler (wire_x11 ids u new_contexts)"
  using ids_differ [OF assms]
  by (cases "made u TSignal"; cases "blocked u"; cases "made u TAudio"; cases "made u TVideo"; cases "made u TEncoder")
    (simp_all add: wire_x11_def wiring_defs typed_def fun_eq_iff wired_contexts_def well_wired_def)

lemma wire_wayland_well_wired:
  assumes "inj ids"
  shows "well_wired ids u TDRMVideo DRMFrameHandler (wire_wayland ids u new_contexts)"
  using ids_differ [OF assms]
  by (cases "made u TSignal"; cases "blocked u"; cases "made u TAudio"; cases "made u TDRMVideo"; cases "made u TEncoder")
    (simp_all add: wire_wayland_def wiring_defs typed_def fun_eq_iff wired_contexts_def well_wired_def)

lemma wire_run_loop_keeps:
  assumes "inj ids"
  shows "wire_run_loop ids u (wired_contexts ids video l) =
    Some (first_failure [made_again u, blocked_again u], wired_contexts ids video l)"
  using ids_differ [OF assms]
  by (cases "made_again u"; cases "blocked_again u")
    (simp_all add: wire_run_loop_def wiring_defs fun_eq_iff wired_contexts_def)

section \<open>Properties\<close>

text \<open>
  (C8) The services are wired as the contexts use them. In whatever order the types get their numbers
  and whatever fails, the set-up of a recording takes no lock that is held, uses no null pointer, and
  casts every service to the type it has; it throws what the first failure throws. When nothing
  fails the main context has the signal service with the handler of SIGINT and the capture service
  with its writer, the audio context its service with its writer, the media context the encoder
  service; and \<open>run_loop\<close>, which adds the signal service and the handler again, leaves all as it is.
\<close>

theorem services_are_wired:
  assumes "numbered order" "ids = service_id order"
  shows "well_wired ids u TVideo FrameHandler (wire_x11 ids u new_contexts) \<and>
    well_wired ids u TDRMVideo DRMFrameHandler (wire_wayland ids u new_contexts) \<and>
    wire_run_loop ids u (wired_contexts ids video l) =
      Some (first_failure [made_again u, blocked_again u], wired_contexts ids video l)"
  using wire_x11_well_wired wire_wayland_well_wired wire_run_loop_keeps service_id_inj [OF assms(1)] assms(2) by simp

definition demo_order :: "service_type list" where
  "demo_order = [TEncoder, TSignal, TAudio, TVideo, TDRMVideo]"

definition demo_set_up :: set_up where
  "demo_set_up = \<lparr>made = (\<lambda>T. if T = TEncoder then Some BadAlloc else None), made_again = None, blocked = None, blocked_again = None\<rparr>"

theorem services_are_wired_witness:
  "well_wired (service_id demo_order) demo_set_up TVideo FrameHandler
     (wire_x11 (service_id demo_order) demo_set_up new_contexts) \<and>
   fst (the (wire_x11 (service_id demo_order) demo_set_up new_contexts)) = Inl BadAlloc"
proof -
  have "numbered demo_order" by (auto simp: numbered_def demo_order_def service_types)
  note wired = services_are_wired [OF this refl, of demo_set_up TVideo FrameHandler]
  then show ?thesis
    by (auto simp: well_wired_def demo_set_up_def split: option.splits)
qed

end
