(* ===== verification/Overrun.thy ===== *)
theory Overrun
  imports Audio
begin

text \<open>
  The audio service between its two threads: PipeWire's thread in \<open>on_process\<close> and the event loop
  in \<open>dispatch_chunks\<close> (\<open>src/services/audio_service.cpp\<close>), interleaved at the granularity of the
  mutex. \<open>on_process\<close> holds it once, \<open>dispatch_chunks\<close> once for each frame, so that callbacks come
  between the frames of one dispatch. Theory Audio has the same functions run alone.
\<close>

section \<open>Steps\<close>

text \<open>What the loop has taken from the counter and not yet handed out, beside the service itself.\<close>

record audio_run =
  serving :: audio_service
  rounds :: nat
  failed :: bool

text \<open>One round of the loop, with a listener that returns.\<close>

definition dispatch_round :: "audio_service \<Rightarrow> audio_service outcome" where
  "dispatch_round st =
     (if sample_count (a_input st) < a_frame_size st then Abort
      else (case consume_frame (a_format st) (a_frame_size st) (channel_buffers (a_input st)) of
          None \<Rightarrow> Abort
        | Some bufs \<Rightarrow> Ret (st\<lparr>a_input := (a_input st)\<lparr>channel_buffers := bufs,
            sample_count := sample_count (a_input st) - a_frame_size st\<rparr>\<rparr>)))"

lemma dispatch_loop_rounds:
  "listener (a_input st) l = Ret l' \<Longrightarrow>
   dispatch_loop listener (Suc n) st l = bind_out (dispatch_round st) (\<lambda>st'. dispatch_loop listener n st' l')"
  by (auto simp: dispatch_round_def split: option.splits)

inductive loop_step :: "audio_run \<Rightarrow> audio_run \<Rightarrow> bool" where
  dispatch_begins: "\<not> failed s \<Longrightarrow> rounds s = 0 \<Longrightarrow> 0 < a_event (serving s) \<Longrightarrow>
    loop_step s (s\<lparr>serving := (serving s)\<lparr>a_event := 0\<rparr>, rounds := a_event (serving s)\<rparr>)"
| frame_given: "\<not> failed s \<Longrightarrow> rounds s = Suc n \<Longrightarrow> dispatch_round (serving s) = Ret st \<Longrightarrow>
    loop_step s (s\<lparr>serving := st, rounds := n\<rparr>)"
| contract_fails: "\<not> failed s \<Longrightarrow> rounds s = Suc n \<Longrightarrow> dispatch_round (serving s) = Abort \<Longrightarrow>
    loop_step s (s\<lparr>failed := True\<rparr>)"

text \<open>A callback, unless it would overflow the 64 bits of the counter.\<close>

inductive callback_step :: "audio_run \<Rightarrow> audio_run \<Rightarrow> bool" where
  callback: "\<not> failed s \<Longrightarrow> on_process b (serving s) = Ret st \<Longrightarrow>
    a_event (serving s) + sample_count (a_input st) div a_frame_size st < 2 ^ 64 - 1 \<Longrightarrow>
    callback_step s (s\<lparr>serving := st\<rparr>)"

definition audio_step :: "audio_run \<Rightarrow> audio_run \<Rightarrow> bool" where
  "audio_step s t \<longleftrightarrow> loop_step s t \<or> callback_step s t"

inductive_cases loop_stepE: "loop_step s t"
inductive_cases callback_stepE: "callback_step s t"

section \<open>The surplus\<close>

text \<open>Frames announced, of the counter and of the dispatch that is going on, beyond those in the buffer.\<close>

definition surplus :: "audio_run \<Rightarrow> nat" where
  "surplus s = a_event (serving s) + rounds s - sample_count (a_input (serving s)) div a_frame_size (serving s)"

lemma on_process_counts:
  assumes "on_process b st = Ret st'"
  shows "a_frame_size st' = a_frame_size st"
    and "\<exists>n. sample_count (a_input st') = sample_count (a_input st) + n \<and> (n = 0 \<or> (\<exists>nb ds. b = Buffer nb ds))"
    and "(\<And>nb ds. b \<noteq> Buffer nb ds) \<Longrightarrow> a_event st' = a_event st"
    and "b = Buffer nb ds \<Longrightarrow> a_frame_size st \<le> sample_count (a_input st') \<Longrightarrow>
      a_event st + sample_count (a_input st') div a_frame_size st < 2 ^ 64 - 1 \<Longrightarrow>
      a_event st' = a_event st + sample_count (a_input st') div a_frame_size st"
    and "sample_count (a_input st') < a_frame_size st \<Longrightarrow> a_event st' = a_event st"
  using assms
  by (cases b; auto simp: on_process_def process_data_def requeue_def notify_def Let_def
      split: if_splits option.splits)+

text \<open>A callback with data that completes a frame announces all frames in the buffer once more.\<close>

lemma callback_surplus:
  assumes "on_process b (serving s) = Ret st"
    "a_event (serving s) + sample_count (a_input st) div a_frame_size st < 2 ^ 64 - 1"
  shows "surplus s \<le> surplus (s\<lparr>serving := st\<rparr>)"
    and "b = Buffer nb ds \<Longrightarrow> 0 < a_frame_size st \<Longrightarrow> a_frame_size st \<le> sample_count (a_input st) \<Longrightarrow>
      surplus (s\<lparr>serving := st\<rparr>) = a_event (serving s) + rounds s"
proof -
  note c = on_process_counts [OF assms(1)]
  show eq: "surplus (s\<lparr>serving := st\<rparr>) = a_event (serving s) + rounds s"
    if "b = Buffer nb ds" "0 < a_frame_size st" "a_frame_size st \<le> sample_count (a_input st)" for nb ds
    using c(1) c(4) [OF that(1)] that assms(2) by (simp add: surplus_def)
  show "surplus s \<le> surplus (s\<lparr>serving := st\<rparr>)"
  proof (cases "\<exists>nb ds. b = Buffer nb ds")
    case False
    then have "a_event st = a_event (serving s)" "sample_count (a_input st) = sample_count (a_input (serving s))"
      using c(2,3) by auto
    then show ?thesis using c(1) by (simp add: surplus_def)
  next
    case True
    then obtain nb ds where b: "b = Buffer nb ds" by blast
    consider "a_frame_size st = 0" | "0 < a_frame_size st" "a_frame_size st \<le> sample_count (a_input st)"
      | "sample_count (a_input st) < a_frame_size st" by linarith
    then show ?thesis
    proof cases
      case 1
      then show ?thesis using c(1) c(4) [OF b] assms(2) by (simp add: surplus_def)
    next
      case 2
      then show ?thesis using eq [OF b] by (simp add: surplus_def)
    next
      case 3
      then show ?thesis using c(1,2) c(5) by (auto simp: surplus_def)
    qed
  qed
qed

lemma loop_surplus:
  assumes "loop_step s t" "0 < a_frame_size (serving s)"
  shows "surplus s \<le> surplus t"
  using assms(1)
proof cases
  case (frame_given n st)
  then have "a_frame_size (serving s) \<le> sample_count (a_input (serving s))" "a_event st = a_event (serving s)"
    "a_frame_size st = a_frame_size (serving s)"
    "sample_count (a_input st) = sample_count (a_input (serving s)) - a_frame_size (serving s)"
    by (auto simp: dispatch_round_def split: if_splits option.splits)
  then show ?thesis
    using frame_given assms(2) le_div_geq [of "a_frame_size (serving s)" "sample_count (a_input (serving s))"]
    by (simp add: surplus_def)
qed (auto simp: surplus_def)

lemma step_frame_size: "audio_step s t \<Longrightarrow> a_frame_size (serving t) = a_frame_size (serving s)"
  unfolding audio_step_def
  by (auto elim!: loop_stepE callback_stepE simp: on_process_counts(1) dispatch_round_def split: if_splits option.splits)

lemma surplus_never_shrinks:
  "audio_step\<^sup>*\<^sup>* s t \<Longrightarrow> 0 < a_frame_size (serving s) \<Longrightarrow>
   surplus s \<le> surplus t \<and> a_frame_size (serving t) = a_frame_size (serving s)"
proof (induction rule: rtranclp_induct)
  case (step t u)
  have "surplus t \<le> surplus u"
    using step(2,3,4) loop_surplus callback_surplus(1) unfolding audio_step_def
    by (auto elim!: callback_stepE)
  with step step_frame_size [OF step(2)] show ?case by simp
qed simp

section \<open>The end\<close>

text \<open>With a surplus the loop always has a step, and each takes it nearer to its end.\<close>

lemma loop_goes_on:
  assumes "0 < surplus s" "\<not> failed s"
  shows "\<exists>t. loop_step s t"
proof (cases "rounds s")
  case 0
  with assms have "0 < a_event (serving s)" by (simp add: surplus_def)
  with 0 assms(2) dispatch_begins show ?thesis by blast
next
  case (Suc n)
  have "dispatch_round (serving s) = Abort \<or> (\<exists>st. dispatch_round (serving s) = Ret st)"
    by (auto simp: dispatch_round_def split: option.split)
  with Suc assms(2) frame_given contract_fails show ?thesis by blast
qed

definition loop_left :: "audio_run \<Rightarrow> nat" where
  "loop_left s = 2 * a_event (serving s) + rounds s + (if failed s then 0 else 1)"

lemma loop_left_less: "loop_step s t \<Longrightarrow> loop_left t < loop_left s"
  by (auto elim!: loop_stepE simp: loop_left_def dispatch_round_def split: if_splits option.splits)

lemma loop_fails:
  "0 < surplus s \<Longrightarrow> 0 < a_frame_size (serving s) \<Longrightarrow> \<exists>t. loop_step\<^sup>*\<^sup>* s t \<and> failed t"
proof (induction "loop_left s" arbitrary: s rule: less_induct)
  case less
  show ?case
  proof (cases "failed s")
    case False
    with loop_goes_on [OF less.prems(1)] obtain t where t: "loop_step s t" by blast
    have "0 < surplus t" "a_frame_size (serving t) = a_frame_size (serving s)"
      using loop_surplus [OF t less.prems(2)] less.prems step_frame_size [of s t] t by (auto simp: audio_step_def)
    with less.hyps [OF loop_left_less [OF t]] less.prems(2) t show ?thesis
      by (metis converse_rtranclp_into_rtranclp)
  qed blast
qed

section \<open>Properties\<close>

text \<open>
  (C12) A callback that comes too early dooms the audio service. When it completes a frame while frames
  announced before are still waiting, in the counter or in the dispatch that is going on, the frames
  announced exceed those in the buffer, and no later step of either thread makes up for this. From any
  state reached afterwards, if no callback comes for long enough, the loop fails its contract, and it
  cannot come to rest otherwise.
\<close>

theorem overrun_is_never_repaired:
  assumes "on_process (Buffer nb ds) (serving s) = Ret st" "0 < a_event (serving s) + rounds s"
    and "0 < a_frame_size st" "a_frame_size st \<le> sample_count (a_input st)"
      "a_event (serving s) + sample_count (a_input st) div a_frame_size st < 2 ^ 64 - 1"
    and later: "audio_step\<^sup>*\<^sup>* (s\<lparr>serving := st\<rparr>) t"
  shows "a_event (serving s) + rounds s \<le> surplus t \<and> (\<exists>u. loop_step\<^sup>*\<^sup>* t u \<and> failed u) \<and>
    (\<forall>u. loop_step\<^sup>*\<^sup>* t u \<longrightarrow> failed u \<or> (\<exists>v. loop_step u v))"
proof -
  have s: "surplus (s\<lparr>serving := st\<rparr>) = a_event (serving s) + rounds s"
    by (rule callback_surplus(2) [OF assms(1,5) refl assms(3,4)])
  have t: "a_event (serving s) + rounds s \<le> surplus t" "0 < a_frame_size (serving t)"
    using surplus_never_shrinks [OF later] assms(3) s by auto
  have "failed u \<or> (\<exists>v. loop_step u v)" if "loop_step\<^sup>*\<^sup>* t u" for u
  proof -
    have "audio_step\<^sup>*\<^sup>* t u" using that by (rule rtranclp_mono [THEN predicate2D, rotated]) (auto simp: audio_step_def)
    from surplus_never_shrinks [OF this t(2)] t(1) assms(2) have "0 < surplus u" by linarith
    with loop_goes_on [of u] show ?thesis by blast
  qed
  with t(1) loop_fails [OF _ t(2)] assms(2) show ?thesis by auto
qed

theorem overrun_is_never_repaired_witness:
  "\<exists>st st' u. on_process (Buffer 6 [[1, 2, 3, 4, 5, 6], [7, 8, 9, 10, 11, 12]]) demo_audio = Ret st \<and>
     on_process (Buffer 2 [[1, 2], [3, 4]]) st = Ret st' \<and>
     loop_step\<^sup>*\<^sup>* \<lparr>serving = st', rounds = 0, failed = False\<rparr> u \<and> failed u"
proof -
  let ?ds = "[[1, 2, 3, 4, 5, 6], [7, 8, 9, 10, 11, 12 :: u8]]"
  have init: "audio_inv demo_audio" "a_event demo_audio = 0" "sample_count (a_input demo_audio) = 0"
    "length (channels demo_audio) = 2" "a_format demo_audio = s16_planar" "a_frame_size demo_audio = 2"
    using demo_audio_idle by (simp_all add: idle_def demo_audio_def channels_def)
  from on_process_ok [OF init(1), of 6 ?ds] init obtain st where
    st: "on_process (Buffer 6 ?ds) demo_audio = Ret st" "audio_inv st" "a_event st = 1"
    "sample_count (a_input st) = 3" "length (channels st) = 2" "a_frame_size st = 2" "a_format st = s16_planar"
    by (auto simp: good_data_def num_samples_of_def)
  from on_process_ok [OF st(2), of 2 "[[1, 2], [3, 4]]"] st obtain st' where
    st': "on_process (Buffer 2 [[1, 2], [3, 4]]) st = Ret st'" "a_frame_size st' = 2" "sample_count (a_input st') = 4"
    by (auto simp: good_data_def num_samples_of_def)
  let ?s = "\<lparr>serving = st, rounds = 0, failed = False\<rparr>"
  from overrun_is_never_repaired [of 2 "[[1, 2], [3, 4]]" ?s st' "?s\<lparr>serving := st'\<rparr>"] st st' show ?thesis
    by auto
qed

end
