(* ===== verification/Spec2Isabelle.thy ===== *)
theory Spec2Isabelle
  imports Pool Base64 Frame_Time Utils Cmd_Line Context Media Audio Encoding Io Kms Shutdown Granting
    Drm_Video Video Metrics Interrupt Pool_Use Tables Nvfbc Queue Wiring Overrun
begin

text \<open>
  Shadow Cast records the screen and the sound of a Linux desktop with an NVIDIA card. This is a
  model of its C++ sources under \<open>src/\<close>, with the theorems that make it correct.

  \<^bold>\<open>The program.\<close> \<open>main\<close> parses the command line and runs a recording on Wayland (\<open>run_wayland\<close>) or
  X11 (\<open>run\<close>): it loads the libraries, opens the display, the codecs and the output file, and
  creates three event loops (\<open>Context\<close>), each in its thread. The main loop has the signal service
  and the video capture service, which at every frame period takes a picture (from NvFBC on X11, or
  from the display planes on Wayland, which a privileged helper process reads and sends over a
  socket) and gives it to a frame writer. The audio loop has the audio service, which PipeWire's
  thread feeds. Writers take items from the pool of the encoder service, fill a frame and queue it;
  the media loop drains the codecs and writes the packets. SIGINT stops the main and the audio
  loop; then the encoders are flushed, the media loop ends and the trailer is written.

  \<^bold>\<open>How code is modelled.\<close> Data structures are functions on explicit state: \<open>None\<close> of an option is
  undefined behaviour or a failed assertion, \<open>Inl\<close> of a sum an exception. Code that calls the
  kernel or a library is a \<open>prog\<close> (theory Effects): it extends a history of calls and returns, throws
  or ends the process (\<open>Abort\<close>), and a world answers every call from the history before it. The
  libraries and the kernel are only such worlds, so that a theorem about all worlds holds whatever
  they do; nothing is assumed of them except where a theorem has a named hypothesis. Machine integers
  are words of their width. Threads are interleavings of steps.

  \<^bold>\<open>Shared theories.\<close>
  \<^item> Prelude: word types, sequencing, runs of a step function over a list of operations.
  \<^item> Errors (\<open>src/error.hpp\<close>, \<open>error.cpp\<close>): the exceptions.
  \<^item> Effects (\<open>utils/scope_guard.hpp\<close>, \<open>utils/contracts.hpp\<close>): programs, scope guards, and rules for
    what a program leaves in the history (\<open>runs\<close>), that it returns (\<open>returns\<close>), that it never ends
    the process (\<open>safe\<close>).
  \<^item> Resources: what a program holds. A call acquires or releases something (\<open>delta\<close>); \<open>gains\<close> and
    \<open>scoped\<close> state what a program has acquired, or what is left of what it was given, for every
    way it ends. A release of something that is not held fails the statement.
  \<^item> Ownership: the locale of the move-only owners, with the proof that no program over them
    releases twice or loses anything. Its instances are the receiver, the socket, the process and
    the OpenGL object.

  \<^bold>\<open>Components and what is shown.\<close>
  \<^item> Intrusive_List (\<open>utils/intrusive_list.hpp\<close>): the ring of pointers in a heap; every operation
    refines the operation on the abstract list, \<open>splice\<close> moves exactly its range; the move
    constructor of a non-empty list is shown to break it, and the move assignment not to return. Pool (\<open>utils/pool.hpp\<close>): ownership of the
    items over any sequence of calls, and (a lemma) that \<open>clear\<close> frees everything.
  \<^item> Base64 (\<open>utils/base64.cpp\<close>): decoding inverts the RFC encoding on both byte orders, and which
    inputs are accepted. Frame_Time (\<open>utils/frame_time.cpp\<close>, \<open>elapsed.cpp\<close>): the time base of every
    accepted frame rate, by evaluation of single-precision arithmetic. Utils (\<open>utils/result.hpp\<close>,
    \<open>borrowed_ptr.hpp\<close>, \<open>non_pointer.hpp\<close>, \<open>symbol.hpp\<close>, \<open>receiver.hpp\<close>).
  \<^item> Cmd_Line (\<open>utils/cmd_line.hpp\<close>, \<open>cmd_line.cpp\<close>): the parser inverts the writing of options and
    arguments, never fails an assertion, and yields parameters in their documented ranges.
  \<^item> Readiness (\<open>services/readiness.cpp\<close>, \<open>service_registry.hpp\<close>) and Context
    (\<open>services/context.cpp\<close>): the event loop releases what it opened and uninitialises exactly what it
    initialised, ends when it is asked to, and its timers do not drift.
  \<^item> Media (\<open>av/sample_format.hpp\<close>, \<open>media_chunk.cpp\<close>) and Audio (\<open>services/audio_service.cpp\<close>,
    \<open>handlers/audio_chunk_writer.cpp\<close>): no sample is lost or duplicated when callbacks and dispatches
    alternate, and what goes wrong when they do not.
  \<^item> Encoding (\<open>services/encoder_service.cpp\<close>, \<open>encoder.cpp\<close>, \<open>av/frame.cpp\<close>,
    \<open>handlers/stream_finalizer.cpp\<close>): a dispatch drains the queue in order and returns all items.
  \<^item> Video (\<open>services/video_service.cpp\<close>, \<open>handlers/video_frame_writer.cpp\<close>,
    \<open>drm_video_frame_writer.cpp\<close>): frames are numbered without a gap, and the period of the timer. A
    frame writer is a locale with three instances.
  \<^item> Io (\<open>io/*.cpp\<close>, \<open>drm/messaging.cpp\<close>, \<open>drm/planes.cpp\<close>): sockets, processes, messages with
    descriptors and their round trip. Kms (\<open>kms.cpp\<close>): the helper process releases everything and
    ends.
  \<^item> Gl (\<open>gl/*\<close>), Color_Converter (\<open>services/color_converter.cpp\<close>) and Drm_Video
    (\<open>services/drm_video_service.cpp\<close>): every binding is undone, every object is deleted once, and the
    descriptors of a frame are closed exactly once whatever the driver answers.
  \<^item> Host, Nvidia (\<open>nvidia.cpp\<close>, \<open>av/codec.cpp\<close>), Platform (\<open>platform/*.cpp\<close>, \<open>display/display.cpp\<close>),
    Signals (\<open>services/signal_service.cpp\<close>) and Session (\<open>main.cpp\<close>): the whole process, from the
    command line to the exit code, releases only what it holds and on success everything; Granting
    shows that success is reached on a host that grants every call.
  \<^item> Shutdown (\<open>run_loop\<close> of \<open>main.cpp\<close>): the three threads as a step relation; the order of the
    shutdown in every interleaving, and that it finishes.
  \<^item> Metrics (\<open>metrics/*\<close>, \<open>logging.cpp\<close>): the histogram equals a reference that divides.
  \<^item> Nvfbc (\<open>nvidia/NvFBC.h\<close>): the structures of the capture library with their layout and version
    words, its functions and their table; every call passes the structure of its function, with the
    version of its size.

  \<^bold>\<open>Where components meet.\<close>
  \<^item> Wiring: \<open>main.cpp\<close> on the service registry; every service is found where it is looked for and has
    the type it is cast to, whatever fails and in whatever order the types are numbered.
  \<^item> Tables: the functions that the capture on Wayland calls are slots of the tables of OpenGL, EGL and
    CUDA that the start of the process loads; a call of any other slot would be a call through a null
    pointer.
  \<^item> Interrupt: a SIGINT in the descriptor of the signal service runs through the epoll set, the
    dispatch of the service, the handler of \<open>main\<close> and the stop flag to the end of the event loop.
  \<^item> Pipeline: over the life of the encoder service no item is returned that was not queued, and none
    that was queued is kept. Pool_Use replays the same events on the heap of the pool: they are
    operations it allows, in states where its ownership invariant holds.
  \<^item> Queue: \<open>write_frame\<close> and \<open>dispatch\<close> as steps between the operations on the mutex, for any number
    of writing threads; nothing is lost or overtaken, the loop does not sleep over an item, and what
    happens to a writer that comes after a failure.
  \<^item> Overrun: \<open>on_process\<close> and \<open>dispatch_chunks\<close> in the same way; a callback that comes while announced
    frames wait leaves the service with more frames announced than it has, for good.

  \<^bold>\<open>Interfaces between the parts.\<close> Encoding and Video use the queue and the pool as events, with the
  contracts that Intrusive_List and Pool prove. Context takes what a service registers and how a
  dispatch ends as answers; Audio, Video, Drm_Video, Encoding and Signals model those dispatches.
  Session takes the run of the three contexts as one event, which Shutdown opens; Shutdown takes a
  run of a context as one state, which Context opens, and Interrupt puts the dispatch of Signals
  into the run of Context. The history of a part that is a program of its
  own is embedded into that of the whole by \<open>inside\<close>.

  \<^bold>\<open>Fuel.\<close> Five loops may run for ever and take fuel; a run that is cut ends with \<open>Abort\<close>. The event
  loop needs one unit for each reading of the stop flag (\<open>Context.context_run_stops\<close>: \<open>k + 1\<close> units
  when the flag is set at the \<open>k\<close>-th reading). The drain of a codec and the sending of an end marker
  need one unit for each packet and one for the end (\<open>Encoding.encoder_dispatch_ends\<close>). The helper
  needs one unit for each request and one for the end (\<open>Kms.helper_stops\<close>). The dispatch of signals
  needs one unit for each waiting signal and one for the empty read
  (\<open>Signals.signals_delivered_in_order\<close>). Every other recursion is structural or has a measure.

  \<^bold>\<open>Not modelled.\<close> Umbrella headers, which only include others. One-line deleters appear as release events. What the functions behind the tables
  do is the world; Tables says which of them are called, not with which arguments. The GLSL shaders, the tests and the build.
  Measurements compiled only with \<open>SHADOW_CAST_ENABLE_HISTOGRAMS\<close> inside the services; the histograms
  themselves are modelled. Data races on plain variables: the interleavings have the grain of the
  mutex sections. Uniform values are the integers they are made from, without the rounding to float.
\<close>

end
